(* ===== verification/Prelude.thy ===== *)
theory Prelude
  imports Main "HOL-Library.Word" "HOL-Library.AList" "HOL-Library.Sublist" "HOL-Library.Multiset"
begin

text \<open>
  Shared vocabulary of the Pleiades development: machine integers, results, Rust strings as
  UTF-8 byte sequences, integer printing and parsing, little- and big-endian encodings, byte
  streams, and two interfaces used by many components: \<open>wire_format\<close> (a self-delimiting
  message format) and \<open>state_machine\<close> (an invariant of all reachable states).
\<close>

section \<open>Collections of facts\<close>

named_theorems codec_simps \<open>unfolding rules of the wire formats\<close>
named_theorems store_simps \<open>lookup-after-update rules of the keyed stores\<close>

section \<open>Machine integers\<close>

type_synonym u8 = "8 word"
type_synonym u16 = "16 word"
type_synonym u32 = "32 word"
type_synonym u64 = "64 word"
type_synonym bytes = "8 word list"

lemma unat_u8_less [simp]: "unat (b :: u8) < 256"
  using unsigned_less [of b, where 'a = nat] by simp

lemma unat_of_nat_u8 [simp]: "unat (of_nat n :: u8) = n mod 256"
  by (simp add: unat_of_nat)

section \<open>Results\<close>

text \<open>\<open>Result<T, E>\<close> is \<open>'e + 't\<close>; \<open>rbind\<close> is the \<open>?\<close> operator followed by the rest.\<close>

definition rbind :: "'e + 'a \<Rightarrow> ('a \<Rightarrow> 'e + 'b) \<Rightarrow> 'e + 'b" where
  "rbind r f = (case r of Inl e \<Rightarrow> Inl e | Inr a \<Rightarrow> f a)"

lemma rbind_simps [simp]: "rbind (Inl e) f = Inl e" "rbind (Inr a) f = f a"
  by (simp_all add: rbind_def)

lemma rbind_eq_Inr: "rbind r f = Inr b \<longleftrightarrow> (\<exists>a. r = Inr a \<and> f a = Inr b)"
  by (cases r) auto

lemma rbind_eq_Inl: "rbind r f = Inl e \<longleftrightarrow> r = Inl e \<or> (\<exists>a. r = Inr a \<and> f a = Inl e)"
  by (cases r) auto

definition map_err :: "('e \<Rightarrow> 'f) \<Rightarrow> 'e + 'a \<Rightarrow> 'f + 'a" where
  "map_err g r = (case r of Inl e \<Rightarrow> Inl (g e) | Inr a \<Rightarrow> Inr a)"

lemma map_err_simps [simp]: "map_err g (Inl e) = Inl (g e)" "map_err g (Inr a) = Inr a"
  by (simp_all add: map_err_def)

lemma map_err_eq_Inr [simp]: "map_err g r = Inr a \<longleftrightarrow> r = Inr a"
  by (cases r) auto

definition ok_or :: "'e \<Rightarrow> 'a option \<Rightarrow> 'e + 'a" where
  "ok_or e x = (case x of None \<Rightarrow> Inl e | Some a \<Rightarrow> Inr a)"

lemma ok_or_simps [simp]: "ok_or e None = Inl e" "ok_or e (Some a) = Inr a"
  by (simp_all add: ok_or_def)

definition is_ok :: "'e + 'a \<Rightarrow> bool" where
  "is_ok r = (case r of Inl _ \<Rightarrow> False | Inr _ \<Rightarrow> True)"

lemma is_ok_simps [simp]: "\<not> is_ok (Inl e)" "is_ok (Inr a)"
  by (simp_all add: is_ok_def)

section \<open>Strings\<close>

text \<open>
  A Rust \<open>String\<close> is a sequence of bytes that is valid UTF-8. It is modelled by the list of its
  bytes, each a \<open>char\<close>; \<open>is_str\<close> is the validity every Rust string has.
\<close>

definition byte_of_char :: "char \<Rightarrow> u8" where
  "byte_of_char c = of_nat (of_char c)"

definition char_of_byte :: "u8 \<Rightarrow> char" where
  "char_of_byte b = char_of (unat b)"

lemma char_of_byte_of_char [simp]: "char_of_byte (byte_of_char c) = c"
  by (simp add: char_of_byte_def byte_of_char_def)

lemma byte_of_char_of_byte [simp]: "byte_of_char (char_of_byte b) = b"
  by (simp add: char_of_byte_def byte_of_char_def)

definition as_bytes :: "string \<Rightarrow> bytes" where
  "as_bytes s = map byte_of_char s"

lemma length_as_bytes [simp]: "length (as_bytes s) = length s"
  by (simp add: as_bytes_def)

lemma as_bytes_append [simp]: "as_bytes (s @ t) = as_bytes s @ as_bytes t"
  by (simp add: as_bytes_def)

lemma as_bytes_Nil [simp]: "as_bytes [] = []"
  by (simp add: as_bytes_def)

definition cont_byte :: "nat \<Rightarrow> bool" where
  "cont_byte b \<longleftrightarrow> 128 \<le> b \<and> b \<le> 191"

text \<open>The UTF-8 validity test of \<open>core::str::from_utf8\<close> (RFC 3629, table of well-formed sequences).\<close>

definition utf8_width :: "nat \<Rightarrow> nat" where
  "utf8_width a =
     (if a < 128 then 1 else if 194 \<le> a \<and> a \<le> 223 then 2
      else if 224 \<le> a \<and> a \<le> 239 then 3 else if 240 \<le> a \<and> a \<le> 244 then 4 else 0)"

definition second_ok :: "nat \<Rightarrow> nat \<Rightarrow> bool" where
  "second_ok a b \<longleftrightarrow>
     (if a = 224 then 160 \<le> b \<and> b \<le> 191 else if a = 237 then 128 \<le> b \<and> b \<le> 159
      else if a = 240 then 144 \<le> b \<and> b \<le> 191 else if a = 244 then 128 \<le> b \<and> b \<le> 143
      else cont_byte b)"

text \<open>\<open>utf8_len\<close> is the length of the well-formed sequence the bytes start with, 0 when there is none.\<close>

definition utf8_len :: "nat list \<Rightarrow> nat" where
  "utf8_len as =
     (case as of [] \<Rightarrow> 0
      | a # r \<Rightarrow>
          let w = utf8_width a in
          if w = 0 \<or> length as < w then 0
          else if w = 1 then 1
          else if second_ok a (r ! 0) \<and> list_all cont_byte (take (w - 2) (drop 1 r)) then w else 0)"

lemma utf8_len_le: "utf8_len as \<le> length as"
  by (cases "as") (auto simp: utf8_len_def Let_def)

lemma utf8_len_append:
  assumes "0 < utf8_len as"
  shows "utf8_len (as @ bs) = utf8_len as"
proof (cases "as")
  case (Cons a r)
  define w where "w = utf8_width a"
  have len: "w \<le> length (a # r)" and "w \<noteq> 0"
    using assms by (auto simp: utf8_len_def Cons w_def Let_def split: if_splits)
  show ?thesis
  proof (cases "w = 1")
    case False
    with len \<open>w \<noteq> 0\<close> have "r \<noteq> []" and "w - 2 \<le> length r - 1" by auto
    then have "(r @ bs) ! 0 = r ! 0" "take (w - 2) (drop 1 (r @ bs)) = take (w - 2) (drop 1 r)"
      by (auto simp: nth_append neq_Nil_conv)
    with len show ?thesis
      by (simp add: utf8_len_def Cons w_def [symmetric] Let_def)
  qed (use len in \<open>simp add: utf8_len_def Cons w_def [symmetric]\<close>)
qed (use assms in \<open>simp add: utf8_len_def\<close>)

function utf8_nats :: "nat list \<Rightarrow> bool" where
  "utf8_nats as =
     (if as = [] then True else if utf8_len as = 0 then False
      else utf8_nats (drop (utf8_len as) as))"
  by pat_completeness auto
termination
  by (relation "measure length") auto

declare utf8_nats.simps [simp del]

definition utf8_valid :: "bytes \<Rightarrow> bool" where
  "utf8_valid bs = utf8_nats (map unat bs)"

definition is_str :: "string \<Rightarrow> bool" where
  "is_str s = utf8_valid (as_bytes s)"

definition ascii :: "string \<Rightarrow> bool" where
  "ascii s = list_all (\<lambda>c. (of_char c :: nat) < 128) s"

lemma utf8_nats_Nil [simp]: "utf8_nats []"
  by (simp add: utf8_nats.simps)

lemma utf8_nats_ascii_Cons [simp]: "a < 128 \<Longrightarrow> utf8_nats (a # as) = utf8_nats as"
  by (simp add: utf8_nats.simps [of "a # as"] utf8_len_def utf8_width_def)

lemma utf8_nats_ascii: "list_all (\<lambda>a. a < 128) as \<Longrightarrow> utf8_nats as"
  by (induction "as") auto

lemma utf8_nats_append: "utf8_nats as \<Longrightarrow> utf8_nats bs \<Longrightarrow> utf8_nats (as @ bs)"
proof (induction "as" rule: utf8_nats.induct)
  case (1 "as")
  show ?case
  proof (cases "as = []")
    case False
    with "1.prems" have k: "0 < utf8_len as" and r: "utf8_nats (drop (utf8_len as) as)"
      by (auto simp: utf8_nats.simps [of "as"] split: if_splits)
    have "utf8_nats (drop (utf8_len as) as @ bs)"
      using "1.IH" False k r "1.prems"(2) by blast
    with k show ?thesis
      using utf8_len_le [of "as"]
      by (simp add: utf8_nats.simps [of "as @ bs"] utf8_len_append)
  qed (use "1.prems" in simp)
qed

lemma map_unat_as_bytes: "map unat (as_bytes s) = map of_char s"
  by (simp add: as_bytes_def byte_of_char_def)

lemma is_str_alt: "is_str s = utf8_nats (map of_char s)"
  by (simp add: is_str_def utf8_valid_def map_unat_as_bytes)

lemma ascii_is_str: "ascii s \<Longrightarrow> is_str s"
  by (simp add: is_str_alt ascii_def utf8_nats_ascii list_all_iff)

lemma is_str_append [intro]: "is_str s \<Longrightarrow> is_str t \<Longrightarrow> is_str (s @ t)"
  by (simp add: is_str_alt utf8_nats_append)

definition from_utf8 :: "bytes \<Rightarrow> string option" where
  "from_utf8 bs = (if utf8_valid bs then Some (map char_of_byte bs) else None)"

lemma from_utf8_as_bytes [simp]: "is_str s \<Longrightarrow> from_utf8 (as_bytes s) = Some s"
  by (simp add: from_utf8_def is_str_def as_bytes_def comp_def)

lemma from_utf8_Some:
  assumes "from_utf8 bs = Some s"
  shows "is_str s" and "as_bytes s = bs"
  using assms by (auto simp: from_utf8_def is_str_def as_bytes_def comp_def split: if_splits)

section \<open>Integers as text\<close>

text \<open>Rust's \<open>Display\<close> for unsigned integers, and \<open>FromStr\<close> with its three error kinds.\<close>

definition digit_char :: "nat \<Rightarrow> char" where
  "digit_char d = char_of (48 + d)"

definition digit_val :: "char \<Rightarrow> nat option" where
  "digit_val c = (let n = (of_char c :: nat) in if 48 \<le> n \<and> n \<le> 57 then Some (n - 48) else None)"

lemma digit_val_char [simp]: "d < 10 \<Longrightarrow> digit_val (digit_char d) = Some d"
  by (simp add: digit_val_def digit_char_def)

fun show_nat :: "nat \<Rightarrow> string" where
  "show_nat n = (if n < 10 then [digit_char n] else show_nat (n div 10) @ [digit_char (n mod 10)])"

declare show_nat.simps [simp del]

datatype parse_int_error = Int_Empty | Invalid_Digit | Pos_Overflow

fun parse_digits :: "nat \<Rightarrow> nat \<Rightarrow> string \<Rightarrow> parse_int_error + nat" where
  "parse_digits m acc [] = Inr acc"
| "parse_digits m acc (c # cs) =
     (case digit_val c of
        None \<Rightarrow> Inl Invalid_Digit
      | Some d \<Rightarrow>
          if m < acc * 10 \<or> m < acc * 10 + d then Inl Pos_Overflow
          else parse_digits m (acc * 10 + d) cs)"

definition parse_uint :: "nat \<Rightarrow> string \<Rightarrow> parse_int_error + nat" where
  "parse_uint m s =
     (case s of
        [] \<Rightarrow> Inl Int_Empty
      | c # cs \<Rightarrow>
          if c = CHR ''+'' then (if cs = [] then Inl Invalid_Digit else parse_digits m 0 cs)
          else parse_digits m 0 s)"

lemma parse_digits_append:
  "parse_digits m acc (s @ t) = rbind (parse_digits m acc s) (\<lambda>a. parse_digits m a t)"
  by (induction m acc s rule: parse_digits.induct) (auto split: option.splits)

lemma parse_digits_show: "n \<le> m \<Longrightarrow> parse_digits m 0 (show_nat n) = Inr n"
proof (induction n rule: show_nat.induct)
  case (1 n)
  show ?case
  proof (cases "n < 10")
    case True
    with "1.prems" show ?thesis by (simp add: show_nat.simps)
  next
    case False
    with "1.prems" have "parse_digits m 0 (show_nat (n div 10)) = Inr (n div 10)"
      by (intro "1.IH") auto
    with False "1.prems" show ?thesis
      by (simp add: show_nat.simps [of n] parse_digits_append)
  qed
qed

lemma show_nat_nonempty [simp]: "show_nat n \<noteq> []"
  by (subst show_nat.simps) simp

lemma set_show_nat: "set (show_nat n) \<subseteq> digit_char ` {..<10}"
proof (induction n rule: show_nat.induct)
  case (1 n)
  then show ?case by (subst show_nat.simps) auto
qed

lemma digit_char_range: "d < 10 \<Longrightarrow> (of_char (digit_char d) :: nat) = 48 + d"
  by (simp add: digit_char_def)

lemma show_nat_chars: "c \<in> set (show_nat n) \<Longrightarrow> 48 \<le> (of_char c :: nat) \<and> (of_char c :: nat) \<le> 57"
  using set_show_nat [of n] by (auto simp: digit_char_range)

lemma parse_uint_show [simp]:
  assumes "n \<le> m"
  shows "parse_uint m (show_nat n) = Inr n"
proof -
  obtain c cs where s: "show_nat n = c # cs" by (cases "show_nat n") auto
  then have "c \<noteq> CHR ''+''" using show_nat_chars [of c n] by auto
  with s parse_digits_show [OF assms] show ?thesis by (simp add: parse_uint_def)
qed

lemma ascii_show_nat: "ascii (show_nat n)"
  unfolding ascii_def list_all_iff using show_nat_chars by fastforce

lemma parse_digits_le: "parse_digits m acc s = Inr n \<Longrightarrow> acc \<le> m \<Longrightarrow> n \<le> m"
  by (induction m acc s rule: parse_digits.induct) (auto split: option.splits if_splits)

lemma parse_uint_le: "parse_uint m s = Inr n \<Longrightarrow> n \<le> m"
  by (auto simp: parse_uint_def split: list.splits if_splits simp del: parse_digits.simps dest!: parse_digits_le)

section \<open>Splitting text\<close>

text \<open>\<open>str::split(c)\<close>: the pieces between the occurrences of an ASCII separator; never empty.\<close>

fun split_on :: "char \<Rightarrow> string \<Rightarrow> string list" where
  "split_on c [] = [[]]"
| "split_on c (x # xs) =
     (if x = c then [] # split_on c xs
      else case split_on c xs of [] \<Rightarrow> [[x]] | p # ps \<Rightarrow> (x # p) # ps)"

lemma split_on_not_Nil [simp]: "split_on c s \<noteq> []"
  by (induction c s rule: split_on.induct) (auto split: list.splits)

lemma split_on_free [simp]: "c \<notin> set s \<Longrightarrow> split_on c s = [s]"
  by (induction c s rule: split_on.induct) auto

lemma split_on_append [simp]: "c \<notin> set s \<Longrightarrow> split_on c (s @ c # t) = s # split_on c t"
  by (induction s) auto

lemma length_split_on: "length (split_on c s) = Suc (count_list s c)"
  by (induction c s rule: split_on.induct) (auto split: list.splits simp: length_greater_0_conv [symmetric])

fun join_with :: "string \<Rightarrow> string list \<Rightarrow> string" where
  "join_with sep [] = []"
| "join_with sep [p] = p"
| "join_with sep (p # q # ps) = p @ sep @ join_with sep (q # ps)"

lemma join_split: "join_with [c] (split_on c s) = s"
proof (induction c s rule: split_on.induct)
  case (2 c x xs)
  obtain p ps where "split_on c xs = p # ps" by (cases "split_on c xs") auto
  with 2 show ?case by (cases ps) auto
qed simp

lemma split_join:
  "ps \<noteq> [] \<Longrightarrow> \<forall>p \<in> set ps. c \<notin> set p \<Longrightarrow> split_on c (join_with [c] ps) = ps"
  by (induction "[c]" ps rule: join_with.induct) auto

section \<open>Association lists as hash maps\<close>

text \<open>
  A \<open>HashMap\<close> is an association list with distinct keys: the order of the list stands for the
  unspecified iteration order, so a fact proved for every such list holds for every order.
\<close>

lemma map_of_AList_delete [store_simps]: "map_of (AList.delete k al) k' = (if k' = k then None else map_of al k')"
  by (simp add: delete_conv)

lemma map_of_AList_update [store_simps]:
  "map_of (AList.update k v al) k' = (if k' = k then Some v else map_of al k')"
  by (simp add: update_conv')

lemma fst_AList_update [store_simps]: "fst ` set (AList.update k v al) = insert k (fst ` set al)"
  using dom_update [of k v al] by simp

lemma fst_AList_delete [store_simps]: "fst ` set (AList.delete k al) = fst ` set al - {k}"
  by (simp flip: dom_map_of_conv_image_fst add: delete_conv dom_fun_upd)
    (auto simp: dom_def delete_conv)

lemma distinct_AList_delete: "distinct (map fst al) \<Longrightarrow> distinct (map fst (AList.delete k al))"
  by (rule distinct_delete)

lemma mset_AList_delete:
  assumes "distinct (map fst al)" "map_of al k = Some v"
  shows "mset (map snd al) = add_mset v (mset (map snd (AList.delete k al)))"
  using assms
proof (induction al)
  case (Cons a al)
  then show ?case by (cases a) (auto simp: delete_id)
qed simp

lemma mset_AList_update:
  assumes "distinct (map fst al)"
  shows "mset (map snd (AList.update k v al)) + (case map_of al k of None \<Rightarrow> {#} | Some v' \<Rightarrow> {#v'#})
       = add_mset v (mset (map snd al))"
  using assms by (induction al) (auto split: option.splits)

lemma mset_AList_update_subset:
  "mset (map snd (AList.update k v al)) \<subseteq># add_mset v (mset (map snd al))"
proof (induction al)
  case (Cons a al)
  show ?case
  proof (cases "fst a = k")
    case True
    then have "mset (map snd (AList.update k v (a # al))) = add_mset v (mset (map snd al))" by (cases a) auto
    then show ?thesis by (simp add: subset_mset.add_increasing)
  next
    case False
    with Cons show ?thesis by (cases a) (auto simp: add_mset_commute)
  qed
qed simp

lemma mset_AList_delete_subset:
  "mset (map snd (AList.delete k al)) \<subseteq># mset (map snd al)"
  by (induction al) (auto intro: subset_mset.order_trans)

lemma mset_AList_delete_lookup:
  "map_of al k = Some v \<Longrightarrow> add_mset v (mset (map snd (AList.delete k al))) \<subseteq># mset (map snd al)"
proof (induction al)
  case (Cons a al)
  show ?case
  proof (cases "fst a = k")
    case True
    with Cons.prems mset_AList_delete_subset [of k al] show ?thesis by (cases a) auto
  next
    case False
    with Cons show ?thesis by (cases a) (auto simp: add_mset_commute)
  qed
qed simp

lemma set_AList_update: "distinct (map fst al) \<Longrightarrow> set (AList.update k v al) = insert (k, v) {x \<in> set al. fst x \<noteq> k}"
  by (induction al) (auto simp: image_iff)

lemma set_AList_delete: "set (AList.delete k al) = {x \<in> set al. fst x \<noteq> k}"
  by (auto simp: AList.delete_eq)

lemma find_SomeD: "find P xs = Some x \<Longrightarrow> x \<in> set xs \<and> P x"
  by (induction xs) (auto split: if_splits)

lemma find_unique:
  assumes "x \<in> set xs" "P x" "\<And>y. y \<in> set xs \<Longrightarrow> P y \<Longrightarrow> y = x"
  shows "find P xs = Some x"
proof (cases "find P xs")
  case None
  with assms(1,2) show ?thesis by (auto simp: find_None_iff)
next
  case (Some y)
  with find_SomeD [OF Some] assms(3) show ?thesis by blast
qed

section \<open>State machines\<close>

text \<open>
  The interface of a component with state: an initial state, a step relation, and an invariant
  every step keeps. What the client gets is that the invariant holds in every state reachable by
  any number of steps, whatever their order.
\<close>

inductive reach :: "('s \<Rightarrow> bool) \<Rightarrow> ('s \<Rightarrow> 's \<Rightarrow> bool) \<Rightarrow> 's \<Rightarrow> bool"
  for start :: "'s \<Rightarrow> bool" and step :: "'s \<Rightarrow> 's \<Rightarrow> bool" where
  reach_start: "start s \<Longrightarrow> reach start step s"
| reach_step: "reach start step s \<Longrightarrow> step s t \<Longrightarrow> reach start step t"

locale state_machine =
  fixes start :: "'s \<Rightarrow> bool"
    and step :: "'s \<Rightarrow> 's \<Rightarrow> bool"
    and inv :: "'s \<Rightarrow> bool"
  assumes inv_start: "start s \<Longrightarrow> inv s"
    and inv_step: "inv s \<Longrightarrow> step s t \<Longrightarrow> inv t"
begin

lemma reach_inv: "reach start step s \<Longrightarrow> inv s"
  by (induction rule: reach.induct) (auto intro: inv_start inv_step)

lemma reach_stepped_inv: "reach start step s \<Longrightarrow> step s t \<Longrightarrow> inv t"
  by (blast intro: inv_step reach_inv)

end

text \<open>A simulation: each step of the concrete machine is a step of the abstract one or a stutter, so
  invariants of the abstract machine hold of the concrete one.\<close>

locale simulation =
  fixes start :: "'c \<Rightarrow> bool"
    and step :: "'c \<Rightarrow> 'c \<Rightarrow> bool"
    and abs_start :: "'a \<Rightarrow> bool"
    and abs_step :: "'a \<Rightarrow> 'a \<Rightarrow> bool"
    and proj :: "'c \<Rightarrow> 'a"
  assumes sim_start: "start s \<Longrightarrow> abs_start (proj s)"
    and sim_step: "step s t \<Longrightarrow> abs_step (proj s) (proj t) \<or> proj s = proj t"
begin

lemma reach_abs: "reach start step s \<Longrightarrow> reach abs_start abs_step (proj s)"
proof (induction rule: reach.induct)
  case (reach_step s t)
  then show ?case using sim_step [OF reach_step.hyps(2)] by (auto intro: reach.reach_step)
qed (auto intro: reach_start sim_start)

lemma abs_inv: "(\<And>a. reach abs_start abs_step a \<Longrightarrow> Q a) \<Longrightarrow> reach start step s \<Longrightarrow> Q (proj s)"
  by (blast intro: reach_abs)

end

section \<open>Trimming\<close>

text \<open>\<open>str::trim\<close> removes the characters with the Unicode property \<open>White_Space\<close>; these are their
  UTF-8 sequences.\<close>

definition ws_seqs :: "string list" where
  "ws_seqs = map (map char_of)
     ([[9], [10], [11], [12], [13], [32], [194, 133], [194, 160], [225, 154, 128],
       [226, 128, 168], [226, 128, 169], [226, 128, 175], [226, 129, 159], [227, 128, 128]]
      @ map (\<lambda>k. [226, 128, 128 + k]) [0, 1, 2, 3, 4, 5, 6, 7, 8, 9, 10 :: nat])"

function trim_start :: "string \<Rightarrow> string" where
  "trim_start s =
     (case find (\<lambda>w. w \<noteq> [] \<and> prefix w s) ws_seqs of
        None \<Rightarrow> s
      | Some w \<Rightarrow> trim_start (drop (length w) s))"
  by pat_completeness auto
termination
  by (relation "measure length") (auto simp: find_Some_iff prefix_def)

declare trim_start.simps [simp del]

text \<open>The same from the end of the string, which is kept reversed.\<close>

function trim_rev :: "string \<Rightarrow> string" where
  "trim_rev r =
     (case find (\<lambda>w. w \<noteq> [] \<and> prefix (rev w) r) ws_seqs of
        None \<Rightarrow> r
      | Some w \<Rightarrow> trim_rev (drop (length w) r))"
  by pat_completeness auto
termination
  by (relation "measure length") (auto simp: find_Some_iff prefix_def)

declare trim_rev.simps [simp del]

definition str_trim :: "string \<Rightarrow> string" where
  "str_trim s = rev (trim_rev (rev (trim_start s)))"

text \<open>A printable ASCII character neither starts nor ends a whitespace sequence.\<close>

definition graphic :: "char \<Rightarrow> bool" where
  "graphic c \<longleftrightarrow> 33 \<le> (of_char c :: nat) \<and> (of_char c :: nat) < 127"

lemma ws_seqs_not_graphic: "w \<in> set ws_seqs \<Longrightarrow> c \<in> set w \<Longrightarrow> \<not> graphic c"
  by (auto simp: ws_seqs_def graphic_def)

lemma graphic_no_prefix: "graphic c \<Longrightarrow> w \<in> set ws_seqs \<Longrightarrow> w \<noteq> [] \<Longrightarrow> \<not> prefix w (c # s)"
  using ws_seqs_not_graphic [of w c] by (cases w) auto

lemma graphic_no_prefix_rev:
  assumes "graphic c" "w \<in> set ws_seqs" "w \<noteq> []"
  shows "\<not> prefix (rev w) (c # s)"
proof (cases "rev w")
  case (Cons d u)
  then have "d \<in> set w" by (metis list.set_intros(1) set_rev)
  with assms Cons ws_seqs_not_graphic [of w c] show ?thesis by auto
qed (use assms in simp)

lemma trim_start_graphic: "graphic c \<Longrightarrow> trim_start (c # s) = c # s"
proof -
  assume "graphic c"
  then have "find (\<lambda>w. w \<noteq> [] \<and> prefix w (c # s)) ws_seqs = None"
    using graphic_no_prefix unfolding find_None_iff by blast
  then show ?thesis by (subst trim_start.simps) simp
qed

lemma trim_rev_graphic: "graphic c \<Longrightarrow> trim_rev (c # s) = c # s"
proof -
  assume "graphic c"
  then have "find (\<lambda>w. w \<noteq> [] \<and> prefix (rev w) (c # s)) ws_seqs = None"
    using graphic_no_prefix_rev unfolding find_None_iff by blast
  then show ?thesis by (subst trim_rev.simps) simp
qed

lemma str_trim_graphic [simp]:
  assumes "list_all graphic s"
  shows "str_trim s = s"
proof (cases s)
  case Nil
  have "trim_start [] = []" "trim_rev [] = []"
    by (subst trim_start.simps trim_rev.simps, auto split: option.splits simp: find_Some_iff)+
  with Nil show ?thesis by (simp add: str_trim_def)
next
  case (Cons c t)
  with assms have "trim_start s = s" by (simp add: trim_start_graphic)
  moreover have "trim_rev (rev s) = rev s"
  proof (cases "rev s")
    case (Cons d u)
    then have "d \<in> set s" by (metis list.set_intros(1) set_rev)
    with assms Cons show ?thesis by (simp add: list_all_iff trim_rev_graphic)
  qed (use Cons in simp)
  ultimately show ?thesis by (simp add: str_trim_def)
qed

section \<open>Lossy decoding and bounded splitting\<close>

text \<open>\<open>String::from_utf8_lossy\<close>: every maximal ill-formed sequence becomes U+FFFD.\<close>

definition utf8_bad_len :: "nat list \<Rightarrow> nat" where
  "utf8_bad_len as =
     (case as of [] \<Rightarrow> 0
      | a # r \<Rightarrow>
          if utf8_width a \<le> 1 \<or> r = [] \<or> \<not> second_ok a (r ! 0) then 1
          else if length r < 2 \<or> \<not> cont_byte (r ! 1) then 2 else 3)"

function utf8_lossy :: "nat list \<Rightarrow> nat list" where
  "utf8_lossy as =
     (if as = [] then []
      else if 0 < utf8_len as then take (utf8_len as) as @ utf8_lossy (drop (utf8_len as) as)
      else [239, 191, 189] @ utf8_lossy (drop (utf8_bad_len as) as))"
  by pat_completeness auto
termination
  by (relation "measure length") (auto simp: utf8_bad_len_def split: list.splits)

declare utf8_lossy.simps [simp del]

definition from_utf8_lossy :: "bytes \<Rightarrow> string" where
  "from_utf8_lossy bs = map char_of (utf8_lossy (map unat bs))"

lemma utf8_lossy_valid: "utf8_nats as \<Longrightarrow> utf8_lossy as = as"
proof (induction "as" rule: utf8_nats.induct)
  case (1 "as")
  show ?case
  proof (cases "as = []")
    case False
    with "1.prems" have k: "0 < utf8_len as" and r: "utf8_nats (drop (utf8_len as) as)"
      by (auto simp: utf8_nats.simps [of "as"] split: if_splits)
    with False "1.IH" show ?thesis by (subst utf8_lossy.simps) simp
  qed (simp add: utf8_lossy.simps)
qed

lemma from_utf8_lossy_as_bytes [simp]: "is_str s \<Longrightarrow> from_utf8_lossy (as_bytes s) = s"
  by (simp add: from_utf8_lossy_def is_str_alt map_unat_as_bytes utf8_lossy_valid)

text \<open>\<open>str::splitn(n, c)\<close> and \<open>str::split_once(c)\<close>.\<close>

fun splitn :: "nat \<Rightarrow> char \<Rightarrow> string \<Rightarrow> string list" where
  "splitn 0 c s = []"
| "splitn (Suc 0) c s = [s]"
| "splitn (Suc (Suc n)) c s =
     (case dropWhile (\<lambda>x. x \<noteq> c) s of
        [] \<Rightarrow> [s]
      | _ # t \<Rightarrow> takeWhile (\<lambda>x. x \<noteq> c) s # splitn (Suc n) c t)"

lemma splitn_append [simp]:
  "c \<notin> set s \<Longrightarrow> splitn (Suc (Suc n)) c (s @ c # t) = s # splitn (Suc n) c t"
  by (auto simp: takeWhile_append dropWhile_append)

section \<open>Fresh ids\<close>

text \<open>
  A component that numbers its objects from a machine-integer counter: each draw returns the
  current number and moves on. The client lemma: any number of draws that stays below the wrap of
  the counter returns different ids.
\<close>

locale id_source =
  fixes draw :: "'s \<Rightarrow> 'i \<times> 's"
    and ctr :: "'s \<Rightarrow> nat"
    and num :: "'i \<Rightarrow> nat"
    and bound :: nat
  assumes draw_num: "ctr s < bound \<Longrightarrow> draw s = (i, s') \<Longrightarrow> num i = ctr s"
    and draw_ctr: "ctr s < bound \<Longrightarrow> draw s = (i, s') \<Longrightarrow> ctr s' = Suc (ctr s)"
begin

fun draws :: "nat \<Rightarrow> 's \<Rightarrow> 'i list" where
  "draws 0 s = []"
| "draws (Suc n) s = fst (draw s) # draws n (snd (draw s))"

lemma draws_num: "ctr s + n \<le> bound \<Longrightarrow> map num (draws n s) = [ctr s..<ctr s + n]"
proof (induction n arbitrary: s)
  case (Suc n)
  then have "ctr s < bound" by simp
  moreover obtain i t where "draw s = (i, t)" by fastforce
  ultimately have "num i = ctr s" "ctr t = Suc (ctr s)" "draw s = (i, t)"
    using draw_num draw_ctr by blast+
  moreover have "[ctr s..<ctr s + Suc n] = ctr s # [Suc (ctr s)..<Suc (ctr s) + n]"
    by (subst upt_rec) simp
  ultimately show ?case using Suc by (simp del: upt_Suc)
qed simp

lemma draws_distinct: "ctr s + n \<le> bound \<Longrightarrow> distinct (draws n s)"
  using draws_num [of s n] distinct_map [of num "draws n s"] by simp

end

end
