(* ===== verification/Wire.thy ===== *)
theory Wire
  imports Prelude
begin

text \<open>
  Byte-level vocabulary of the network and file formats: integer encodings, the byte streams the
  protocol functions read from and write to, and the interface \<open>wire_format\<close> that every
  self-delimiting format of the program implements.
\<close>

section \<open>Integer encodings\<close>

text \<open>\<open>le_bytes n v\<close> are the \<open>n\<close> low bytes of \<open>v\<close>, least significant first
  (\<open>to_le_bytes\<close>); \<open>le_val\<close> is \<open>from_le_bytes\<close>. Big-endian is the reverse.\<close>

fun le_bytes :: "nat \<Rightarrow> nat \<Rightarrow> bytes" where
  "le_bytes 0 v = []"
| "le_bytes (Suc n) v = of_nat (v mod 256) # le_bytes n (v div 256)"

fun le_val :: "bytes \<Rightarrow> nat" where
  "le_val [] = 0"
| "le_val (b # bs) = unat b + 256 * le_val bs"

lemma length_le_bytes [simp]: "length (le_bytes n v) = n"
  by (induction n v rule: le_bytes.induct) auto

lemma le_bytes_numeral:
  "le_bytes (numeral k) v = of_nat (v mod 256) # le_bytes (pred_numeral k) (v div 256)"
  by (simp only: numeral_eq_Suc le_bytes.simps)

lemma le_val_le_bytes: "le_val (le_bytes n v) = v mod 256 ^ n"
proof (induction n v rule: le_bytes.induct)
  case (2 n v)
  have "v mod (256 * 256 ^ n) = 256 * (v div 256 mod 256 ^ n) + v mod 256"
    by (simp add: mod_mult2_eq)
  with 2 show ?case by simp
qed simp

lemma le_val_less: "le_val bs < 256 ^ length bs"
proof (induction bs)
  case (Cons b bs)
  have "unat b + 256 * le_val bs < 256 * (le_val bs + 1)" by simp
  also have "\<dots> \<le> 256 * 256 ^ length bs"
    using Cons by (intro mult_le_mono2) simp
  finally show ?case by simp
qed simp

lemma le_bytes_le_val: "le_bytes (length bs) (le_val bs) = bs"
  by (induction bs) auto

definition u16_to_le :: "u16 \<Rightarrow> bytes" where "u16_to_le w = le_bytes 2 (unat w)"
definition u32_to_le :: "u32 \<Rightarrow> bytes" where "u32_to_le w = le_bytes 4 (unat w)"
definition u64_to_le :: "u64 \<Rightarrow> bytes" where "u64_to_le w = le_bytes 8 (unat w)"
definition u16_from_le :: "bytes \<Rightarrow> u16" where "u16_from_le bs = of_nat (le_val bs)"
definition u32_from_le :: "bytes \<Rightarrow> u32" where "u32_from_le bs = of_nat (le_val bs)"
definition u64_from_le :: "bytes \<Rightarrow> u64" where "u64_from_le bs = of_nat (le_val bs)"

definition u16_to_be :: "u16 \<Rightarrow> bytes" where "u16_to_be w = rev (u16_to_le w)"
definition u32_to_be :: "u32 \<Rightarrow> bytes" where "u32_to_be w = rev (u32_to_le w)"
definition u64_to_be :: "u64 \<Rightarrow> bytes" where "u64_to_be w = rev (u64_to_le w)"
definition u16_from_be :: "bytes \<Rightarrow> u16" where "u16_from_be bs = u16_from_le (rev bs)"
definition u32_from_be :: "bytes \<Rightarrow> u32" where "u32_from_be bs = u32_from_le (rev bs)"
definition u64_from_be :: "bytes \<Rightarrow> u64" where "u64_from_be bs = u64_from_le (rev bs)"

lemma unat_u16_less: "unat (w :: u16) < 65536"
  using unsigned_less [of w, where 'a = nat] by simp

lemma unat_u32_less: "unat (w :: u32) < 4294967296"
  using unsigned_less [of w, where 'a = nat] by simp

lemma unat_u64_less: "unat (w :: u64) < 18446744073709551616"
  using unsigned_less [of w, where 'a = nat] by simp

lemma int_codec_lengths [simp]:
  "length (u16_to_le a) = 2" "length (u32_to_le b) = 4" "length (u64_to_le c) = 8"
  "length (u16_to_be a) = 2" "length (u32_to_be b) = 4" "length (u64_to_be c) = 8"
  by (simp_all add: u16_to_le_def u32_to_le_def u64_to_le_def u16_to_be_def u32_to_be_def u64_to_be_def)

lemma int_codec_le [simp]:
  "u16_from_le (u16_to_le a) = a" "u32_from_le (u32_to_le b) = b" "u64_from_le (u64_to_le c) = c"
  using unat_u16_less [of a] unat_u32_less [of b] unat_u64_less [of c]
  by (simp_all add: u16_from_le_def u16_to_le_def u32_from_le_def u32_to_le_def u64_from_le_def
      u64_to_le_def le_val_le_bytes del: le_bytes.simps)

lemma int_codec_be [simp]:
  "u16_from_be (u16_to_be a) = a" "u32_from_be (u32_to_be b) = b" "u64_from_be (u64_to_be c) = c"
  by (simp_all add: u16_from_be_def u16_to_be_def u32_from_be_def u32_to_be_def u64_from_be_def u64_to_be_def)

lemma le_val_bound: "length bs = n \<Longrightarrow> le_val bs < 256 ^ n"
  using le_val_less [of bs] by simp

lemma u64_to_from_le: "length bs = 8 \<Longrightarrow> u64_to_le (u64_from_le bs) = bs"
  using le_bytes_le_val [of bs] le_val_bound [of bs 8]
  by (simp add: u64_to_le_def u64_from_le_def unat_of_nat del: le_bytes.simps)

lemma u32_to_from_le: "length bs = 4 \<Longrightarrow> u32_to_le (u32_from_le bs) = bs"
  using le_bytes_le_val [of bs] le_val_bound [of bs 4]
  by (simp add: u32_to_le_def u32_from_le_def unat_of_nat del: le_bytes.simps)

lemma u16_to_from_le: "length bs = 2 \<Longrightarrow> u16_to_le (u16_from_le bs) = bs"
  using le_bytes_le_val [of bs] le_val_bound [of bs 2]
  by (simp add: u16_to_le_def u16_from_le_def unat_of_nat del: le_bytes.simps)

lemma u64_to_from_be: "length bs = 8 \<Longrightarrow> u64_to_be (u64_from_be bs) = bs"
  by (simp add: u64_to_be_def u64_from_be_def u64_to_from_le)

lemma u32_to_from_be: "length bs = 4 \<Longrightarrow> u32_to_be (u32_from_be bs) = bs"
  by (simp add: u32_to_be_def u32_from_be_def u32_to_from_le)

lemma u16_to_from_be: "length bs = 2 \<Longrightarrow> u16_to_be (u16_from_be bs) = bs"
  by (simp add: u16_to_be_def u16_from_be_def u16_to_from_le)

text \<open>\<open>len as u16\<close> and its kin: the length truncated to the width; exact when it fits.\<close>

lemma unat_len_u16: "n < 65536 \<Longrightarrow> unat (of_nat n :: u16) = n"
  by (simp add: unat_of_nat)

lemma unat_len_u32: "n < 4294967296 \<Longrightarrow> unat (of_nat n :: u32) = n"
  by (simp add: unat_of_nat)

lemma unat_len_u64: "n < 18446744073709551616 \<Longrightarrow> unat (of_nat n :: u64) = n"
  by (simp add: unat_of_nat)

section \<open>Streams\<close>

text \<open>
  An inbound stream is the list of bytes that will still arrive before the peer closes it. An
  outbound stream records the bytes handed to the transport; \<open>room\<close> is how many more bytes the
  transport accepts before it fails (\<open>None\<close>: it never fails).
\<close>

datatype io_error =
    Unexpected_Eof
  | Invalid_Data
  | Broken_Pipe
  | Timed_Out
  | Not_Found
  | Io_Other

definition read_exact :: "nat \<Rightarrow> bytes \<Rightarrow> io_error + (bytes \<times> bytes)" where
  "read_exact n s = (if length s < n then Inl Unexpected_Eof else Inr (take n s, drop n s))"

lemma read_exact_append [simp]: "length a = n \<Longrightarrow> read_exact n (a @ s) = Inr (a, s)"
  by (simp add: read_exact_def)

lemma read_exact_short [simp]: "length s < n \<Longrightarrow> read_exact n s = Inl Unexpected_Eof"
  by (simp add: read_exact_def)

lemma read_exact_0 [simp]: "read_exact 0 s = Inr ([], s)"
  by (simp add: read_exact_def)

lemma read_exact_eq_Inr: "read_exact n s = Inr (a, t) \<longleftrightarrow> s = a @ t \<and> length a = n"
  by (auto simp: read_exact_def)

lemma read_exact_Inl: "read_exact n s = Inl e \<longleftrightarrow> length s < n \<and> e = Unexpected_Eof"
  by (auto simp: read_exact_def)

record out_stream =
  sent :: bytes
  room :: "nat option"

definition write_all :: "bytes \<Rightarrow> out_stream \<Rightarrow> io_error + out_stream" where
  "write_all bs s =
     (case room s of
        None \<Rightarrow> Inr (s\<lparr>sent := sent s @ bs\<rparr>)
      | Some n \<Rightarrow>
          if length bs \<le> n then Inr (s\<lparr>sent := sent s @ bs, room := Some (n - length bs)\<rparr>)
          else Inl Broken_Pipe)"

definition flush_out :: "out_stream \<Rightarrow> io_error + out_stream" where
  "flush_out s = Inr s"

definition fresh_out :: out_stream where
  "fresh_out = \<lparr>sent = [], room = None\<rparr>"

definition emits :: "(out_stream \<Rightarrow> io_error + out_stream) \<Rightarrow> bytes \<Rightarrow> bool" where
  "emits w bs \<longleftrightarrow> (\<forall>s. w s = write_all bs s)"

lemma write_all_append [simp]:
  "rbind (write_all as s) (write_all bs) = write_all (as @ bs) s"
  by (auto simp: write_all_def split: option.splits)

lemma write_all_Nil [simp]: "write_all [] s = Inr s"
  by (auto simp: write_all_def split: option.splits)

lemma rbind_flush [simp]: "rbind (flush_out s) f = f s"
  by (simp add: flush_out_def)

lemma rbind_write_flush [simp]: "rbind (write_all bs s) flush_out = write_all bs s"
  by (cases "write_all bs s") (auto simp: flush_out_def)

lemma rbind_write_write [simp]:
  "rbind (write_all as s) (\<lambda>t. rbind (write_all bs t) f) = rbind (write_all (as @ bs) s) f"
  by (auto simp: write_all_def split: option.splits)

lemma write_all_fresh [simp]: "write_all bs fresh_out = Inr \<lparr>sent = bs, room = None\<rparr>"
  by (simp add: write_all_def fresh_out_def)

text \<open>
  One call of \<open>read\<close> with a buffer of \<open>want\<close> bytes returns some of the bytes that are left, at
  least one unless the stream is at its end. How many is not under the program's control:
  \<open>k\<close> is the number the transport would like to return.
\<close>

definition read_count :: "nat \<Rightarrow> nat \<Rightarrow> bytes \<Rightarrow> nat" where
  "read_count k want s = min (length s) (min want (max 1 k))"

lemma read_count_le: "read_count k want s \<le> length s" "read_count k want s \<le> want"
  by (simp_all add: read_count_def)

lemma read_count_0: "read_count k want s = 0 \<longleftrightarrow> s = [] \<or> want = 0"
  by (auto simp: read_count_def min_def)

lemma read_count_pos: "s \<noteq> [] \<Longrightarrow> 0 < want \<Longrightarrow> 0 < read_count k want s"
  using read_count_0 [of k want s] by auto

lemma read_count_progress [simp]:
  "s \<noteq> [] \<Longrightarrow> 0 < want \<Longrightarrow> length s - read_count k want s < length s"
  using read_count_pos [of s want k] by (cases s) auto

section \<open>Streaming readers\<close>

text \<open>
  A reader that takes its bytes from the stream one field at a time decides with what it has read:
  on a prefix of the input it either runs out of bytes or gives the result it gives on the whole
  input. The property composes along \<open>rbind\<close>, so it holds of every reader of the program by
  its structure.
\<close>

type_synonym 'a reader = "bytes \<Rightarrow> io_error + ('a \<times> bytes)"

definition streaming :: "'a reader \<Rightarrow> bool" where
  "streaming r \<longleftrightarrow>
     (\<forall>p q. (case r p of
               Inl e \<Rightarrow> e = Unexpected_Eof \<or> r (p @ q) = Inl e
             | Inr (a, t) \<Rightarrow> r (p @ q) = Inr (a, t @ q)))"

named_theorems streaming_intros \<open>readers that are streaming by their structure\<close>

lemma streaming_read_exact [streaming_intros]: "streaming (read_exact n)"
  by (auto simp: streaming_def read_exact_def)

lemma streaming_Inl [streaming_intros]: "streaming (\<lambda>s. Inl e)"
  by (simp add: streaming_def)

lemma streaming_Inr [streaming_intros]: "streaming (\<lambda>s. Inr (a, s))"
  by (simp add: streaming_def)

lemma streaming_if [streaming_intros]:
  "streaming r \<Longrightarrow> streaming r' \<Longrightarrow> streaming (\<lambda>s. if b then r s else r' s)"
  by (cases b) simp_all

lemma streaming_bind [streaming_intros]:
  assumes r: "streaming r" and f: "\<And>a. streaming (f a)"
  shows "streaming (\<lambda>s. rbind (r s) (\<lambda>(a, t). f a t))"
  unfolding streaming_def
proof (intro allI)
  fix p q
  show "case rbind (r p) (\<lambda>(a, t). f a t) of
          Inl e \<Rightarrow> e = Unexpected_Eof \<or> rbind (r (p @ q)) (\<lambda>(a, t). f a t) = Inl e
        | Inr (a, t) \<Rightarrow> rbind (r (p @ q)) (\<lambda>(a, t). f a t) = Inr (a, t @ q)"
  proof (cases "r p")
    case (Inl e)
    with r [unfolded streaming_def, rule_format, of p q] show ?thesis by auto
  next
    case (Inr x)
    obtain a t where x: "x = (a, t)" by (cases x)
    with Inr r [unfolded streaming_def, rule_format, of p q] have "r (p @ q) = Inr (a, t @ q)" by simp
    with Inr x f [of a, unfolded streaming_def, rule_format, of t q] show ?thesis
      by (auto split: sum.splits prod.splits)
  qed
qed

lemma streaming_pure [streaming_intros]:
  "(\<And>a. streaming (f a)) \<Longrightarrow> streaming (\<lambda>s. rbind r (\<lambda>a. f a s))"
  by (cases r) (auto intro: streaming_intros)

lemma streaming_cut:
  assumes "streaming r" "r w = Inr (a, [])" "strict_prefix p w"
  shows "r p = Inl Unexpected_Eof"
proof -
  from assms(3) obtain q where q: "w = p @ q" "q \<noteq> []" by (auto simp: strict_prefix_def prefix_def)
  from assms(1) have "case r p of Inl e \<Rightarrow> e = Unexpected_Eof \<or> r (p @ q) = Inl e
      | Inr (a, t) \<Rightarrow> r (p @ q) = Inr (a, t @ q)"
    unfolding streaming_def by blast
  with assms(2) q show ?thesis by (auto split: sum.splits prod.splits)
qed

section \<open>Self-delimiting formats\<close>

text \<open>
  What a receiver relies on: a valid message that arrives whole is decoded to itself and leaves
  the following bytes on the stream, and a message cut short by the peer is an error, never a
  different message. The client lemmas speak of whole conversations: a sequence of messages sent
  back to back is received as that sequence, and a conversation cut in the middle of a message
  yields the complete messages before the cut and then the error.
\<close>

fun recv_all :: "(bytes \<Rightarrow> io_error + ('a \<times> bytes)) \<Rightarrow> nat \<Rightarrow> bytes \<Rightarrow> 'a list \<times> (io_error + bytes)" where
  "recv_all dec 0 s = ([], Inr s)"
| "recv_all dec (Suc n) s =
     (case dec s of
        Inl e \<Rightarrow> ([], Inl e)
      | Inr (a, t) \<Rightarrow> (case recv_all dec n t of (as, r) \<Rightarrow> (a # as, r)))"

locale wire_format =
  fixes enc :: "'a \<Rightarrow> bytes"
    and dec :: "'a reader"
    and valid :: "'a \<Rightarrow> bool"
  assumes dec_enc: "valid a \<Longrightarrow> dec (enc a @ s) = Inr (a, s)"
    and streaming_dec: "streaming dec"
begin

lemma dec_enc_Nil: "valid a \<Longrightarrow> dec (enc a) = Inr (a, [])"
  using dec_enc [of a "[]"] by simp

lemma dec_cut: "valid a \<Longrightarrow> strict_prefix p (enc a) \<Longrightarrow> dec p = Inl Unexpected_Eof"
  using streaming_cut [OF streaming_dec dec_enc_Nil] .

lemma enc_inject:
  assumes "valid a" "valid b" "enc a @ s = enc b @ t"
  shows "a = b \<and> s = t"
proof -
  have "Inr (a, s) = dec (enc b @ t)"
    unfolding assms(3) [symmetric] by (rule dec_enc [OF assms(1), symmetric])
  then show ?thesis unfolding dec_enc [OF assms(2)] by simp
qed

lemma recv_conversation:
  "list_all valid as \<Longrightarrow> recv_all dec (length as) (concat (map enc as) @ s) = (as, Inr s)"
  by (induction "as") (auto simp: dec_enc)

lemma recv_cut_conversation:
  assumes "list_all valid as" "valid a" "strict_prefix p (enc a)"
  shows "recv_all dec (Suc (length as)) (concat (map enc as) @ p) = (as, Inl Unexpected_Eof)"
  using assms(1) by (induction "as") (auto simp: dec_enc dec_cut [OF assms(2,3)])

end

text \<open>A format with its sending side: the function the sender calls writes the encoding.\<close>

fun send_all :: "('a \<Rightarrow> out_stream \<Rightarrow> io_error + out_stream) \<Rightarrow> 'a list \<Rightarrow> out_stream \<Rightarrow> io_error + out_stream" where
  "send_all w [] s = Inr s"
| "send_all w (x # xs) s = rbind (w x s) (send_all w xs)"

locale wire_channel = wire_format +
  fixes put :: "'a \<Rightarrow> out_stream \<Rightarrow> io_error + out_stream"
  assumes put_enc: "put a s = write_all (enc a) s"
begin

lemma send_all_write: "send_all put as s = write_all (concat (map enc as)) s"
proof (induction "as" arbitrary: s)
  case (Cons a "as")
  then have "send_all put as = write_all (concat (map enc as))" by auto
  then show ?case by (simp add: put_enc [of a s])
qed simp

lemma send_recv:
  assumes "list_all valid as"
  shows "\<exists>t. send_all put as fresh_out = Inr t \<and> recv_all dec (length as) (sent t @ s) = (as, Inr s)"
  by (simp add: send_all_write recv_conversation [OF assms])

lemma send_cut_recv:
  assumes "list_all valid as" "valid a" "strict_prefix p (enc a)"
  shows "\<exists>t. send_all put as fresh_out = Inr t \<and>
             recv_all dec (Suc (length as)) (sent t @ p) = (as, Inl Unexpected_Eof)"
  by (simp add: send_all_write recv_cut_conversation [OF assms] del: recv_all.simps)

end

end
