(* ===== verification/Codec.thy ===== *)
theory Codec
  imports Wire
begin

text \<open>
  The request-response protocol: type-length-value frames
  (\<open>Src/Network/Request_Response/codec.rs\<close>). The network layer moves bytes; \<open>Read_Frame\<close>
  and \<open>Write_Frame\<close> are shared by requests and responses.
\<close>

section \<open>Frames\<close>

datatype DataType = DT_Command | DT_Data | DT_File | DT_Info

definition MAX_FRAME_SIZE :: u64 where
  "MAX_FRAME_SIZE = 2 * 1024 * 1024 * 1024"

fun data_type_as_u8 :: "DataType \<Rightarrow> u8" where
  "data_type_as_u8 DT_Command = 0"
| "data_type_as_u8 DT_Data = 1"
| "data_type_as_u8 DT_File = 2"
| "data_type_as_u8 DT_Info = 4"

definition From_U8 :: "u8 \<Rightarrow> io_error + DataType" where
  "From_U8 v =
     (if v = 0 then Inr DT_Command
      else if v = 1 then Inr DT_Data
      else if v = 2 then Inr DT_File
      else if v = 4 then Inr DT_Info
      else Inl Invalid_Data)"

record Network_Data =
  data_type :: DataType
  payload :: bytes

definition Read_Frame :: "bytes \<Rightarrow> io_error + (Network_Data \<times> bytes)" where
  "Read_Frame io =
     rbind (read_exact 1 io) (\<lambda>(type_byte, io).
     rbind (From_U8 (type_byte ! 0)) (\<lambda>dt.
     rbind (read_exact 8 io) (\<lambda>(len_bytes, io).
       let len = u64_from_be len_bytes in
       if len > MAX_FRAME_SIZE then Inl Invalid_Data
       else rbind (read_exact (unat len) io) (\<lambda>(pl, io).
         Inr (\<lparr>data_type = dt, payload = pl\<rparr>, io)))))"

definition Write_Frame :: "Network_Data \<Rightarrow> out_stream \<Rightarrow> io_error + out_stream" where
  "Write_Frame d io =
     rbind (write_all [data_type_as_u8 (data_type d)] io) (\<lambda>io.
     let len = of_nat (length (payload d)) :: u64 in
     rbind (write_all (u64_to_be len) io) (\<lambda>io.
     rbind (write_all (payload d) io) (\<lambda>io.
     flush_out io)))"

text \<open>The \<open>Codec\<close> trait: requests and responses are the same frames.\<close>

definition read_request :: "bytes \<Rightarrow> io_error + (Network_Data \<times> bytes)" where
  "read_request = Read_Frame"

definition read_response :: "bytes \<Rightarrow> io_error + (Network_Data \<times> bytes)" where
  "read_response = Read_Frame"

definition write_request :: "Network_Data \<Rightarrow> out_stream \<Rightarrow> io_error + out_stream" where
  "write_request req io = Write_Frame req io"

definition write_response :: "Network_Data \<Rightarrow> out_stream \<Rightarrow> io_error + out_stream" where
  "write_response res io = Write_Frame res io"

section \<open>The frames implement the wire interface\<close>

definition frame_bytes :: "Network_Data \<Rightarrow> bytes" where
  "frame_bytes d =
     data_type_as_u8 (data_type d) # u64_to_be (of_nat (length (payload d))) @ payload d"

definition frame_ok :: "Network_Data \<Rightarrow> bool" where
  "frame_ok d \<longleftrightarrow> length (payload d) \<le> 2147483648"

lemma From_U8_as_u8 [simp]: "From_U8 (data_type_as_u8 t) = Inr t"
  by (cases t) (simp_all add: From_U8_def)

lemma From_U8_Inr: "From_U8 v = Inr t \<longleftrightarrow> v = data_type_as_u8 t"
  by (cases t) (auto simp: From_U8_def split: if_splits)

lemma From_U8_error: "From_U8 v = Inl e \<longleftrightarrow> v \<notin> {0, 1, 2, 4} \<and> e = Invalid_Data"
  by (auto simp: From_U8_def split: if_splits)

lemma frame_len_le: "(len :: u64) \<le> MAX_FRAME_SIZE \<longleftrightarrow> unat len \<le> 2147483648"
  by (simp add: MAX_FRAME_SIZE_def word_le_nat_alt)

lemma frame_ok_len:
  assumes "frame_ok d"
  shows "unat (of_nat (length (payload d)) :: u64) = length (payload d)"
  using assms by (intro unat_len_u64) (simp add: frame_ok_def)

lemma Write_Frame_eq: "Write_Frame d io = write_all (frame_bytes d) io"
  by (simp add: Write_Frame_def frame_bytes_def Let_def)

lemma Read_Frame_frame: "frame_ok d \<Longrightarrow> Read_Frame (frame_bytes d @ s) = Inr (d, s)"
  by (simp add: Read_Frame_def frame_bytes_def Let_def frame_len_le frame_ok_len linorder_not_less
      read_exact_def frame_ok_def)

lemma streaming_Read_Frame: "streaming Read_Frame"
  unfolding Read_Frame_def Let_def by (intro streaming_intros)

interpretation frame: wire_channel frame_bytes Read_Frame frame_ok Write_Frame
  by unfold_locales (simp_all add: Read_Frame_frame streaming_Read_Frame Write_Frame_eq)

lemma Read_Frame_inv:
  assumes "Read_Frame s = Inr (d, t)"
  shows "frame_ok d \<and> s = frame_bytes d @ t"
proof -
  from assms obtain ty s1 lb s2 where
    ty: "read_exact 1 s = Inr (ty, s1)" "From_U8 (ty ! 0) = Inr (data_type d)"
    and lb: "read_exact 8 s1 = Inr (lb, s2)" "\<not> u64_from_be lb > MAX_FRAME_SIZE"
    and pl: "read_exact (unat (u64_from_be lb)) s2 = Inr (payload d, t)"
    by (auto simp: Read_Frame_def Let_def rbind_eq_Inr split: if_splits)
  from ty have "s = data_type_as_u8 (data_type d) # s1"
    by (auto simp: read_exact_eq_Inr From_U8_Inr length_Suc_conv)
  moreover from lb have "s1 = lb @ s2" "length lb = 8" by (auto simp: read_exact_eq_Inr)
  moreover from pl have "s2 = payload d @ t" and len: "length (payload d) = unat (u64_from_be lb)"
    by (auto simp: read_exact_eq_Inr)
  moreover have "u64_to_be (u64_from_be lb) = lb"
    using \<open>length lb = 8\<close> by (rule u64_to_from_be)
  ultimately show ?thesis
    using lb(2) by (simp add: frame_bytes_def frame_ok_def frame_len_le linorder_not_less)
qed

section \<open>Properties\<close>

text \<open>C19: Frames written back to back with \<open>Write_Frame\<close>, each payload at most 2 GB, are read by
  \<open>Read_Frame\<close> as exactly that sequence of frames, with no byte left over.\<close>

theorem frame_conversation:
  assumes "list_all frame_ok fs"
  shows "\<exists>out. send_all Write_Frame fs fresh_out = Inr out \<and>
               recv_all Read_Frame (length fs) (sent out) = (fs, Inr [])"
  using frame.send_recv [OF assms, of "[]"] by simp

theorem frame_conversation_witness:
  "\<exists>out. send_all Write_Frame [\<lparr>data_type = DT_Info, payload = [7, 8]\<rparr>] fresh_out = Inr out \<and>
         recv_all Read_Frame (length [\<lparr>data_type = DT_Info, payload = [7, 8]\<rparr>]) (sent out)
           = ([\<lparr>data_type = DT_Info, payload = [7, 8]\<rparr>], Inr [])"
  by (rule frame_conversation) (simp add: frame_ok_def)

text \<open>\<open>Read_Frame\<close> accepts exactly what \<open>Write_Frame\<close> writes for payloads within the limit: it
  returns \<open>d\<close> and the rest \<open>t\<close> if and only if the input is the frame of \<open>d\<close> followed by \<open>t\<close>.\<close>

theorem Read_Frame_exact:
  "Read_Frame s = Inr (d, t) \<longleftrightarrow>
     frame_ok d \<and> (\<exists>out. Write_Frame d fresh_out = Inr out \<and> s = sent out @ t)"
  using Read_Frame_inv [of s d t] Read_Frame_frame [of d t] by (auto simp: Write_Frame_eq)

text \<open>A connection that breaks in the middle of a frame gives the receiver all frames before the
  break and then an end-of-file error, never a wrong frame.\<close>

theorem frame_cut_safe:
  assumes "list_all frame_ok fs" "frame_ok d" "Write_Frame d fresh_out = Inr out1"
    and "strict_prefix p (sent out1)"
  shows "\<exists>out. send_all Write_Frame fs fresh_out = Inr out \<and>
               recv_all Read_Frame (Suc (length fs)) (sent out @ p) = (fs, Inl Unexpected_Eof)"
proof -
  from assms(3) have "sent out1 = frame_bytes d" by (auto simp: Write_Frame_eq)
  with assms show ?thesis using frame.send_cut_recv [of fs d p] by simp
qed

theorem frame_cut_safe_witness:
  "\<exists>out. send_all Write_Frame [] fresh_out = Inr out \<and>
         recv_all Read_Frame (Suc (length ([] :: Network_Data list))) (sent out @ [4, 0])
           = ([], Inl Unexpected_Eof)"
proof (rule frame_cut_safe)
  let ?d = "\<lparr>data_type = DT_Info, payload = [7]\<rparr>"
  show "Write_Frame ?d fresh_out = Inr \<lparr>sent = frame_bytes ?d, room = None\<rparr>"
    by (simp add: Write_Frame_eq)
  show "strict_prefix [4, 0] (sent \<lparr>sent = frame_bytes ?d, room = None\<rparr>)"
    by (simp add: frame_bytes_def u64_to_be_def u64_to_le_def le_bytes_numeral)
qed (simp_all add: frame_ok_def)

end
