(* ===== verification/Tensor_Protocol.thy ===== *)
theory Tensor_Protocol
  imports Wire
begin

text \<open>
  The tensor stream: length-prefixed tensor frames, the reusable receive buffer, the end-of-session
  sentinel and the handshake (\<open>Src/Network/Tensor_Stream/protocol.rs\<close>), and the copies of the frame
  functions for in-process streams (\<open>Src/Orchestrator/local_tensor_stream/frames.rs\<close>).
\<close>

section \<open>The receive buffer\<close>

record Tensor_Buffer =
  tbuf :: bytes
  valid_len :: nat

definition Tensor_Buffer_New :: "nat \<Rightarrow> Tensor_Buffer" where
  "Tensor_Buffer_New capacity = \<lparr>tbuf = [], valid_len = 0\<rparr>"

definition vec_resize :: "nat \<Rightarrow> bytes \<Rightarrow> bytes" where
  "vec_resize n xs = take n xs @ replicate (n - length xs) 0"

lemma length_vec_resize [simp]: "length (vec_resize n xs) = n"
  by (simp add: vec_resize_def)

text \<open>\<open>As_Mut_Slice\<close> resizes the buffer; the slice it lends out is the whole buffer.\<close>

definition As_Mut_Slice :: "nat \<Rightarrow> Tensor_Buffer \<Rightarrow> Tensor_Buffer" where
  "As_Mut_Slice len b = b\<lparr>tbuf := vec_resize len (tbuf b), valid_len := len\<rparr>"

text \<open>\<open>As_Slice\<close> panics when the valid length exceeds the buffer (\<open>None\<close>).\<close>

definition As_Slice :: "Tensor_Buffer \<Rightarrow> bytes option" where
  "As_Slice b = (if valid_len b \<le> length (tbuf b) then Some (take (valid_len b) (tbuf b)) else None)"

definition Buffer_Len :: "Tensor_Buffer \<Rightarrow> nat" where
  "Buffer_Len b = valid_len b"

definition Is_Empty :: "Tensor_Buffer \<Rightarrow> bool" where
  "Is_Empty b \<longleftrightarrow> valid_len b = 0"

definition Buffer_Clear :: "Tensor_Buffer \<Rightarrow> Tensor_Buffer" where
  "Buffer_Clear b = b\<lparr>valid_len := 0\<rparr>"

section \<open>Frames\<close>

definition TENSOR_EOF_OFFSET :: u64 where
  "TENSOR_EOF_OFFSET = 18446744073709551615"

definition MAX_TENSOR_SIZE :: u64 where
  "MAX_TENSOR_SIZE = 512 * 1024 * 1024"

definition Send_Tensor_Frame :: "u64 \<Rightarrow> bytes \<Rightarrow> out_stream \<Rightarrow> io_error + out_stream" where
  "Send_Tensor_Frame offset data stream =
     (let header = u64_to_le offset @ u64_to_le (of_nat (length data)) in
      rbind (write_all header stream) (\<lambda>stream.
      rbind (write_all data stream) (\<lambda>stream.
      flush_out stream)))"

text \<open>
  \<open>read_into\<close> is \<open>read_exact\<close> into a slice of the buffer: it overwrites as many bytes as arrive,
  also when the stream ends early.
\<close>

definition read_into :: "Tensor_Buffer \<Rightarrow> bytes \<Rightarrow> (io_error + unit) \<times> Tensor_Buffer \<times> bytes" where
  "read_into b s =
     (let n = length (tbuf b) in
      if length s < n
      then (Inl Unexpected_Eof, b\<lparr>tbuf := s @ drop (length s) (tbuf b)\<rparr>, [])
      else (Inr (), b\<lparr>tbuf := take n s\<rparr>, drop n s))"

text \<open>
  The receive functions return the result, the buffer they have changed (also on errors) and the
  rest of the stream.
\<close>

definition Receive_Tensor_Frame ::
  "bytes \<Rightarrow> Tensor_Buffer \<Rightarrow> (io_error + u64) \<times> Tensor_Buffer \<times> bytes" where
  "Receive_Tensor_Frame stream buffer =
     (case read_exact 16 stream of
        Inl e \<Rightarrow> (Inl e, buffer, [])
      | Inr (header, stream) \<Rightarrow>
          let offset = u64_from_le (take 8 header);
              len = u64_from_le (drop 8 header) in
          if offset = TENSOR_EOF_OFFSET \<and> len = 0
          then (Inr TENSOR_EOF_OFFSET, Buffer_Clear buffer, stream)
          else if len > MAX_TENSOR_SIZE then (Inl Invalid_Data, buffer, stream)
          else (case read_into (As_Mut_Slice (unat len) buffer) stream of
                  (Inl e, b, s) \<Rightarrow> (Inl e, b, s)
                | (Inr _, b, s) \<Rightarrow> (Inr offset, b, s)))"

definition Send_EOF :: "out_stream \<Rightarrow> io_error + out_stream" where
  "Send_EOF stream =
     rbind (write_all (u64_to_le TENSOR_EOF_OFFSET) stream) (\<lambda>stream.
     rbind (write_all (u64_to_le 0) stream) (\<lambda>stream.
     flush_out stream))"

definition Write_Tensor_Stream_Handshake :: "u64 \<Rightarrow> out_stream \<Rightarrow> io_error + out_stream" where
  "Write_Tensor_Stream_Handshake inference_id stream =
     rbind (write_all (u64_to_le inference_id) stream) flush_out"

definition Read_Tensor_Stream_Handshake :: "u64 reader" where
  "Read_Tensor_Stream_Handshake stream =
     rbind (read_exact 8 stream) (\<lambda>(buf, stream). Inr (u64_from_le buf, stream))"

section \<open>In-process frames\<close>

definition local_send_frame :: "u64 \<Rightarrow> bytes \<Rightarrow> out_stream \<Rightarrow> io_error + out_stream" where
  "local_send_frame offset data stream =
     (let header = u64_to_le offset @ u64_to_le (of_nat (length data)) in
      rbind (write_all header stream) (\<lambda>stream.
      rbind (write_all data stream) (\<lambda>stream.
      flush_out stream)))"

definition local_recv_frame ::
  "bytes \<Rightarrow> Tensor_Buffer \<Rightarrow> (io_error + u64) \<times> Tensor_Buffer \<times> bytes" where
  "local_recv_frame stream buffer =
     (case read_exact 16 stream of
        Inl e \<Rightarrow> (Inl e, buffer, [])
      | Inr (header, stream) \<Rightarrow>
          let offset = u64_from_le (take 8 header);
              len = u64_from_le (drop 8 header) in
          if offset = TENSOR_EOF_OFFSET \<and> len = 0
          then (Inr TENSOR_EOF_OFFSET, Buffer_Clear buffer, stream)
          else (case read_into (As_Mut_Slice (unat len) buffer) stream of
                  (Inl e, b, s) \<Rightarrow> (Inl e, b, s)
                | (Inr _, b, s) \<Rightarrow> (Inr offset, b, s)))"

definition local_send_eof :: "out_stream \<Rightarrow> io_error + out_stream" where
  "local_send_eof stream =
     rbind (write_all (u64_to_le TENSOR_EOF_OFFSET) stream) (\<lambda>stream.
     rbind (write_all (u64_to_le 0) stream) (\<lambda>stream.
     flush_out stream))"

section \<open>Buffer lemmas\<close>

definition buffer_ok :: "Tensor_Buffer \<Rightarrow> bool" where
  "buffer_ok b \<longleftrightarrow> valid_len b \<le> length (tbuf b)"

lemma buffer_ok_New [simp]: "buffer_ok (Tensor_Buffer_New c)"
  by (simp add: buffer_ok_def Tensor_Buffer_New_def)

lemma buffer_ok_Clear [simp]: "buffer_ok (Buffer_Clear b)"
  by (simp add: buffer_ok_def Buffer_Clear_def)

lemma buffer_ok_As_Mut_Slice [simp]: "buffer_ok (As_Mut_Slice n b)"
  by (simp add: buffer_ok_def As_Mut_Slice_def)

lemma read_into_buffer_ok:
  "buffer_ok b \<Longrightarrow> read_into b s = (r, b', s') \<Longrightarrow> buffer_ok b'"
  by (auto simp: read_into_def buffer_ok_def Let_def split: if_splits)

lemma As_Slice_ok: "buffer_ok b \<Longrightarrow> \<exists>d. As_Slice b = Some d \<and> length d = Buffer_Len b"
  by (simp add: As_Slice_def buffer_ok_def Buffer_Len_def)

lemma Receive_buffer_ok:
  assumes "buffer_ok b"
  shows "buffer_ok (fst (snd (Receive_Tensor_Frame s b)))"
    and "buffer_ok (fst (snd (local_recv_frame s b)))"
  using assms read_into_buffer_ok [OF buffer_ok_As_Mut_Slice]
  by (auto simp: Receive_Tensor_Frame_def local_recv_frame_def Let_def
      split: sum.splits prod.splits unit.splits)

lemma As_Slice_Clear [simp]: "As_Slice (Buffer_Clear b) = Some []"
  by (simp add: As_Slice_def Buffer_Clear_def)

lemma read_into_As_Mut_Slice:
  "length d = n \<Longrightarrow> read_into (As_Mut_Slice n b) (d @ s) = (Inr (), b\<lparr>tbuf := d, valid_len := n\<rparr>, s)"
  by (simp add: read_into_def As_Mut_Slice_def)

lemma As_Slice_full [simp]: "As_Slice (b\<lparr>tbuf := d, valid_len := length d\<rparr>) = Some d"
  by (simp add: As_Slice_def)

section \<open>What the caller of the receive functions sees\<close>

text \<open>
  The specification: a pure reader of offset and data, with an optional size limit. The receive
  functions work on a buffer that is reused from frame to frame; \<open>frame_view\<close> is what the caller
  reads from the buffer afterwards, \<open>recv_session\<close> the receive loop with one buffer.
\<close>

definition tensor_reader :: "u64 option \<Rightarrow> (u64 \<times> bytes) reader" where
  "tensor_reader limit s =
     rbind (read_exact 16 s) (\<lambda>(header, s).
       let offset = u64_from_le (take 8 header); len = u64_from_le (drop 8 header) in
       if offset = TENSOR_EOF_OFFSET \<and> len = 0 then Inr ((TENSOR_EOF_OFFSET, []), s)
       else if (case limit of None \<Rightarrow> False | Some m \<Rightarrow> len > m) then Inl Invalid_Data
       else rbind (read_exact (unat len) s) (\<lambda>(d, s). Inr ((offset, d), s)))"

type_synonym receiver = "bytes \<Rightarrow> Tensor_Buffer \<Rightarrow> (io_error + u64) \<times> Tensor_Buffer \<times> bytes"

definition frame_view :: "receiver \<Rightarrow> Tensor_Buffer \<Rightarrow> (u64 \<times> bytes) reader" where
  "frame_view rf b s =
     (case rf s b of
        (Inl e, _, _) \<Rightarrow> Inl e
      | (Inr off, b', s') \<Rightarrow> (case As_Slice b' of None \<Rightarrow> Inl Io_Other | Some d \<Rightarrow> Inr ((off, d), s')))"

fun recv_session :: "receiver \<Rightarrow> nat \<Rightarrow> bytes \<Rightarrow> Tensor_Buffer \<Rightarrow> (u64 \<times> bytes) list \<times> (io_error + bytes)" where
  "recv_session rf 0 s b = ([], Inr s)"
| "recv_session rf (Suc n) s b =
     (case frame_view rf b s of
        Inl e \<Rightarrow> ([], Inl e)
      | Inr (m, t) \<Rightarrow>
          (case recv_session rf n t (fst (snd (rf s b))) of (ms, r) \<Rightarrow> (m # ms, r)))"

lemma read_into_view:
  "read_into (As_Mut_Slice n b) s =
     (if length s < n then (Inl Unexpected_Eof, b\<lparr>tbuf := s @ drop (length s) (vec_resize n (tbuf b)), valid_len := n\<rparr>, [])
      else (Inr (), b\<lparr>tbuf := take n s, valid_len := n\<rparr>, drop n s))"
  by (simp add: read_into_def As_Mut_Slice_def)

lemma view_read_into:
  "(case (case read_into (As_Mut_Slice n b) s of
            (Inl e, b, s) \<Rightarrow> (Inl e, b, s) | (Inr _, b, s) \<Rightarrow> (Inr off, b, s)) of
      (Inl e, _, _) \<Rightarrow> Inl e
    | (Inr off, b', s') \<Rightarrow> (case As_Slice b' of None \<Rightarrow> Inl Io_Other | Some d \<Rightarrow> Inr ((off, d), s')))
   = rbind (read_exact n s) (\<lambda>(d, s). Inr ((off, d), s))"
  by (simp add: read_into_view read_exact_def As_Slice_def)

lemma frame_view_Receive: "frame_view Receive_Tensor_Frame b = tensor_reader (Some MAX_TENSOR_SIZE)"
proof (rule ext)
  fix s
  show "frame_view Receive_Tensor_Frame b s = tensor_reader (Some MAX_TENSOR_SIZE) s"
    by (cases "read_exact 16 s")
      (auto simp: frame_view_def Receive_Tensor_Frame_def tensor_reader_def Let_def view_read_into)
qed

lemma frame_view_local: "frame_view local_recv_frame b = tensor_reader None"
proof (rule ext)
  fix s
  show "frame_view local_recv_frame b s = tensor_reader None s"
    by (cases "read_exact 16 s")
      (auto simp: frame_view_def local_recv_frame_def tensor_reader_def Let_def view_read_into)
qed

lemma recv_session_recv_all:
  assumes "\<And>b. frame_view rf b = rd"
  shows "recv_session rf n s b = recv_all rd n s"
  by (induction n arbitrary: s b) (auto simp: assms split: sum.splits prod.splits)

lemma streaming_tensor_reader: "streaming (tensor_reader limit)"
  unfolding tensor_reader_def Let_def by (intro streaming_intros)

definition tensor_frame :: "u64 \<times> bytes \<Rightarrow> bytes" where
  "tensor_frame m = u64_to_le (fst m) @ u64_to_le (of_nat (length (snd m))) @ snd m"

definition tensor_ok :: "u64 \<times> bytes \<Rightarrow> bool" where
  "tensor_ok m \<longleftrightarrow> length (snd m) \<le> 536870912"

definition local_ok :: "u64 \<times> bytes \<Rightarrow> bool" where
  "local_ok m \<longleftrightarrow> length (snd m) < 18446744073709551616"

lemma tensor_reader_frame:
  assumes "local_ok m" "\<forall>l. limit = Some l \<longrightarrow> length (snd m) \<le> unat l"
  shows "tensor_reader limit (tensor_frame m @ s) = Inr (m, s)"
proof -
  let ?n = "of_nat (length (snd m)) :: u64"
  let ?h = "u64_to_le (fst m) @ u64_to_le ?n"
  have h: "read_exact 16 (tensor_frame m @ s) = Inr (?h, snd m @ s)"
    using read_exact_append [of ?h 16 "snd m @ s"] by (simp add: tensor_frame_def)
  have n: "unat ?n = length (snd m)"
    using assms(1) by (simp add: local_ok_def unat_len_u64)
  have "snd m = []" if "?n = 0"
    using n that by (metis length_0_conv unat_0)
  moreover have "\<not> l < ?n" if "limit = Some l" for l
    using assms(2) that n by (simp add: word_less_nat_alt linorder_not_less)
  ultimately show ?thesis
    using n unfolding tensor_reader_def h by (cases m) (auto simp: Let_def split: option.splits)
qed

lemma tensor_ok_local: "tensor_ok m \<Longrightarrow> local_ok m"
  by (simp add: tensor_ok_def local_ok_def)

lemma Send_Tensor_Frame_eq: "Send_Tensor_Frame o' d s = write_all (tensor_frame (o', d)) s"
  by (simp add: Send_Tensor_Frame_def tensor_frame_def Let_def)

lemma local_send_frame_eq: "local_send_frame o' d s = write_all (tensor_frame (o', d)) s"
  by (simp add: local_send_frame_def tensor_frame_def Let_def)

lemma Send_EOF_eq: "Send_EOF s = write_all (tensor_frame (TENSOR_EOF_OFFSET, [])) s"
  by (simp add: Send_EOF_def tensor_frame_def)

lemma local_send_eof_eq: "local_send_eof s = write_all (tensor_frame (TENSOR_EOF_OFFSET, [])) s"
  by (simp add: local_send_eof_def tensor_frame_def)

interpretation tensor: wire_channel tensor_frame "tensor_reader (Some MAX_TENSOR_SIZE)" tensor_ok
    "\<lambda>(off, d). Send_Tensor_Frame off d"
  by unfold_locales
    (auto simp: tensor_reader_frame tensor_ok_local tensor_ok_def MAX_TENSOR_SIZE_def
      streaming_tensor_reader Send_Tensor_Frame_eq)

interpretation local_tensor: wire_channel tensor_frame "tensor_reader None" local_ok
    "\<lambda>(off, d). local_send_frame off d"
  by unfold_locales (auto simp: tensor_reader_frame streaming_tensor_reader local_send_frame_eq)

lemma tensor_session_bytes:
  "rbind (send_all (\<lambda>(off, d). Send_Tensor_Frame off d) ms fresh_out) Send_EOF
     = Inr \<lparr>sent = concat (map tensor_frame (ms @ [(TENSOR_EOF_OFFSET, [])])), room = None\<rparr>"
  unfolding tensor.send_all_write write_all_fresh by (simp add: Send_EOF_eq write_all_def)

section \<open>Handshake\<close>

lemma streaming_Read_Tensor_Stream_Handshake: "streaming Read_Tensor_Stream_Handshake"
  unfolding Read_Tensor_Stream_Handshake_def by (intro streaming_intros)

interpretation handshake: wire_channel u64_to_le Read_Tensor_Stream_Handshake "\<lambda>_. True"
    Write_Tensor_Stream_Handshake
  by unfold_locales
    (simp_all add: Read_Tensor_Stream_Handshake_def Write_Tensor_Stream_Handshake_def
      streaming_Read_Tensor_Stream_Handshake)

section \<open>Properties\<close>

text \<open>C20: A pipeline session over a tensor stream: tensors of at most 512 MB sent with
  \<open>Send_Tensor_Frame\<close> and closed with \<open>Send_EOF\<close> are received, through one buffer reused for
  every frame and holding arbitrary old content at the start, as exactly those offsets and data
  followed by the end-of-session marker with an empty buffer.\<close>

theorem tensor_session_roundtrip:
  assumes "list_all tensor_ok ms"
  shows "\<exists>out. rbind (send_all (\<lambda>(off, d). Send_Tensor_Frame off d) ms fresh_out) Send_EOF = Inr out \<and>
               recv_session Receive_Tensor_Frame (length ms + 1) (sent out) b
                 = (ms @ [(TENSOR_EOF_OFFSET, [])], Inr [])"
  using tensor.recv_conversation [of "ms @ [(TENSOR_EOF_OFFSET, [])]" "[]"] assms
  by (simp add: tensor_session_bytes recv_session_recv_all [OF frame_view_Receive] tensor_ok_def
      del: recv_all.simps recv_session.simps)

theorem tensor_session_roundtrip_witness:
  "\<exists>out. rbind (send_all (\<lambda>(off, d). Send_Tensor_Frame off d) [(5, [1, 2])] fresh_out) Send_EOF = Inr out \<and>
         recv_session Receive_Tensor_Frame (length [(5 :: u64, [1, 2 :: u8])] + 1) (sent out)
             \<lparr>tbuf = [9, 9, 9], valid_len = 3\<rparr>
           = ([(5, [1, 2])] @ [(TENSOR_EOF_OFFSET, [])], Inr [])"
  by (rule tensor_session_roundtrip) (simp add: tensor_ok_def)

text \<open>C21: Whatever the reused buffer held before, the caller of \<open>Receive_Tensor_Frame\<close> sees exactly
  what the buffer-free reader with the 512 MB limit gives on the same stream, and the caller of
  \<open>local_recv_frame\<close> what the reader without a limit gives: no stale byte is ever exposed.\<close>

theorem receive_refines_reader:
  "frame_view Receive_Tensor_Frame b s = tensor_reader (Some MAX_TENSOR_SIZE) s \<and>
   frame_view local_recv_frame b s = tensor_reader None s"
  by (simp add: frame_view_Receive frame_view_local)

text \<open>C33: The receive functions keep the buffer safe on every path, errors included: reading the
  valid slice afterwards never runs past the buffer.\<close>

theorem receive_buffer_never_panics:
  assumes "valid_len b \<le> length (tbuf b)"
  shows "As_Slice (fst (snd (Receive_Tensor_Frame s b))) \<noteq> None \<and>
         As_Slice (fst (snd (local_recv_frame s b))) \<noteq> None"
proof -
  from assms have "buffer_ok b" by (simp add: buffer_ok_def)
  from Receive_buffer_ok [OF this, of s] show ?thesis
    using As_Slice_ok by fastforce
qed

theorem receive_buffer_never_panics_witness:
  "As_Slice (fst (snd (Receive_Tensor_Frame [1, 2] \<lparr>tbuf = [7], valid_len = 1\<rparr>))) \<noteq> None \<and>
   As_Slice (fst (snd (local_recv_frame [1, 2] \<lparr>tbuf = [7], valid_len = 1\<rparr>))) \<noteq> None"
  by (rule receive_buffer_never_panics) simp

text \<open>An oversized length field (above 512 MB, and not the end marker) makes
  \<open>Receive_Tensor_Frame\<close> fail before it reads any payload byte or touches the buffer.\<close>

theorem receive_rejects_oversized:
  assumes "len > MAX_TENSOR_SIZE"
  shows "Receive_Tensor_Frame (u64_to_le off @ u64_to_le len @ rest) b = (Inl Invalid_Data, b, rest)"
proof -
  have "len \<noteq> 0" using assms by (auto simp: MAX_TENSOR_SIZE_def)
  moreover have "read_exact 16 (u64_to_le off @ u64_to_le len @ rest) = Inr (u64_to_le off @ u64_to_le len, rest)"
    using read_exact_append [of "u64_to_le off @ u64_to_le len" 16 rest] by simp
  ultimately show ?thesis using assms by (simp add: Receive_Tensor_Frame_def Let_def)
qed

theorem receive_rejects_oversized_witness:
  "Receive_Tensor_Frame (u64_to_le 0 @ u64_to_le 536870913 @ [1, 2, 3]) \<lparr>tbuf = [], valid_len = 0\<rparr>
     = (Inl Invalid_Data, \<lparr>tbuf = [], valid_len = 0\<rparr>, [1, 2, 3])"
  by (rule receive_rejects_oversized) (simp add: MAX_TENSOR_SIZE_def)

end
