(* ===== verification/File_Protocol.thy ===== *)
theory File_Protocol
  imports Wire
begin

text \<open>
  The file stream protocol (\<open>Src/Network/File_Stream/protocol.rs\<close>): the in-band header with name,
  size and checksum, the one-byte acknowledgement, and the two chunked transfer loops with their
  progress events. Short reads are part of the model: each \<open>read\<close> call of the sender on its file
  and of the receiver on the stream returns an arbitrary positive number of bytes, given by a
  schedule, and the theorems hold for every schedule.
\<close>

section \<open>Constants\<close>

definition CHUNK_SIZE :: nat where "CHUNK_SIZE = 64 * 1024"
definition FILE_HEADER_ACCEPT :: u8 where "FILE_HEADER_ACCEPT = 1"
definition FILE_HEADER_REJECT :: u8 where "FILE_HEADER_REJECT = 0"

lemma CHUNK_SIZE_pos [simp]: "0 < CHUNK_SIZE"
  by (simp add: CHUNK_SIZE_def)

lemma read_count_CHUNK [simp]: "read_count k CHUNK_SIZE s = 0 \<longleftrightarrow> s = []"
  using CHUNK_SIZE_pos by (simp add: read_count_0 del: CHUNK_SIZE_pos)

section \<open>Header and acknowledgement\<close>

definition Write_File_Stream_Header ::
  "string \<Rightarrow> u64 \<Rightarrow> string \<Rightarrow> out_stream \<Rightarrow> io_error + out_stream" where
  "Write_File_Stream_Header file_name file_size checksum stream =
     (let name_bytes = as_bytes file_name;
          checksum_bytes = as_bytes checksum;
          name_len = (of_nat (length name_bytes) :: u16);
          checksum_len = (of_nat (length checksum_bytes) :: u16)
      in rbind (write_all (u16_to_be name_len) stream) (\<lambda>stream.
         rbind (write_all name_bytes stream) (\<lambda>stream.
         rbind (write_all (u64_to_le file_size) stream) (\<lambda>stream.
         rbind (write_all (u16_to_be checksum_len) stream) (\<lambda>stream.
         rbind (write_all checksum_bytes stream) flush_out)))))"

definition Read_File_Stream_Header :: "(string \<times> u64 \<times> string) reader" where
  "Read_File_Stream_Header stream =
     rbind (read_exact 2 stream) (\<lambda>(name_len_buf, stream).
     rbind (read_exact (unat (u16_from_be name_len_buf)) stream) (\<lambda>(name_buf, stream).
     rbind (ok_or Invalid_Data (from_utf8 name_buf)) (\<lambda>file_name.
     rbind (read_exact 8 stream) (\<lambda>(size_buf, stream).
     rbind (read_exact 2 stream) (\<lambda>(checksum_len_buf, stream).
     rbind (read_exact (unat (u16_from_be checksum_len_buf)) stream) (\<lambda>(checksum_buf, stream).
     rbind (ok_or Invalid_Data (from_utf8 checksum_buf)) (\<lambda>checksum.
     Inr ((file_name, u64_from_le size_buf, checksum), stream))))))))"

definition Write_File_Stream_Ack :: "bool \<Rightarrow> out_stream \<Rightarrow> io_error + out_stream" where
  "Write_File_Stream_Ack accepted stream =
     (let ack = (if accepted then FILE_HEADER_ACCEPT else FILE_HEADER_REJECT)
      in rbind (write_all [ack] stream) flush_out)"

definition Read_File_Stream_Ack :: "bool reader" where
  "Read_File_Stream_Ack stream =
     rbind (read_exact 1 stream) (\<lambda>(buf, stream). Inr (buf ! 0 = FILE_HEADER_ACCEPT, stream))"

section \<open>Transfer loops\<close>

text \<open>The JSON payload of a progress event, with its fields; \<open>type\<close> and \<open>peer\<close> are constant.\<close>

datatype transfer_dir = Dir_Send | Dir_Receive

record file_progress =
  fp_name :: string
  fp_dir :: transfer_dir
  fp_sent :: u64
  fp_total :: u64

text \<open>
  \<open>sched i\<close> is how much the \<open>i\<close>-th \<open>read\<close> call would like to return. The loop result carries the
  outbound stream and the events published, also on the error path.
\<close>

function send_loop ::
  "(nat \<Rightarrow> nat) \<Rightarrow> string \<Rightarrow> u64 \<Rightarrow> nat \<Rightarrow> bytes \<Rightarrow> u64 \<Rightarrow> out_stream \<Rightarrow> file_progress list \<Rightarrow>
   (io_error + out_stream) \<times> file_progress list" where
  "send_loop sched name file_size i file done_bytes stream evs =
     (let n = read_count (sched i) CHUNK_SIZE file in
      if n = 0 then (flush_out stream, evs)
      else case write_all (take n file) stream of
             Inl e \<Rightarrow> (Inl e, evs)
           | Inr stream \<Rightarrow>
               let done_bytes = done_bytes + of_nat n in
               send_loop sched name file_size (Suc i) (drop n file) done_bytes stream
                 (evs @ [\<lparr>fp_name = name, fp_dir = Dir_Send, fp_sent = done_bytes, fp_total = file_size\<rparr>]))"
  by pat_completeness auto
termination
  by (relation "measure (\<lambda>(sched, name, file_size, i, file, d, stream, evs). length file)")
    (auto simp: read_count_0)

declare send_loop.simps [simp del]

text \<open>\<open>file\<close> is what opening \<open>file_path\<close> gives; the size is the metadata length of the same file.\<close>

definition Send_File_Data ::
  "(nat \<Rightarrow> nat) \<Rightarrow> string option \<Rightarrow> io_error + bytes \<Rightarrow> out_stream \<Rightarrow>
   (io_error + out_stream) \<times> file_progress list" where
  "Send_File_Data sched path_name file stream =
     (case file of
        Inl e \<Rightarrow> (Inl e, [])
      | Inr contents \<Rightarrow>
          let file_size = of_nat (length contents);
              file_name = (case path_name of Some n \<Rightarrow> n | None \<Rightarrow> ''?'')
          in send_loop sched file_name file_size 0 contents 0 stream [])"

text \<open>
  The receiver's destination is an output stream too: \<open>sent\<close> is the contents of the file,
  \<open>room\<close> the space left on the disk. The result is the outcome, the file as it is on disk
  afterwards (also after an error), the rest of the network stream and the events.
\<close>

record receive_result =
  rr_result :: "io_error + unit"
  rr_file :: out_stream
  rr_stream :: bytes
  rr_events :: "file_progress list"

function receive_loop ::
  "(nat \<Rightarrow> nat) \<Rightarrow> string \<Rightarrow> u64 \<Rightarrow> nat \<Rightarrow> u64 \<Rightarrow> bytes \<Rightarrow> out_stream \<Rightarrow> file_progress list \<Rightarrow>
   receive_result" where
  "receive_loop sched name file_size i remaining stream file evs =
     (if remaining = 0
      then \<lparr>rr_result = Inr (), rr_file = file, rr_stream = stream, rr_events = evs\<rparr>
      else
        let to_read = min (unat remaining) CHUNK_SIZE;
            n = read_count (sched i) to_read stream
        in if n = 0
           then \<lparr>rr_result = Inl Unexpected_Eof, rr_file = file, rr_stream = stream, rr_events = evs\<rparr>
           else case write_all (take n stream) file of
                  Inl e \<Rightarrow> \<lparr>rr_result = Inl e, rr_file = file, rr_stream = drop n stream, rr_events = evs\<rparr>
                | Inr file \<Rightarrow>
                    let remaining = remaining - of_nat n;
                        received = file_size - remaining
                    in receive_loop sched name file_size (Suc i) remaining (drop n stream) file
                         (evs @ [\<lparr>fp_name = name, fp_dir = Dir_Receive, fp_sent = received, fp_total = file_size\<rparr>]))"
  by pat_completeness auto
termination
  by (relation "measure (\<lambda>(sched, name, file_size, i, remaining, stream, file, evs). length stream)")
    (auto simp: read_count_0)

declare receive_loop.simps [simp del]

text \<open>\<open>dest\<close> is what creating the parent directories and the file gives: an error or an empty file.\<close>

definition Receive_File_Data ::
  "(nat \<Rightarrow> nat) \<Rightarrow> string option \<Rightarrow> u64 \<Rightarrow> bytes \<Rightarrow> io_error + out_stream \<Rightarrow> io_error + receive_result" where
  "Receive_File_Data sched path_name file_size stream dest =
     (case dest of
        Inl e \<Rightarrow> Inl e
      | Inr file \<Rightarrow>
          let file_name = (case path_name of Some n \<Rightarrow> n | None \<Rightarrow> ''?'')
          in Inr (receive_loop sched file_name file_size 0 file_size stream file []))"

section \<open>The header implements the wire interface\<close>

definition header_bytes :: "string \<times> u64 \<times> string \<Rightarrow> bytes" where
  "header_bytes h = (case h of (name, sz, cs) \<Rightarrow>
     u16_to_be (of_nat (length name)) @ as_bytes name @ u64_to_le sz
       @ u16_to_be (of_nat (length cs)) @ as_bytes cs)"

definition header_ok :: "string \<times> u64 \<times> string \<Rightarrow> bool" where
  "header_ok h \<longleftrightarrow> (case h of (name, sz, cs) \<Rightarrow>
     is_str name \<and> is_str cs \<and> length name < 65536 \<and> length cs < 65536)"

definition put_header :: "string \<times> u64 \<times> string \<Rightarrow> out_stream \<Rightarrow> io_error + out_stream" where
  "put_header h = (case h of (name, sz, cs) \<Rightarrow> Write_File_Stream_Header name sz cs)"

lemma Write_Header_eq:
  "Write_File_Stream_Header name sz cs s = write_all (header_bytes (name, sz, cs)) s"
  by (simp add: Write_File_Stream_Header_def header_bytes_def Let_def)

lemma Read_Header_bytes:
  "header_ok h \<Longrightarrow> Read_File_Stream_Header (header_bytes h @ s) = Inr (h, s)"
  by (cases h) (simp add: Read_File_Stream_Header_def header_bytes_def header_ok_def unat_len_u16
      split: prod.splits)

lemma streaming_Read_Header: "streaming Read_File_Stream_Header"
  unfolding Read_File_Stream_Header_def by (intro streaming_intros)

interpretation file_header: wire_channel header_bytes Read_File_Stream_Header header_ok put_header
  by unfold_locales
    (auto simp: Read_Header_bytes streaming_Read_Header Write_Header_eq put_header_def split: prod.splits)

definition ack_bytes :: "bool \<Rightarrow> bytes" where
  "ack_bytes b = [if b then FILE_HEADER_ACCEPT else FILE_HEADER_REJECT]"

lemma Read_Ack_bytes: "Read_File_Stream_Ack (ack_bytes b @ s) = Inr (b, s)"
  by (cases b) (simp_all add: Read_File_Stream_Ack_def ack_bytes_def read_exact_def
      FILE_HEADER_ACCEPT_def FILE_HEADER_REJECT_def)

lemma streaming_Read_Ack: "streaming Read_File_Stream_Ack"
  unfolding Read_File_Stream_Ack_def by (intro streaming_intros)

interpretation file_ack: wire_channel ack_bytes Read_File_Stream_Ack "\<lambda>_. True" Write_File_Stream_Ack
  by unfold_locales
    (rule Read_Ack_bytes, rule streaming_Read_Ack, auto simp: Write_File_Stream_Ack_def ack_bytes_def Let_def)

section \<open>The loops\<close>

text \<open>
  Rust's \<open>sent += n as u64\<close> is exact as long as the file fits in 64 bits; the loop lemmas carry
  the number of bytes already moved as a natural number.
\<close>

lemma send_loop_result:
  "fst (send_loop sched name file_size i file d stream evs) = write_all file stream"
proof (induction sched name file_size i "file" d stream evs rule: send_loop.induct)
  case (1 sched name file_size i "file" d stream evs)
  define n where "n = read_count (sched i) CHUNK_SIZE file"
  show ?case
  proof (cases "n = 0")
    case True
    then show ?thesis by (simp add: send_loop.simps n_def flush_out_def)
  next
    case False
    have split: "write_all file stream = rbind (write_all (take n file) stream) (write_all (drop n file))"
      by simp
    show ?thesis
    proof (cases "write_all (take n file) stream")
      case (Inl e)
      with False show ?thesis unfolding split by (simp add: send_loop.simps [of _ _ _ i] n_def Let_def)
    next
      case (Inr stream')
      with False 1 show ?thesis unfolding split by (simp add: send_loop.simps [of _ _ _ i] n_def Let_def)
    qed
  qed
qed

text \<open>\<open>progress_from a es b\<close>: the progress events count strictly up from \<open>a\<close> and end at \<open>b\<close>.\<close>

fun progress_from :: "nat \<Rightarrow> file_progress list \<Rightarrow> nat \<Rightarrow> bool" where
  "progress_from a [] b = (a = b)"
| "progress_from a (e # es) b = (a < unat (fp_sent e) \<and> progress_from (unat (fp_sent e)) es b)"

lemma progress_from_le: "progress_from a es b \<Longrightarrow> a \<le> b"
  by (induction a es b rule: progress_from.induct) auto

lemma unat_sub_of_nat: "n \<le> unat (w :: u64) \<Longrightarrow> unat (w - of_nat n) = unat w - n"
  using unat_u64_less [of w] by (simp add: unat_sub_if_size unat_len_u64 word_le_nat_alt)

lemma receive_loop_step:
  assumes "remaining \<noteq> 0" and n: "n = read_count (sched i) (min (unat remaining) CHUNK_SIZE) stream"
    and "0 < n" and w: "write_all (take n stream) dest = Inr dest'"
  shows "receive_loop sched name file_size i remaining stream dest evs =
    receive_loop sched name file_size (Suc i) (remaining - of_nat n) (drop n stream) dest'
      (evs @ [\<lparr>fp_name = name, fp_dir = Dir_Receive, fp_sent = file_size - (remaining - of_nat n),
               fp_total = file_size\<rparr>])"
  using assms by (simp add: receive_loop.simps [of _ _ _ i] Let_def)

text \<open>What the receive loop does to the stream, the file and the events, whatever happens.\<close>

definition received_by ::
  "u64 \<Rightarrow> u64 \<Rightarrow> bytes \<Rightarrow> out_stream \<Rightarrow> file_progress list \<Rightarrow> receive_result \<Rightarrow> bytes \<Rightarrow>
   file_progress list \<Rightarrow> bool" where
  "received_by file_size remaining stream dest evs r got new \<longleftrightarrow>
     sent (rr_file r) = sent dest @ got \<and> prefix got stream \<and> length got \<le> unat remaining \<and>
     rr_events r = evs @ new \<and>
     progress_from (unat file_size - unat remaining) new (unat file_size - unat remaining + length got) \<and>
     (rr_result r = Inr () \<longrightarrow> length got = unat remaining \<and> rr_stream r = drop (unat remaining) stream) \<and>
     (rr_result r = Inl Unexpected_Eof \<longrightarrow> got = stream \<and> length stream < unat remaining) \<and>
     (room dest = None \<longrightarrow> rr_result r = Inr () \<or> rr_result r = Inl Unexpected_Eof)"

definition received_ok ::
  "u64 \<Rightarrow> u64 \<Rightarrow> bytes \<Rightarrow> out_stream \<Rightarrow> file_progress list \<Rightarrow> receive_result \<Rightarrow> bool" where
  "received_ok file_size remaining stream dest evs r \<longleftrightarrow>
     (\<exists>got new. received_by file_size remaining stream dest evs r got new)"

lemma received_okI: "received_by file_size remaining stream dest evs r got new \<Longrightarrow>
    received_ok file_size remaining stream dest evs r"
  by (auto simp: received_ok_def)

lemma prefix_full: "prefix xs ys \<Longrightarrow> length xs = length ys \<Longrightarrow> xs = ys"
  by (auto simp: prefix_def)

lemma received_by_step:
  assumes rec: "received_by file_size (remaining - of_nat n) (drop n stream) dest' (evs @ [e]) r got new"
    and le: "unat remaining \<le> unat file_size" and n: "n \<le> length stream" "n \<le> unat remaining" "0 < n"
    and w: "write_all (take n stream) dest = Inr dest'"
    and e: "fp_sent e = file_size - (remaining - of_nat n)"
  shows "received_by file_size remaining stream dest evs r (take n stream @ got) (e # new)"
proof -
  have rem: "unat (remaining - of_nat n) = unat remaining - n" using n(2) by (rule unat_sub_of_nat)
  have "remaining - of_nat n \<le> file_size" using le by (simp add: word_le_nat_alt rem)
  then have sentv: "unat (fp_sent e) = unat file_size - unat remaining + n"
    using le n(2) by (simp add: e unat_sub rem)
  have off: "unat file_size - (unat remaining - n) = unat file_size - unat remaining + n"
    using le n(2) by simp
  have d: "sent dest' = sent dest @ take n stream" "room dest = None \<longrightarrow> room dest' = None"
    using w by (auto simp: write_all_def split: option.splits if_splits)
  note g = rec [unfolded received_by_def rem]
  have pre: "prefix (take n stream @ got) stream"
    using g by (metis append_take_drop_id same_prefix_prefix)
  show ?thesis
    unfolding received_by_def
  proof (intro conjI impI)
    show "progress_from (unat file_size - unat remaining) (e # new)
        (unat file_size - unat remaining + length (take n stream @ got))"
      using g n unfolding off by (simp add: sentv add.assoc)
  next
    assume "rr_result r = Inr ()"
    with g n show "length (take n stream @ got) = unat remaining" "rr_stream r = drop (unat remaining) stream"
      by auto
  next
    assume "rr_result r = Inl Unexpected_Eof"
    with g n show "take n stream @ got = stream" "length stream < unat remaining" by auto
  qed (use g d n pre in auto)
qed

lemma receive_loop_ok:
  assumes "unat remaining \<le> unat file_size"
  shows "received_ok file_size remaining stream dest evs
           (receive_loop sched name file_size i remaining stream dest evs)"
  using assms
proof (induction sched name file_size i remaining stream dest evs rule: receive_loop.induct)
  case (1 sched name file_size i remaining stream dest evs)
  define n where "n = read_count (sched i) (min (unat remaining) CHUNK_SIZE) stream"
  have n: "n \<le> length stream" "n \<le> unat remaining"
    using read_count_le [of "sched i" "min (unat remaining) CHUNK_SIZE" stream] by (auto simp: n_def)
  consider (fin) "remaining = 0" | (eof) "remaining \<noteq> 0" "n = 0"
    | (full) e where "remaining \<noteq> 0" "0 < n" "write_all (take n stream) dest = Inl e"
    | (more) dest' where "remaining \<noteq> 0" "0 < n" "write_all (take n stream) dest = Inr dest'"
    by (metis gr0I sumE)
  then show ?case
  proof cases
    case fin
    then show ?thesis
      by (auto simp: received_by_def receive_loop.simps [of _ _ _ i] intro!: received_okI [of _ _ _ _ _ _ "[]" "[]"])
  next
    case eof
    then have "stream = []"
      using CHUNK_SIZE_pos by (auto simp: n_def read_count_0 min_def unat_eq_0 simp del: CHUNK_SIZE_pos split: if_splits)
    with eof show ?thesis
      by (auto simp: received_by_def receive_loop.simps [of _ _ _ i] n_def Let_def unat_gt_0
          intro!: received_okI [of _ _ _ _ _ _ "[]" "[]"])
  next
    case full
    then have "e = Broken_Pipe" "room dest \<noteq> None"
      by (auto simp: write_all_def split: option.splits if_splits)
    with full show ?thesis
      by (auto simp: received_by_def receive_loop.simps [of _ _ _ i] n_def Let_def
          intro!: received_okI [of _ _ _ _ _ _ "[]" "[]"])
  next
    case more
    have "unat (remaining - of_nat n) \<le> unat file_size"
      using "1.prems" n(2) by (simp add: unat_sub_of_nat)
    from "1.IH" [OF more(1) refl n_def _ more(3) refl refl this] more(2)
    obtain got new where "received_by file_size (remaining - of_nat n) (drop n stream) dest'
        (evs @ [\<lparr>fp_name = name, fp_dir = Dir_Receive, fp_sent = file_size - (remaining - of_nat n),
                 fp_total = file_size\<rparr>])
        (receive_loop sched name file_size i remaining stream dest evs) got new"
      unfolding received_ok_def receive_loop_step [where sched = sched and i = i, OF more(1) n_def more(2,3)]
      by blast
    then show ?thesis
      by (rule received_okI [OF received_by_step]) (use "1.prems" n more in simp_all)
  qed
qed

lemma send_loop_events:
  assumes "unat d + length contents < 18446744073709551616" "room stream = None"
  shows "\<exists>new. snd (send_loop sched name file_size i contents d stream evs) = evs @ new \<and>
               progress_from (unat d) new (unat d + length contents) \<and> list_all (\<lambda>e. fp_total e = file_size) new"
  using assms
proof (induction sched name file_size i contents d stream evs rule: send_loop.induct)
  case (1 sched name file_size i contents d stream evs)
  define n where "n = read_count (sched i) CHUNK_SIZE contents"
  show ?case
  proof (cases "n = 0")
    case True
    then show ?thesis by (simp add: send_loop.simps n_def)
  next
    case False
    have n: "n \<le> length contents" by (simp add: n_def read_count_le)
    have d: "unat (d + of_nat n) = unat d + n"
      using "1.prems"(1) n by (simp add: unat_word_ariths unat_len_u64)
    obtain stream' where w: "write_all (take n contents) stream = Inr stream'" "room stream' = None"
      using "1.prems"(2) by (simp add: write_all_def)
    let ?e = "\<lparr>fp_name = name, fp_dir = Dir_Send, fp_sent = d + of_nat n, fp_total = file_size\<rparr>"
    have "\<exists>new. snd (send_loop sched name file_size (Suc i) (drop n contents) (d + of_nat n) stream' (evs @ [?e]))
              = (evs @ [?e]) @ new \<and> progress_from (unat (d + of_nat n)) new (unat (d + of_nat n) + length (drop n contents))
              \<and> list_all (\<lambda>e. fp_total e = file_size) new"
      using False w "1.prems"(1) n d by (intro "1.IH") (auto simp: n_def)
    then obtain new where "snd (send_loop sched name file_size i contents d stream evs) = evs @ ?e # new"
      "progress_from (unat d) (?e # new) (unat d + length contents)" "list_all (\<lambda>e. fp_total e = file_size) (?e # new)"
      using False w(1) n d by (auto simp: send_loop.simps [of _ _ _ i] n_def [symmetric] Let_def)
    then show ?thesis by blast
  qed
qed

section \<open>Properties\<close>

lemma Receive_File_Data_ok:
  assumes "Receive_File_Data sched nm file_size stream (Inr dest) = Inr r"
  shows "received_ok file_size file_size stream dest [] r"
  using assms receive_loop_ok [of file_size file_size stream dest "[]"]
  by (auto simp: Receive_File_Data_def Let_def)

lemma Receive_File_Data_total:
  "\<exists>r. Receive_File_Data sched nm file_size stream (Inr dest) = Inr r"
  by (simp add: Receive_File_Data_def Let_def)

lemma Send_File_Data_result: "fst (Send_File_Data sched nm (Inr contents) s) = write_all contents s"
  by (simp add: Send_File_Data_def Let_def send_loop_result)

text \<open>C5: A file sent with its header arrives whole: for every pattern of short reads on either
  side, the receiver reads back the header and writes exactly the sender's bytes to the file,
  leaving the stream empty, and its progress events count strictly up to the file size.\<close>

theorem file_transfer_complete:
  assumes "header_ok (name, of_nat (length contents), cs)" "length contents < 18446744073709551616"
  shows "\<exists>out0 out r.
     Write_File_Stream_Header name (of_nat (length contents)) cs fresh_out = Inr out0 \<and>
     fst (Send_File_Data sched_s nm (Inr contents) out0) = Inr out \<and>
     Read_File_Stream_Header (sent out) = Inr ((name, of_nat (length contents), cs), contents) \<and>
     Receive_File_Data sched_r nm' (of_nat (length contents)) contents (Inr fresh_out) = Inr r \<and>
     rr_result r = Inr () \<and> sent (rr_file r) = contents \<and> rr_stream r = [] \<and>
     progress_from 0 (rr_events r) (length contents)"
proof -
  let ?size = "of_nat (length contents) :: u64"
  have u: "unat ?size = length contents" using assms(2) by (rule unat_len_u64)
  obtain r where r: "Receive_File_Data sched_r nm' ?size contents (Inr fresh_out) = Inr r"
    using Receive_File_Data_total by blast
  then obtain got new where "received_by ?size ?size contents fresh_out [] r got new"
    using Receive_File_Data_ok unfolding received_ok_def by blast
  note g = this [unfolded received_by_def u]
  then have ok: "rr_result r = Inr ()" by (auto simp: fresh_out_def)
  with g have "got = contents" by (auto intro: prefix_full)
  with g ok have "rr_result r = Inr () \<and> sent (rr_file r) = contents \<and> rr_stream r = [] \<and>
        progress_from 0 (rr_events r) (length contents)"
    by (simp add: fresh_out_def)
  with r show ?thesis
    by (simp add: Write_Header_eq Send_File_Data_result write_all_def fresh_out_def Read_Header_bytes [OF assms(1)])
qed

theorem file_transfer_complete_witness:
  "\<exists>out0 out r.
     Write_File_Stream_Header ''m'' (of_nat (length [1, 2, 3 :: u8])) [] fresh_out = Inr out0 \<and>
     fst (Send_File_Data (\<lambda>_. 2) None (Inr [1, 2, 3]) out0) = Inr out \<and>
     Read_File_Stream_Header (sent out) = Inr ((''m'', of_nat (length [1, 2, 3 :: u8]), []), [1, 2, 3]) \<and>
     Receive_File_Data (\<lambda>_. 1) None (of_nat (length [1, 2, 3 :: u8])) [1, 2, 3] (Inr fresh_out) = Inr r \<and>
     rr_result r = Inr () \<and> sent (rr_file r) = [1, 2, 3] \<and> rr_stream r = [] \<and>
     progress_from 0 (rr_events r) (length [1, 2, 3 :: u8])"
  by (rule file_transfer_complete) (simp_all add: header_ok_def is_str_alt)

text \<open>A transfer cut short is reported: when the stream ends before the announced size, the
  receiver returns an end-of-file error and the file on disk holds exactly the bytes that arrived.\<close>

theorem file_transfer_interrupted:
  assumes "length arrived < unat file_size"
  shows "\<exists>r. Receive_File_Data sched nm file_size arrived (Inr fresh_out) = Inr r \<and>
             rr_result r = Inl Unexpected_Eof \<and> sent (rr_file r) = arrived"
proof -
  obtain r where r: "Receive_File_Data sched nm file_size arrived (Inr fresh_out) = Inr r"
    using Receive_File_Data_total by blast
  then obtain got new where "received_by file_size file_size arrived fresh_out [] r got new"
    using Receive_File_Data_ok unfolding received_ok_def by blast
  note g = this [unfolded received_by_def]
  have "length got \<le> length arrived" using g prefix_length_le by blast
  with g assms have "rr_result r = Inl Unexpected_Eof" by (auto simp: fresh_out_def)
  with g r show ?thesis by (simp add: fresh_out_def)
qed

theorem file_transfer_interrupted_witness:
  "\<exists>r. Receive_File_Data (\<lambda>_. 64) None 5 [9, 8] (Inr fresh_out) = Inr r \<and>
       rr_result r = Inl Unexpected_Eof \<and> sent (rr_file r) = [9, 8]"
  by (rule file_transfer_interrupted) simp



end
