(* ===== verification/Bandwidth_Protocol.thy ===== *)
theory Bandwidth_Protocol
  imports Wire
begin

text \<open>
  The bandwidth test stream (\<open>Src/Network/Bandwidth_Stream/protocol.rs\<close>): the sender announces a
  duration and pushes zero chunks until the deadline, the receiver counts the bytes and reports
  the total back.
\<close>

definition BW_CHUNK_SIZE :: nat where "BW_CHUNK_SIZE = 64 * 1024"
definition DEFAULT_DURATION_SECS :: u16 where "DEFAULT_DURATION_SECS = 3"
definition MAX_DURATION_SECS :: u16 where "MAX_DURATION_SECS = 10"

text \<open>
  The clock is the sequence of values \<open>Instant::now()\<close> returns (nanoseconds): the first gives the
  deadline, each later one is the test of one iteration. \<open>None\<close> is a loop that has not returned
  when the sequence ends.
\<close>

fun push_until :: "nat \<Rightarrow> nat list \<Rightarrow> out_stream \<Rightarrow> (io_error + out_stream) option" where
  "push_until deadline [] stream = None"
| "push_until deadline (now # clock) stream =
     (if now \<ge> deadline then Some (Inr stream)
      else case write_all (replicate BW_CHUNK_SIZE 0) stream of
             Inl e \<Rightarrow> Some (Inl e)
           | Inr stream \<Rightarrow> push_until deadline clock stream)"

definition Send_Bandwidth_Test ::
  "nat \<Rightarrow> nat list \<Rightarrow> u16 \<Rightarrow> out_stream \<Rightarrow> (io_error + out_stream) option" where
  "Send_Bandwidth_Test start clock duration_secs stream =
     (case rbind (write_all (u16_to_le duration_secs) stream) flush_out of
        Inl e \<Rightarrow> Some (Inl e)
      | Inr stream \<Rightarrow>
          map_option (\<lambda>r. rbind r flush_out)
            (push_until (start + unat duration_secs * 1000000000) clock stream))"

text \<open>\<open>total += n\<close> is 64-bit addition; the loop ends when \<open>read\<close> returns 0.\<close>

function count_loop :: "(nat \<Rightarrow> nat) \<Rightarrow> nat \<Rightarrow> u64 \<Rightarrow> bytes \<Rightarrow> u64" where
  "count_loop sched i acc stream =
     (let n = read_count (sched i) BW_CHUNK_SIZE stream in
      if n = 0 then acc else count_loop sched (Suc i) (acc + of_nat n) (drop n stream))"
  by pat_completeness auto
termination
  by (relation "measure (\<lambda>(sched, i, acc, stream). length stream)")
    (auto simp: read_count_0)

declare count_loop.simps [simp del]

definition Receive_And_Count :: "(nat \<Rightarrow> nat) \<Rightarrow> bytes \<Rightarrow> io_error + u64" where
  "Receive_And_Count sched stream =
     rbind (read_exact 2 stream) (\<lambda>(dur_buf, stream).
     let duration_secs = u16_from_le dur_buf in
     if duration_secs > MAX_DURATION_SECS then Inl Invalid_Data
     else Inr (count_loop sched 0 0 stream))"

definition Write_Bandwidth_Result :: "u64 \<Rightarrow> out_stream \<Rightarrow> io_error + out_stream" where
  "Write_Bandwidth_Result total_bytes stream =
     rbind (write_all (u64_to_le total_bytes) stream) flush_out"

definition Read_Bandwidth_Result :: "u64 reader" where
  "Read_Bandwidth_Result stream =
     rbind (read_exact 8 stream) (\<lambda>(buf, stream). Inr (u64_from_le buf, stream))"

text \<open>
  \<open>mbps_f64 total d\<close> is the double-precision expression \<open>(total * 8.0 / d / 1e6) as u64\<close>;
  \<open>reply\<close> is what the peer sends back.
\<close>

definition Run_Bandwidth_Test ::
  "(u64 \<Rightarrow> u16 \<Rightarrow> u64) \<Rightarrow> nat \<Rightarrow> nat list \<Rightarrow> u16 \<Rightarrow> out_stream \<Rightarrow> bytes \<Rightarrow> (io_error + u64) option" where
  "Run_Bandwidth_Test mbps_f64 start clock duration_secs stream reply =
     map_option (\<lambda>r. rbind r (\<lambda>_.
         rbind (Read_Bandwidth_Result reply) (\<lambda>(total_bytes, _).
         Inr (mbps_f64 total_bytes duration_secs))))
       (Send_Bandwidth_Test start clock duration_secs stream)"

section \<open>Lemmas\<close>

interpretation bandwidth_result: wire_channel u64_to_le Read_Bandwidth_Result "\<lambda>_. True" Write_Bandwidth_Result
proof unfold_locales
  show "streaming Read_Bandwidth_Result"
    unfolding Read_Bandwidth_Result_def by (intro streaming_intros)
qed (simp_all add: Read_Bandwidth_Result_def Write_Bandwidth_Result_def)

lemma count_loop_total: "count_loop sched i acc stream = acc + of_nat (length stream)"
proof (induction sched i acc stream rule: count_loop.induct)
  case (1 sched i acc stream)
  define n where "n = read_count (sched i) BW_CHUNK_SIZE stream"
  show ?case
  proof (cases "n = 0")
    case True
    then have "stream = []" by (auto simp: n_def read_count_0 BW_CHUNK_SIZE_def)
    with True show ?thesis by (simp add: count_loop.simps n_def)
  next
    case False
    have "n \<le> length stream" by (simp add: n_def read_count_le)
    then have "of_nat (length stream) = (of_nat n + of_nat (length stream - n) :: u64)"
      by (simp flip: of_nat_add)
    moreover have "count_loop sched (Suc i) (acc + of_nat n) (drop n stream)
        = acc + of_nat n + of_nat (length (drop n stream))"
      using "1.IH" [OF n_def False] .
    ultimately show ?thesis
      using False by (simp add: count_loop.simps [of _ i] n_def Let_def)
  qed
qed

text \<open>The chunks pushed: one per clock reading before the first that reaches the deadline.\<close>

lemma push_until_chunks:
  assumes "\<exists>t \<in> set clock. deadline \<le> t" "room stream = None"
  shows "push_until deadline clock stream =
    Some (write_all (replicate (length (takeWhile (\<lambda>t. t < deadline) clock) * BW_CHUNK_SIZE) 0) stream)"
  using assms
proof (induction deadline clock stream rule: push_until.induct)
  case (2 deadline now clock stream)
  show ?case
  proof (cases "now < deadline")
    case True
    let ?s = "stream\<lparr>sent := sent stream @ replicate BW_CHUNK_SIZE 0\<rparr>"
    have "write_all (replicate BW_CHUNK_SIZE 0) stream = Inr ?s"
      using 2(3) by (simp add: write_all_def)
    moreover from this have "push_until deadline clock ?s =
        Some (write_all (replicate (length (takeWhile (\<lambda>t. t < deadline) clock) * BW_CHUNK_SIZE) 0) ?s)"
      using 2 True by (intro "2.IH") auto
    ultimately show ?thesis
      using True 2(3) by (simp add: write_all_def replicate_add)
  qed simp
qed simp

section \<open>Properties\<close>

text \<open>A bandwidth test measures what was sent: the receiver counts exactly the bytes the
  sender pushed after the duration field, however the stream is cut into reads, and the sender
  computes its result from that count. The sender returns as soon as the clock passes the
  deadline.\<close>

theorem bandwidth_measures_sent:
  assumes "dur \<le> MAX_DURATION_SECS" "\<exists>t \<in> set clock. start + unat dur * 1000000000 \<le> t"
  shows "\<exists>out k total reply.
     k = length (takeWhile (\<lambda>t. t < start + unat dur * 1000000000) clock) \<and>
     Send_Bandwidth_Test start clock dur fresh_out = Some (Inr out) \<and>
     Receive_And_Count sched (sent out) = Inr total \<and> total = of_nat (k * BW_CHUNK_SIZE) \<and>
     Write_Bandwidth_Result total fresh_out = Inr reply \<and>
     Run_Bandwidth_Test mbps start clock dur fresh_out (sent reply) = Some (Inr (mbps total dur))"
proof -
  let ?k = "length (takeWhile (\<lambda>t. t < start + unat dur * 1000000000) clock)"
  let ?out = "\<lparr>sent = u16_to_le dur @ replicate (?k * BW_CHUNK_SIZE) 0, room = None\<rparr>"
  have snd: "Send_Bandwidth_Test start clock dur fresh_out = Some (Inr ?out)"
    using push_until_chunks [OF assms(2), of "\<lparr>sent = u16_to_le dur, room = None\<rparr>"]
    by (simp add: Send_Bandwidth_Test_def write_all_def flush_out_def fresh_out_def)
  moreover have "Receive_And_Count sched (sent ?out) = Inr (of_nat (?k * BW_CHUNK_SIZE))"
    using assms(1) by (simp add: Receive_And_Count_def count_loop_total Let_def)
  ultimately show ?thesis
    by (auto simp: Run_Bandwidth_Test_def bandwidth_result.put_enc bandwidth_result.dec_enc_Nil
        simp del: of_nat_mult)
qed

theorem bandwidth_measures_sent_witness:
  "\<exists>out k total reply.
     k = length (takeWhile (\<lambda>t. t < 5 + unat (3 :: u16) * 1000000000) [6, 4000000000]) \<and>
     Send_Bandwidth_Test 5 [6, 4000000000] 3 fresh_out = Some (Inr out) \<and>
     Receive_And_Count (\<lambda>_. 1500) (sent out) = Inr total \<and> total = of_nat (k * BW_CHUNK_SIZE) \<and>
     Write_Bandwidth_Result total fresh_out = Inr reply \<and>
     Run_Bandwidth_Test (\<lambda>b d. b div 375000) 5 [6, 4000000000] 3 fresh_out (sent reply)
       = Some (Inr (total div 375000))"
  by (rule bandwidth_measures_sent) (simp_all add: MAX_DURATION_SECS_def)

end
