(* ===== verification/Session_Protocol.thy ===== *)
theory Session_Protocol
  imports Wire
begin

text \<open>
  The session stream (\<open>Src/Network/Session_Stream/protocol.rs\<close>): a handshake with the session id
  and length-prefixed UTF-8 frames in both directions.
\<close>

definition SESSION_MAX_FRAME_SIZE :: u32 where "SESSION_MAX_FRAME_SIZE = 64 * 1024"

definition Write_Session_Handshake :: "u64 \<Rightarrow> out_stream \<Rightarrow> io_error + out_stream" where
  "Write_Session_Handshake session_id stream = rbind (write_all (u64_to_be session_id) stream) flush_out"

definition Read_Session_Handshake :: "u64 reader" where
  "Read_Session_Handshake stream =
     rbind (read_exact 8 stream) (\<lambda>(buf, stream). Inr (u64_from_be buf, stream))"

definition write_session_frame :: "string \<Rightarrow> out_stream \<Rightarrow> io_error + out_stream" where
  "write_session_frame txt stream =
     (let payload = as_bytes txt in
      rbind (write_all (u32_to_be (of_nat (length payload))) stream) (\<lambda>stream.
      rbind (write_all payload stream) flush_out))"

definition read_session_frame :: "string reader" where
  "read_session_frame stream =
     rbind (read_exact 4 stream) (\<lambda>(len_buf, stream).
     rbind (read_exact (unat (u32_from_be len_buf)) stream) (\<lambda>(buf, stream).
     rbind (ok_or Invalid_Data (from_utf8 buf)) (\<lambda>txt. Inr (txt, stream))))"

section \<open>The frames implement the wire interface\<close>

interpretation session_handshake: wire_channel u64_to_be Read_Session_Handshake "\<lambda>_. True" Write_Session_Handshake
proof unfold_locales
  show "streaming Read_Session_Handshake"
    unfolding Read_Session_Handshake_def by (intro streaming_intros)
qed (simp_all add: Read_Session_Handshake_def Write_Session_Handshake_def)

definition session_frame_bytes :: "string \<Rightarrow> bytes" where
  "session_frame_bytes txt = u32_to_be (of_nat (length txt)) @ as_bytes txt"

definition session_text_ok :: "string \<Rightarrow> bool" where
  "session_text_ok txt \<longleftrightarrow> is_str txt \<and> length txt < 4294967296"

lemma read_session_frame_bytes:
  "session_text_ok txt \<Longrightarrow> read_session_frame (session_frame_bytes txt @ s) = Inr (txt, s)"
  by (simp add: read_session_frame_def session_frame_bytes_def session_text_ok_def unat_len_u32)

lemma streaming_read_session_frame: "streaming read_session_frame"
  unfolding read_session_frame_def by (intro streaming_intros)

interpretation session_frame:
  wire_channel session_frame_bytes read_session_frame session_text_ok write_session_frame
  by unfold_locales
    (erule read_session_frame_bytes, rule streaming_read_session_frame,
      simp add: write_session_frame_def session_frame_bytes_def)

section \<open>Properties\<close>

text \<open>A session stream carries its handshake and any sequence of text messages unchanged: the
  reader gets the session id and then exactly the messages, in order.\<close>

theorem session_stream_roundtrip:
  assumes "list_all session_text_ok msgs"
  shows "\<exists>out0 out rest.
     Write_Session_Handshake sid fresh_out = Inr out0 \<and>
     send_all write_session_frame msgs out0 = Inr out \<and>
     Read_Session_Handshake (sent out) = Inr (sid, rest) \<and>
     recv_all read_session_frame (length msgs) rest = (msgs, Inr [])"
proof -
  let ?w = "concat (map session_frame_bytes msgs)"
  have "recv_all read_session_frame (length msgs) ?w = (msgs, Inr [])"
    using session_frame.recv_conversation [OF assms, of "[]"] by simp
  moreover have "send_all write_session_frame msgs \<lparr>sent = u64_to_be sid, room = None\<rparr>
      = Inr \<lparr>sent = u64_to_be sid @ ?w, room = None\<rparr>"
    by (simp add: session_frame.send_all_write write_all_def)
  ultimately show ?thesis
    by (simp add: session_handshake.put_enc session_handshake.dec_enc)
qed

theorem session_stream_roundtrip_witness:
  "\<exists>out0 out rest.
     Write_Session_Handshake 42 fresh_out = Inr out0 \<and>
     send_all write_session_frame [''hi'', ''''] out0 = Inr out \<and>
     Read_Session_Handshake (sent out) = Inr (42, rest) \<and>
     recv_all read_session_frame (length [''hi'', '''']) rest = ([''hi'', ''''], Inr [])"
  by (rule session_stream_roundtrip) (simp add: session_text_ok_def is_str_alt)

end
