(* ===== verification/Rendezvous.thy ===== *)
theory Rendezvous
  imports Prelude
begin

text \<open>
  Matching streams that arrive with callers that wait for them, for remote tensor streams
  (\<open>RendezvousMap\<close> of \<open>Src/Network/Tensor_Stream/rendezvous.rs\<close>) and for local ones
  (\<open>LocalStreamHub\<close> of \<open>Src/Orchestrator/local_tensor_stream/mod.rs\<close>). Channels are explicit: a
  channel id stands for a \<open>oneshot\<close> or \<open>mpsc\<close> pair, with what its receiver has been sent. Every
  method of the code runs under its mutex, so each is one atomic operation, except
  \<open>accept_async\<close>, which takes two locks one after the other and is modelled in two steps.
\<close>

section \<open>Channels\<close>

type_synonym chan = nat

text \<open>\<open>lost\<close> collects the streams a failed \<open>tx.send\<close> or an overwritten map entry drops.\<close>

record 's channels =
  next_chan :: chan
  inbox :: "chan \<Rightarrow> 's list"
  closed :: "chan list"
  lost :: "'s list"

definition no_channels :: "'s channels" where
  "no_channels = \<lparr>next_chan = 0, inbox = (\<lambda>_. []), closed = [], lost = []\<rparr>"

definition new_chan :: "'s channels \<Rightarrow> chan \<times> 's channels" where
  "new_chan cs = (next_chan cs, cs\<lparr>next_chan := next_chan cs + 1\<rparr>)"

definition chan_send :: "chan \<Rightarrow> 's \<Rightarrow> 's channels \<Rightarrow> 's channels" where
  "chan_send c s cs =
     (if c \<in> set (closed cs) then cs\<lparr>lost := lost cs @ [s]\<rparr>
      else cs\<lparr>inbox := (inbox cs)(c := inbox cs c @ [s])\<rparr>)"

definition chan_drop_rx :: "chan \<Rightarrow> 's channels \<Rightarrow> 's channels" where
  "chan_drop_rx c cs = cs\<lparr>closed := c # closed cs\<rparr>"

definition drop_old :: "'s option \<Rightarrow> 's channels \<Rightarrow> 's channels" where
  "drop_old old cs = (case old of None \<Rightarrow> cs | Some s \<Rightarrow> cs\<lparr>lost := lost cs @ [s]\<rparr>)"

section \<open>The interface\<close>

text \<open>
  What both hubs promise: whichever of the two sides comes first, the caller that claims an id
  receives the stream that is offered for it. \<open>idle i\<close>: nobody has offered or claimed \<open>i\<close> yet.
\<close>

locale matchmaker =
  fixes offer :: "'i \<Rightarrow> 's \<Rightarrow> 'st \<Rightarrow> 'st"
    and claim :: "'i \<Rightarrow> 'st \<Rightarrow> chan \<times> 'st"
    and received :: "chan \<Rightarrow> 'st \<Rightarrow> 's list"
    and idle :: "'i \<Rightarrow> 'st \<Rightarrow> bool"
  assumes offer_then_claim: "idle i st \<Longrightarrow> claim i (offer i s st) = (c, st') \<Longrightarrow> received c st' = [s]"
    and claim_then_offer: "idle i st \<Longrightarrow> claim i st = (c, st') \<Longrightarrow> received c (offer i s st') = [s]"
    and idle_offer: "idle i st \<Longrightarrow> i \<noteq> j \<Longrightarrow> idle i (offer j s st)"
    and idle_claim: "idle i st \<Longrightarrow> i \<noteq> j \<Longrightarrow> idle i (snd (claim j st))"
begin

fun run_others :: "('i \<times> 's option) list \<Rightarrow> 'st \<Rightarrow> 'st" where
  "run_others [] st = st"
| "run_others ((j, Some s) # ops) st = run_others ops (offer j s st)"
| "run_others ((j, None) # ops) st = run_others ops (snd (claim j st))"

lemma idle_run_others: "idle i st \<Longrightarrow> i \<notin> fst ` set ops \<Longrightarrow> idle i (run_others ops st)"
  by (induction ops st rule: run_others.induct) (auto simp: idle_offer idle_claim)

text \<open>Traffic on other ids before the match does not disturb it.\<close>

lemma matched_after_others:
  assumes "idle i st" "i \<notin> fst ` set ops"
  shows "received (fst (claim i (offer i s (run_others ops st)))) (snd (claim i (offer i s (run_others ops st)))) = [s]"
    and "received (fst (claim i (run_others ops st))) (offer i s (snd (claim i (run_others ops st)))) = [s]"
  using offer_then_claim [OF idle_run_others [OF assms], of s] claim_then_offer [OF idle_run_others [OF assms]]
  by (metis prod.collapse)+

end

section \<open>Remote streams\<close>

record 's rendezvous =
  pending_inbound :: "(u64 \<times> 's) list"
  pending_accept :: "(u64 \<times> chan) list"
  rv_notifiers :: "(u64 \<times> chan) list"
  rv_chans :: "'s channels"

definition rv_new :: "'s rendezvous" where
  "rv_new = \<lparr>pending_inbound = [], pending_accept = [], rv_notifiers = [], rv_chans = no_channels\<rparr>"

definition register_notify :: "u64 \<Rightarrow> chan \<Rightarrow> 's rendezvous \<Rightarrow> 's rendezvous" where
  "register_notify key tx st = st\<lparr>rv_notifiers := AList.update key tx (rv_notifiers st)\<rparr>"

definition insert_inbound :: "u64 \<Rightarrow> 's \<Rightarrow> 's rendezvous \<Rightarrow> 's rendezvous" where
  "insert_inbound key stream st =
     (case map_of (rv_notifiers st) key of
        Some tx \<Rightarrow> st\<lparr>rv_notifiers := AList.delete key (rv_notifiers st), rv_chans := chan_send tx stream (rv_chans st)\<rparr>
      | None \<Rightarrow>
          (case map_of (pending_accept st) key of
             Some tx \<Rightarrow> st\<lparr>pending_accept := AList.delete key (pending_accept st), rv_chans := chan_send tx stream (rv_chans st)\<rparr>
           | None \<Rightarrow> st\<lparr>pending_inbound := AList.update key stream (pending_inbound st),
                        rv_chans := drop_old (map_of (pending_inbound st) key) (rv_chans st)\<rparr>))"

definition register_accept :: "u64 \<Rightarrow> 's rendezvous \<Rightarrow> chan \<times> 's rendezvous" where
  "register_accept key st =
     (case map_of (pending_inbound st) key of
        Some stream \<Rightarrow>
          (case new_chan (rv_chans st) of (c, cs) \<Rightarrow>
             (c, st\<lparr>pending_inbound := AList.delete key (pending_inbound st), rv_chans := chan_send c stream cs\<rparr>))
      | None \<Rightarrow>
          (case new_chan (rv_chans st) of (c, cs) \<Rightarrow>
             (c, st\<lparr>pending_accept := AList.update key c (pending_accept st), rv_chans := cs\<rparr>)))"

section \<open>Local streams\<close>

text \<open>
  \<open>open\<close> makes a duplex pair and returns the local half; the remote half \<open>s\<close> is handed over. The
  mutexes are never poisoned in the model, as no code panics while it holds one.
\<close>

record 's local_hub =
  lh_pending :: "(string \<times> 's) list"
  lh_notifiers :: "(string \<times> chan) list"
  lh_chans :: "'s channels"

definition lh_new :: "'s local_hub" where
  "lh_new = \<lparr>lh_pending = [], lh_notifiers = [], lh_chans = no_channels\<rparr>"

definition lh_open :: "string \<Rightarrow> 's \<Rightarrow> 's local_hub \<Rightarrow> 's local_hub" where
  "lh_open key remote st =
     (case map_of (lh_notifiers st) key of
        Some tx \<Rightarrow> st\<lparr>lh_notifiers := AList.delete key (lh_notifiers st), lh_chans := chan_send tx remote (lh_chans st)\<rparr>
      | None \<Rightarrow> st\<lparr>lh_pending := AList.update key remote (lh_pending st),
                   lh_chans := drop_old (map_of (lh_pending st) key) (lh_chans st)\<rparr>)"

text \<open>One poll of the blocking \<open>accept\<close>, and the loop over what other threads do between polls.\<close>

definition lh_poll :: "string \<Rightarrow> 's local_hub \<Rightarrow> 's option \<times> 's local_hub" where
  "lh_poll key st = (map_of (lh_pending st) key, st\<lparr>lh_pending := AList.delete key (lh_pending st)\<rparr>)"

fun lh_accept :: "string \<Rightarrow> ('s local_hub \<Rightarrow> 's local_hub) list \<Rightarrow> 's local_hub \<Rightarrow> 's option \<times> 's local_hub" where
  "lh_accept key [] st = lh_poll key st"
| "lh_accept key (w # ws) st =
     (case lh_poll key st of
        (Some s, st) \<Rightarrow> (Some s, st)
      | (None, st) \<Rightarrow> lh_accept key ws (w st))"

text \<open>\<open>accept_async\<close>: the check of the pending map, then the registration, then the timeout.\<close>

definition lh_check :: "string \<Rightarrow> 's local_hub \<Rightarrow> 's option \<times> 's local_hub" where
  "lh_check key st =
     (case map_of (lh_pending st) key of
        Some s \<Rightarrow> (Some s, st\<lparr>lh_pending := AList.delete key (lh_pending st)\<rparr>)
      | None \<Rightarrow> (None, st))"

definition lh_register :: "string \<Rightarrow> 's local_hub \<Rightarrow> chan \<times> 's local_hub" where
  "lh_register key st =
     (case new_chan (lh_chans st) of (c, cs) \<Rightarrow>
        (c, st\<lparr>lh_notifiers := AList.update key c (lh_notifiers st), lh_chans := cs\<rparr>))"

definition lh_timeout :: "string \<Rightarrow> chan \<Rightarrow> 's local_hub \<Rightarrow> 's local_hub" where
  "lh_timeout key c st =
     st\<lparr>lh_notifiers := AList.delete key (lh_notifiers st), lh_chans := chan_drop_rx c (lh_chans st)\<rparr>"

text \<open>Run without interference: a stream found in the pending map is delivered at once.\<close>

definition accept_async :: "string \<Rightarrow> 's local_hub \<Rightarrow> chan \<times> 's local_hub" where
  "accept_async key st =
     (case lh_check key st of
        (Some s, st) \<Rightarrow> (case new_chan (lh_chans st) of (c, cs) \<Rightarrow> (c, st\<lparr>lh_chans := chan_send c s cs\<rparr>))
      | (None, st) \<Rightarrow> lh_register key st)"

section \<open>Both implement the interface\<close>

definition chans_ok :: "'s channels \<Rightarrow> bool" where
  "chans_ok cs \<longleftrightarrow> (\<forall>c. next_chan cs \<le> c \<longrightarrow> inbox cs c = [] \<and> c \<notin> set (closed cs))"

lemma chans_ok_new_chan: "chans_ok cs \<Longrightarrow> chans_ok (snd (new_chan cs))"
  by (simp add: chans_ok_def new_chan_def)

lemma chans_ok_drop_old [simp]: "chans_ok (drop_old old cs) = chans_ok cs"
  by (cases old) (auto simp: chans_ok_def drop_old_def)

lemma chans_ok_send: "chans_ok cs \<Longrightarrow> c < next_chan cs \<Longrightarrow> chans_ok (chan_send c s cs)"
  by (auto simp: chans_ok_def chan_send_def)

lemma next_chan_simps [simp]:
  "next_chan (chan_send c s cs) = next_chan cs" "next_chan (drop_old old cs) = next_chan cs"
  "fst (new_chan cs) = next_chan cs" "next_chan (snd (new_chan cs)) = Suc (next_chan cs)"
  by (auto simp: chan_send_def drop_old_def new_chan_def split: option.splits)

lemma inbox_fresh_send:
  "chans_ok cs \<Longrightarrow> inbox (chan_send (next_chan cs) s (snd (new_chan cs))) (next_chan cs) = [s]"
  by (simp add: chans_ok_def chan_send_def new_chan_def)

lemma inbox_drop_old [simp]: "inbox (drop_old old cs) = inbox cs"
  by (cases old) (auto simp: drop_old_def)

text \<open>Every channel a map holds was made by the hub.\<close>

definition vals_below :: "chan \<Rightarrow> ('k \<times> chan) list \<Rightarrow> bool" where
  "vals_below n al \<longleftrightarrow> (\<forall>c \<in> snd ` set al. c < n)"

lemma vals_below_Nil [simp]: "vals_below n []"
  by (simp add: vals_below_def)

lemma vals_below_delete [intro]: "vals_below n al \<Longrightarrow> vals_below n (AList.delete k al)"
  by (auto simp: vals_below_def AList.delete_eq)

lemma vals_below_update [intro]: "vals_below n al \<Longrightarrow> c < n \<Longrightarrow> vals_below n (AList.update k c al)"
  by (induction al) (auto simp: vals_below_def)

lemma vals_below_Suc [intro]: "vals_below n al \<Longrightarrow> vals_below (Suc n) al"
  by (auto simp: vals_below_def)

lemma vals_below_lookup: "vals_below n al \<Longrightarrow> map_of al k = Some c \<Longrightarrow> c < n"
  by (force simp: vals_below_def dest: map_of_SomeD)

definition rv_chans_ok :: "'s rendezvous \<Rightarrow> bool" where
  "rv_chans_ok st \<longleftrightarrow> chans_ok (rv_chans st) \<and>
     vals_below (next_chan (rv_chans st)) (pending_accept st) \<and> vals_below (next_chan (rv_chans st)) (rv_notifiers st)"

definition rv_idle :: "u64 \<Rightarrow> 's rendezvous \<Rightarrow> bool" where
  "rv_idle i st \<longleftrightarrow> rv_chans_ok st \<and> map_of (pending_inbound st) i = None \<and>
     map_of (pending_accept st) i = None \<and> map_of (rv_notifiers st) i = None"

definition rv_received :: "chan \<Rightarrow> 's rendezvous \<Rightarrow> 's list" where
  "rv_received c st = inbox (rv_chans st) c"

lemma rv_chans_ok_insert: "rv_chans_ok st \<Longrightarrow> rv_chans_ok (insert_inbound i s st)"
  unfolding rv_chans_ok_def insert_inbound_def
  by (auto split: option.splits intro!: chans_ok_send elim: vals_below_lookup)

lemma rv_chans_ok_accept: "rv_chans_ok st \<Longrightarrow> rv_chans_ok (snd (register_accept i st))"
  unfolding rv_chans_ok_def register_accept_def
  by (auto simp: new_chan_def chan_send_def chans_ok_def split: option.splits)

lemma register_accept_other:
  "i \<noteq> j \<Longrightarrow> rv_idle i st \<Longrightarrow> rv_idle i (snd (register_accept j st))"
  using rv_chans_ok_accept [of st j]
  by (auto simp: rv_idle_def register_accept_def new_chan_def store_simps split: option.splits)

lemma insert_inbound_other:
  "i \<noteq> j \<Longrightarrow> rv_idle i st \<Longrightarrow> rv_idle i (insert_inbound j s st)"
  using rv_chans_ok_insert [of st j s]
  by (auto simp: rv_idle_def insert_inbound_def store_simps split: option.splits)

interpretation remote: matchmaker insert_inbound register_accept rv_received rv_idle
proof
  fix i s c and st st' :: "'a rendezvous"
  assume idle: "rv_idle i st"
  then have ok: "chans_ok (rv_chans st)" by (simp add: rv_idle_def rv_chans_ok_def)
  show "register_accept i (insert_inbound i s st) = (c, st') \<Longrightarrow> rv_received c st' = [s]"
    using idle ok inbox_fresh_send [of "rv_chans st" s]
    by (auto simp: rv_idle_def insert_inbound_def register_accept_def rv_received_def store_simps
        drop_old_def new_chan_def)
  show "register_accept i st = (c, st') \<Longrightarrow> rv_received c (insert_inbound i s st') = [s]"
    using idle ok
    by (auto simp: rv_idle_def insert_inbound_def register_accept_def rv_received_def store_simps
        chan_send_def chans_ok_def new_chan_def)
qed (auto intro: register_accept_other insert_inbound_other)

definition lh_chans_ok :: "'s local_hub \<Rightarrow> bool" where
  "lh_chans_ok st \<longleftrightarrow> chans_ok (lh_chans st) \<and> vals_below (next_chan (lh_chans st)) (lh_notifiers st)"

definition lh_idle :: "string \<Rightarrow> 's local_hub \<Rightarrow> bool" where
  "lh_idle i st \<longleftrightarrow> lh_chans_ok st \<and> map_of (lh_pending st) i = None \<and> map_of (lh_notifiers st) i = None"

definition lh_received :: "chan \<Rightarrow> 's local_hub \<Rightarrow> 's list" where
  "lh_received c st = inbox (lh_chans st) c"

lemmas accept_async_defs = accept_async_def lh_check_def lh_register_def

lemma lh_chans_ok_open: "lh_chans_ok st \<Longrightarrow> lh_chans_ok (lh_open i s st)"
  unfolding lh_chans_ok_def lh_open_def
  by (auto split: option.splits intro!: chans_ok_send elim: vals_below_lookup)

lemma lh_chans_ok_accept: "lh_chans_ok st \<Longrightarrow> lh_chans_ok (snd (accept_async i st))"
  unfolding lh_chans_ok_def accept_async_defs
  by (auto simp: new_chan_def chan_send_def chans_ok_def split: option.splits)

interpretation local_streams: matchmaker lh_open accept_async lh_received lh_idle
proof
  fix i s c and st st' :: "'a local_hub"
  assume idle: "lh_idle i st"
  then have ok: "chans_ok (lh_chans st)" by (simp add: lh_idle_def lh_chans_ok_def)
  show "accept_async i (lh_open i s st) = (c, st') \<Longrightarrow> lh_received c st' = [s]"
    using idle ok inbox_fresh_send [of "lh_chans st" s]
    by (auto simp: lh_idle_def lh_open_def accept_async_defs lh_received_def store_simps drop_old_def new_chan_def)
  show "accept_async i st = (c, st') \<Longrightarrow> lh_received c (lh_open i s st') = [s]"
    using idle ok
    by (auto simp: lh_idle_def lh_open_def accept_async_defs lh_received_def store_simps
        chan_send_def chans_ok_def new_chan_def)
next
  fix i j s and st :: "'a local_hub"
  assume *: "lh_idle i st" "i \<noteq> j"
  show "lh_idle i (lh_open j s st)"
    using * lh_chans_ok_open [of st j s]
    by (auto simp: lh_idle_def lh_open_def store_simps split: option.splits)
  show "lh_idle i (snd (accept_async j st))"
    using * lh_chans_ok_accept [of st j]
    by (auto simp: lh_idle_def accept_async_defs new_chan_def store_simps split: option.splits)
qed

section \<open>Streams are conserved\<close>

text \<open>
  The steps of a running node: callers register, streams arrive, receivers are dropped, in any
  order. The ghost component records what has been inserted.
\<close>

type_synonym 's rv_state = "'s rendezvous \<times> (u64 \<times> 's) list"

inductive rv_step :: "'s rv_state \<Rightarrow> 's rv_state \<Rightarrow> bool" where
  rv_notify: "new_chan (rv_chans st) = (c, cs) \<Longrightarrow>
    rv_step (st, ins) (register_notify i c (st\<lparr>rv_chans := cs\<rparr>), ins)"
| rv_insert: "rv_step (st, ins) (insert_inbound i s st, ins @ [(i, s)])"
| rv_accept: "rv_step (st, ins) (snd (register_accept i st), ins)"
| rv_drop: "c < next_chan (rv_chans st) \<Longrightarrow> rv_step (st, ins) (st\<lparr>rv_chans := chan_drop_rx c (rv_chans st)\<rparr>, ins)"

definition delivered :: "'s channels \<Rightarrow> 's multiset" where
  "delivered cs = (\<Sum>c<next_chan cs. mset (inbox cs c))"

definition rv_inv :: "'s rv_state \<Rightarrow> bool" where
  "rv_inv x \<longleftrightarrow> (case x of (st, ins) \<Rightarrow>
     rv_chans_ok st \<and> distinct (map fst (pending_inbound st)) \<and>
     fst ` set (pending_inbound st) \<inter> fst ` set (pending_accept st) = {} \<and>
     fst ` set (pending_inbound st) \<subseteq> fst ` set ins \<and>
     mset (map snd ins) = mset (map snd (pending_inbound st)) + delivered (rv_chans st) + mset (lost (rv_chans st)) \<and>
     (closed (rv_chans st) = [] \<and> distinct (map fst ins) \<longrightarrow> lost (rv_chans st) = []))"

lemma delivered_send:
  "c < next_chan cs \<Longrightarrow>
   delivered (chan_send c s cs) + mset (lost (chan_send c s cs)) = add_mset s (delivered cs + mset (lost cs))"
proof (cases "c \<in> set (closed cs)")
  case False
  assume "c < next_chan cs"
  then have "(\<Sum>d<next_chan cs. mset (inbox (chan_send c s cs) d)) = add_mset s (\<Sum>d<next_chan cs. mset (inbox cs d))"
    using False by (simp add: chan_send_def sum.remove [of "{..<next_chan cs}" c])
  with False show ?thesis by (simp add: delivered_def) (simp add: chan_send_def)
qed (simp add: delivered_def chan_send_def)

lemma delivered_new_chan: "chans_ok cs \<Longrightarrow> delivered (snd (new_chan cs)) = delivered cs"
  by (simp add: delivered_def new_chan_def chans_ok_def)

lemma delivered_drop_old [simp]: "delivered (drop_old old cs) = delivered cs"
  by (simp add: delivered_def)

lemma delivered_lost [simp]: "delivered (cs\<lparr>lost := l\<rparr>) = delivered cs"
  by (simp add: delivered_def)

lemma delivered_drop_rx [simp]: "delivered (chan_drop_rx c cs) = delivered cs"
  by (simp add: delivered_def chan_drop_rx_def)

lemma rv_inv_insert:
  assumes "rv_inv (st, ins)"
  shows "rv_inv (insert_inbound i s st, ins @ [(i, s)])"
proof -
  from assms have ok: "rv_chans_ok st" and d: "distinct (map fst (pending_inbound st))"
    and cons: "mset (map snd ins) = mset (map snd (pending_inbound st)) + (delivered (rv_chans st) + mset (lost (rv_chans st)))"
    by (auto simp: rv_inv_def)
  note ok' = rv_chans_ok_insert [OF ok, of i s]
  consider (notify) c where "map_of (rv_notifiers st) i = Some c"
    | (accept) c where "map_of (rv_notifiers st) i = None" "map_of (pending_accept st) i = Some c"
    | (store) "map_of (rv_notifiers st) i = None" "map_of (pending_accept st) i = None"
    by (metis option.exhaust)
  then show ?thesis
  proof cases
    case notify
    then have "c < next_chan (rv_chans st)" using ok vals_below_lookup by (auto simp: rv_chans_ok_def)
    then have "delivered (chan_send c s (rv_chans st)) + mset (lost (chan_send c s (rv_chans st)))
        = add_mset s (delivered (rv_chans st) + mset (lost (rv_chans st)))" by (rule delivered_send)
    moreover have "closed (chan_send c s (rv_chans st)) = closed (rv_chans st)"
      "closed (rv_chans st) = [] \<Longrightarrow> lost (chan_send c s (rv_chans st)) = lost (rv_chans st)"
      by (auto simp: chan_send_def)
    ultimately show ?thesis
      using assms notify ok' by (auto simp: rv_inv_def insert_inbound_def cons)
  next
    case accept
    then have "c < next_chan (rv_chans st)" using ok vals_below_lookup by (auto simp: rv_chans_ok_def)
    then have "delivered (chan_send c s (rv_chans st)) + mset (lost (chan_send c s (rv_chans st)))
        = add_mset s (delivered (rv_chans st) + mset (lost (rv_chans st)))" by (rule delivered_send)
    moreover have "closed (chan_send c s (rv_chans st)) = closed (rv_chans st)"
      "closed (rv_chans st) = [] \<Longrightarrow> lost (chan_send c s (rv_chans st)) = lost (rv_chans st)"
      by (auto simp: chan_send_def)
    ultimately show ?thesis
      using assms accept ok' by (auto simp: rv_inv_def insert_inbound_def cons store_simps)
  next
    case store
    have "i \<notin> fst ` set (pending_accept st)" using store(2) by (simp add: map_of_eq_None_iff)
    moreover have "mset (map snd (AList.update i s (pending_inbound st))) +
        mset (lost (drop_old (map_of (pending_inbound st) i) (rv_chans st)))
        = add_mset s (mset (map snd (pending_inbound st)) + mset (lost (rv_chans st)))"
      using mset_AList_update [OF d, of i s] by (auto simp: drop_old_def split: option.splits)
    moreover have "i \<notin> fst ` set ins \<Longrightarrow> map_of (pending_inbound st) i = None"
      using assms by (auto simp: rv_inv_def map_of_eq_None_iff)
    moreover have "closed (drop_old old (rv_chans st)) = closed (rv_chans st)" for old
      by (simp add: drop_old_def split: option.splits)
    ultimately show ?thesis
      using assms store ok'
      by (cases "map_of (pending_inbound st) i")
        (auto simp: rv_inv_def insert_inbound_def store_simps distinct_update drop_old_def)
  qed
qed

lemma rv_inv_accept:
  assumes "rv_inv (st, ins)"
  shows "rv_inv (snd (register_accept i st), ins)"
proof -
  let ?cs = "snd (new_chan (rv_chans st))"
  from assms have ok: "rv_chans_ok st" "chans_ok (rv_chans st)" and d: "distinct (map fst (pending_inbound st))"
    and cons: "mset (map snd ins) = mset (map snd (pending_inbound st)) + (delivered (rv_chans st) + mset (lost (rv_chans st)))"
    by (auto simp: rv_inv_def rv_chans_ok_def)
  note ok' = rv_chans_ok_accept [OF ok(1), of i]
  have new: "delivered ?cs = delivered (rv_chans st)" "lost ?cs = lost (rv_chans st)" "closed ?cs = closed (rv_chans st)"
    using delivered_new_chan [OF ok(2)] by (simp_all add: new_chan_def)
  show ?thesis
  proof (cases "map_of (pending_inbound st) i")
    case None
    then have "i \<notin> fst ` set (pending_inbound st)" by (simp add: map_of_eq_None_iff)
    moreover have "register_accept i st = (next_chan (rv_chans st),
        st\<lparr>pending_accept := AList.update i (next_chan (rv_chans st)) (pending_accept st), rv_chans := ?cs\<rparr>)"
      using None by (simp add: register_accept_def new_chan_def)
    ultimately show ?thesis using assms new ok' by (auto simp: rv_inv_def store_simps)
  next
    case (Some s)
    let ?cs' = "chan_send (next_chan (rv_chans st)) s ?cs"
    have "delivered ?cs' + mset (lost ?cs') = add_mset s (delivered (rv_chans st) + mset (lost (rv_chans st)))"
      using delivered_send [of "next_chan (rv_chans st)" ?cs s] new by simp
    moreover have "mset (map snd (pending_inbound st)) = add_mset s (mset (map snd (AList.delete i (pending_inbound st))))"
      using mset_AList_delete [OF d Some] .
    moreover have "register_accept i st = (next_chan (rv_chans st),
        st\<lparr>pending_inbound := AList.delete i (pending_inbound st), rv_chans := ?cs'\<rparr>)"
      using Some by (simp add: register_accept_def new_chan_def)
    moreover have "closed ?cs' = closed (rv_chans st)" "closed (rv_chans st) = [] \<Longrightarrow> lost ?cs' = lost (rv_chans st)"
      using new by (auto simp: chan_send_def)
    ultimately show ?thesis
      using assms ok' cons by (auto simp: rv_inv_def store_simps distinct_delete)
  qed
qed

lemma rv_inv_step: "rv_inv x \<Longrightarrow> rv_step x y \<Longrightarrow> rv_inv y"
proof (erule rv_step.cases)
  fix st c cs ins i
  assume inv: "rv_inv x" and x: "x = (st, ins)" and y: "y = (register_notify i c (st\<lparr>rv_chans := cs\<rparr>), ins)"
    and c: "new_chan (rv_chans st) = (c, cs)"
  from c have cs: "c = next_chan (rv_chans st)" "cs = snd (new_chan (rv_chans st))" by (auto simp: new_chan_def)
  have "chans_ok (rv_chans st)" using inv x by (simp add: rv_inv_def rv_chans_ok_def)
  then have "delivered cs = delivered (rv_chans st)" "lost cs = lost (rv_chans st)" "closed cs = closed (rv_chans st)"
    "next_chan cs = Suc (next_chan (rv_chans st))" "chans_ok cs"
    using delivered_new_chan chans_ok_new_chan unfolding cs by (auto simp: new_chan_def)
  with inv show "rv_inv y"
    by (auto simp: rv_inv_def x y register_notify_def rv_chans_ok_def cs(1))
next
  fix c st ins
  assume "rv_inv x" "x = (st, ins)" "y = (st\<lparr>rv_chans := chan_drop_rx c (rv_chans st)\<rparr>, ins)"
    "c < next_chan (rv_chans st)"
  then show "rv_inv y"
    by (auto simp: rv_inv_def rv_chans_ok_def chans_ok_def chan_drop_rx_def delivered_def)
qed (auto intro: rv_inv_insert rv_inv_accept)

interpretation rv_machine: state_machine "\<lambda>x. x = (rv_new, [])" rv_step rv_inv
proof
  fix x :: "'a rv_state"
  assume "x = (rv_new, [])"
  then show "rv_inv x"
    by (simp add: rv_inv_def rv_new_def rv_chans_ok_def chans_ok_def no_channels_def delivered_def)
qed (rule rv_inv_step)

section \<open>Properties\<close>

text \<open>Whichever comes first, the waiting caller gets the stream: for an id nobody has used yet,
  and after any traffic on other ids, accepting before the stream arrives and accepting after
  both put exactly that stream into the caller's channel, for remote and for local streams.\<close>

theorem rendezvous_either_order:
  assumes "rv_idle i st" "lh_idle j hub"
  shows "(case register_accept i (insert_inbound i s st) of (c, st') \<Rightarrow> rv_received c st' = [s]) \<and>
         (case register_accept i st of (c, st') \<Rightarrow> rv_received c (insert_inbound i s st') = [s]) \<and>
         (case accept_async j (lh_open j s hub) of (c, hub') \<Rightarrow> lh_received c hub' = [s]) \<and>
         (case accept_async j hub of (c, hub') \<Rightarrow> lh_received c (lh_open j s hub') = [s])"
  using remote.offer_then_claim [OF assms(1)] remote.claim_then_offer [OF assms(1)]
    local_streams.offer_then_claim [OF assms(2)] local_streams.claim_then_offer [OF assms(2)]
  by (auto split: prod.splits)

theorem rendezvous_either_order_witness:
  "(case register_accept 5 (insert_inbound 5 (7 :: nat) rv_new) of (c, st') \<Rightarrow> rv_received c st' = [7]) \<and>
   (case register_accept 5 rv_new of (c, st') \<Rightarrow> rv_received c (insert_inbound 5 (7 :: nat) st') = [7]) \<and>
   (case accept_async ''a'' (lh_open ''a'' (7 :: nat) lh_new) of (c, hub') \<Rightarrow> lh_received c hub' = [7]) \<and>
   (case accept_async ''a'' lh_new of (c, hub') \<Rightarrow> lh_received c (lh_open ''a'' (7 :: nat) hub') = [7])"
  by (rule rendezvous_either_order)
    (simp_all add: rv_idle_def rv_new_def rv_chans_ok_def chans_ok_def no_channels_def
      lh_idle_def lh_new_def lh_chans_ok_def)

text \<open>C7: No stream vanishes in the rendezvous map: in every reachable state, the streams inserted
  so far are exactly those still pending, those delivered to a channel and those dropped, and
  nothing is dropped while receivers stay alive and ids are not reused.\<close>

theorem rendezvous_conserves_streams:
  assumes "reach (\<lambda>x. x = (rv_new, [])) rv_step (st, ins)"
  shows "mset (map snd ins) = mset (map snd (pending_inbound st)) + delivered (rv_chans st) + mset (lost (rv_chans st)) \<and>
         (closed (rv_chans st) = [] \<longrightarrow> distinct (map fst ins) \<longrightarrow> lost (rv_chans st) = [])"
  using rv_machine.reach_inv [OF assms] by (auto simp: rv_inv_def)

theorem rendezvous_conserves_streams_witness:
  "mset (map snd [(7 :: u64, ''x'')]) = mset (map snd (pending_inbound (insert_inbound 7 ''x'' rv_new)))
      + delivered (rv_chans (insert_inbound 7 ''x'' rv_new)) + mset (lost (rv_chans (insert_inbound 7 ''x'' rv_new)))"
proof -
  have "rv_step (rv_new, []) (insert_inbound 7 ''x'' rv_new, [(7, ''x'')])"
    using rv_insert [of rv_new "[]"] by simp
  with reach_start have "reach (\<lambda>x. x = (rv_new, [])) rv_step (insert_inbound 7 ''x'' rv_new, [(7, ''x'')])"
    by (rule reach_step) simp
  from rendezvous_conserves_streams [OF this] show ?thesis by blast
qed

text \<open>The two locks of \<open>accept_async\<close> leave a gap: a stream opened after the check and before
  the registration goes to the pending map, the waiter's channel stays empty until its timeout,
  and the stream is still pending afterwards.\<close>

theorem accept_async_gap:
  assumes "lh_idle i hub" "lh_check i hub = (None, hub1)" "lh_register i (lh_open i s hub1) = (c, hub2)"
  shows "lh_received c hub2 = [] \<and> map_of (lh_pending hub2) i = Some s \<and>
         map_of (lh_pending (lh_timeout i c hub2)) i = Some s"
  using assms
  by (auto simp: lh_idle_def lh_check_def lh_register_def lh_open_def lh_received_def lh_timeout_def
      new_chan_def store_simps lh_chans_ok_def chans_ok_def split: option.splits)

theorem accept_async_gap_witness:
  "\<exists>c hub2. lh_register ''p'' (lh_open ''p'' (1 :: nat) lh_new) = (c, hub2) \<and>
     lh_received c hub2 = [] \<and> map_of (lh_pending hub2) ''p'' = Some 1 \<and>
     map_of (lh_pending (lh_timeout ''p'' c hub2)) ''p'' = Some 1"
proof -
  obtain c hub2 where r: "lh_register ''p'' (lh_open ''p'' (1 :: nat) lh_new) = (c, hub2)" by fastforce
  moreover have "lh_idle ''p'' lh_new" "lh_check ''p'' lh_new = (None, lh_new)"
    by (simp_all add: lh_idle_def lh_new_def lh_chans_ok_def chans_ok_def no_channels_def lh_check_def)
  ultimately show ?thesis using accept_async_gap [OF _ _ r] by blast
qed

end
