(* ===== verification/Bitmap.thy ===== *)
theory Bitmap
  imports Prelude
begin

text \<open>
  Layer bitmaps: which transformer layers of a model a file or a peer holds, as 256 bits in 32
  bytes. Built by the model analysis (\<open>Build_Layer_Bitmap\<close> of
  \<open>Src/ML_Engine/gguf_model_manager.rs\<close>), printed and parsed as hexadecimal in model files and in
  peer messages (\<open>Src/PeerManagement/peer_info.rs\<close>), shown to the user as ranges
  (\<open>SupportedModel::layer_range\<close>) and reduced to a span by the peer planner.
\<close>

unbundle bit_operations_syntax

type_synonym bitmap = bytes

section \<open>Building and reading\<close>

definition layer_bit :: "bitmap \<Rightarrow> nat \<Rightarrow> bool" where
  "layer_bit bm i \<longleftrightarrow> (bm ! (i div 8)) AND push_bit (i mod 8) 1 \<noteq> 0"

definition layers_of :: "bitmap \<Rightarrow> nat list" where
  "layers_of bm = filter (layer_bit bm) [0..<256]"

fun bitmap_from :: "(nat \<Rightarrow> bool) \<Rightarrow> nat list \<Rightarrow> bitmap \<Rightarrow> bitmap" where
  "bitmap_from present [] bm = bm"
| "bitmap_from present (i # is) bm =
     bitmap_from present is
       (if present i then
          (let byte_idx = i div 8; bit_idx = i mod 8 in
           if byte_idx < 32 then bm[byte_idx := (bm ! byte_idx) OR push_bit bit_idx 1] else bm)
        else bm)"

definition Build_Layer_Bitmap :: "(nat \<times> 'v) list \<Rightarrow> nat \<Rightarrow> bitmap" where
  "Build_Layer_Bitmap layer_tensors_map num_layers =
     bitmap_from (\<lambda>i. map_of layer_tensors_map i \<noteq> None) [0..<num_layers] (replicate 32 0)"

section \<open>Hexadecimal\<close>

definition hex_digit :: "nat \<Rightarrow> char" where
  "hex_digit d = char_of (if d < 10 then 48 + d else 87 + d)"

definition hex_val :: "char \<Rightarrow> nat option" where
  "hex_val c =
     (let n = (of_char c :: nat) in
      if 48 \<le> n \<and> n \<le> 57 then Some (n - 48)
      else if 97 \<le> n \<and> n \<le> 102 then Some (n - 87)
      else if 65 \<le> n \<and> n \<le> 70 then Some (n - 55) else None)"

text \<open>\<open>format!("{:02x}", b)\<close>.\<close>

definition hex_byte :: "u8 \<Rightarrow> string" where
  "hex_byte b = [hex_digit (unat b div 16), hex_digit (unat b mod 16)]"

fun hex_digits :: "nat \<Rightarrow> string \<Rightarrow> parse_int_error + nat" where
  "hex_digits acc [] = Inr acc"
| "hex_digits acc (c # cs) =
     (case hex_val c of
        None \<Rightarrow> Inl Invalid_Digit
      | Some d \<Rightarrow> if 255 < acc * 16 + d then Inl Pos_Overflow else hex_digits (acc * 16 + d) cs)"

text \<open>\<open>u8::from_str_radix(s, 16)\<close>, which accepts a leading plus sign.\<close>

definition u8_from_hex :: "string \<Rightarrow> parse_int_error + u8" where
  "u8_from_hex s =
     (case s of
        [] \<Rightarrow> Inl Int_Empty
      | c # cs \<Rightarrow>
          rbind (if c = CHR ''+'' then (if cs = [] then Inl Invalid_Digit else hex_digits 0 cs)
                 else hex_digits 0 s)
            (\<lambda>n. Inr (of_nat n)))"

text \<open>\<open>&s[i..j]\<close> panics unless both ends are character boundaries.\<close>

definition char_boundary :: "string \<Rightarrow> nat \<Rightarrow> bool" where
  "char_boundary s i \<longleftrightarrow> i = length s \<or> i < length s \<and> \<not> cont_byte (of_char (s ! i))"

definition str_slice :: "string \<Rightarrow> nat \<Rightarrow> nat \<Rightarrow> string option" where
  "str_slice s i j =
     (if i \<le> j \<and> char_boundary s i \<and> char_boundary s j then Some (take (j - i) (drop i s)) else None)"

datatype bitmap_error = Bad_Hex_Length | Bad_Hex_Digit parse_int_error | Slice_Panic

definition serialize_bitmap_hex :: "bitmap \<Rightarrow> string" where
  "serialize_bitmap_hex bm = concat (map hex_byte bm)"

fun deserialize_from :: "string \<Rightarrow> nat \<Rightarrow> nat \<Rightarrow> bitmap_error + bitmap" where
  "deserialize_from hex i 0 = Inr []"
| "deserialize_from hex i (Suc n) =
     rbind (ok_or Slice_Panic (str_slice hex (i * 2) (i * 2 + 2))) (\<lambda>p.
     rbind (map_err Bad_Hex_Digit (u8_from_hex p)) (\<lambda>b.
     rbind (deserialize_from hex (Suc i) n) (\<lambda>bm. Inr (b # bm))))"

definition deserialize_bitmap_hex :: "string \<Rightarrow> bitmap_error + bitmap" where
  "deserialize_bitmap_hex hex =
     (if length hex \<noteq> 64 then Inl Bad_Hex_Length else deserialize_from hex 0 32)"

definition Bitmap_To_Hex :: "bitmap \<Rightarrow> string" where
  "Bitmap_To_Hex bm = concat (map hex_byte bm)"

fun parse_bitmap_from :: "string \<Rightarrow> nat list \<Rightarrow> bitmap \<Rightarrow> bitmap_error + bitmap" where
  "parse_bitmap_from hex [] bm = Inr bm"
| "parse_bitmap_from hex (i # is) bm =
     rbind (ok_or Slice_Panic (str_slice hex (i * 2) (i * 2 + 2))) (\<lambda>p.
     parse_bitmap_from hex is
       (case u8_from_hex p of Inr b \<Rightarrow> bm[i := b] | Inl _ \<Rightarrow> bm))"

definition Parse_Bitmap_Hex :: "string \<Rightarrow> bitmap_error + bitmap" where
  "Parse_Bitmap_Hex hex =
     (let hex = str_trim hex in
      parse_bitmap_from hex [0..<min 32 (length hex div 2)] (replicate 32 0))"

section \<open>Ranges\<close>

text \<open>The grouping loop of \<open>layer_range\<close>: the current run is \<open>start..end\<close>.\<close>

fun layer_runs :: "nat \<Rightarrow> nat \<Rightarrow> nat list \<Rightarrow> (nat \<times> nat) list" where
  "layer_runs start stop [] = [(start, stop)]"
| "layer_runs start stop (l # ls) =
     (if l = stop + 1 then layer_runs start l ls else (start, stop) # layer_runs l l ls)"

definition show_run :: "nat \<times> nat \<Rightarrow> string" where
  "show_run r = (case r of (start, stop) \<Rightarrow>
     if start = stop then show_nat start else show_nat start @ ''-'' @ show_nat stop)"

definition layer_range :: "bitmap \<Rightarrow> string" where
  "layer_range bm =
     (case layers_of bm of
        [] \<Rightarrow> ''none''
      | l # ls \<Rightarrow> join_with '','' (map show_run (layer_runs l l ls)))"

text \<open>The reader of such a text, as a user would read it.\<close>

definition read_run :: "string \<Rightarrow> nat list" where
  "read_run s =
     (case split_on (CHR ''-'') s of
        [a] \<Rightarrow> (case parse_uint 255 a of Inr n \<Rightarrow> [n] | Inl _ \<Rightarrow> [])
      | [a, b] \<Rightarrow> (case (parse_uint 255 a, parse_uint 255 b) of (Inr m, Inr n) \<Rightarrow> [m..<Suc n] | _ \<Rightarrow> [])
      | _ \<Rightarrow> [])"

definition read_layer_range :: "string \<Rightarrow> nat list" where
  "read_layer_range s = (if s = ''none'' then [] else concat (map read_run (split_on (CHR '','') s)))"

text \<open>\<open>bitmap_range\<close> of the peer planner: lowest and highest bit, (0, 0) when there is none.\<close>

fun range_scan :: "bitmap \<Rightarrow> nat list \<Rightarrow> nat option \<Rightarrow> nat option \<Rightarrow> nat option \<times> nat option" where
  "range_scan bm [] mn mx = (mn, mx)"
| "range_scan bm (layer # ls) mn mx =
     (if layer_bit bm layer then range_scan bm ls (if mn = None then Some layer else mn) (Some layer)
      else range_scan bm ls mn mx)"

definition unwrap_or :: "'a \<Rightarrow> 'a option \<Rightarrow> 'a" where
  "unwrap_or d x = (case x of None \<Rightarrow> d | Some a \<Rightarrow> a)"

definition bitmap_range :: "bitmap \<Rightarrow> nat \<times> nat" where
  "bitmap_range bm = (case range_scan bm [0..<256] None None of (mn, mx) \<Rightarrow> (unwrap_or 0 mn, unwrap_or 0 mx))"

section \<open>Lemmas\<close>

lemma layer_bit_iff: "layer_bit bm i \<longleftrightarrow> bit (bm ! (i div 8)) (i mod 8)"
  by (simp only: layer_bit_def bit_iff_and_push_bit_not_eq_0)

lemma length_bitmap_from [simp]: "length (bitmap_from f is bm) = length bm"
  by (induction f "is" bm rule: bitmap_from.induct) (auto simp: Let_def)

lemma layer_bit_set:
  assumes "length bm = 32" "i div 8 < 32" "j < 256"
  shows "layer_bit (bm[i div 8 := (bm ! (i div 8)) OR push_bit (i mod 8) 1]) j \<longleftrightarrow> j = i \<or> layer_bit bm j"
proof (cases "j div 8 = i div 8")
  case True
  have "bit ((bm ! (i div 8)) OR push_bit (i mod 8) (1 :: u8)) (j mod 8) \<longleftrightarrow> bit (bm ! (i div 8)) (j mod 8) \<or> j mod 8 = i mod 8"
    by (auto simp: bit_simps)
  moreover have "j mod 8 = i mod 8 \<longleftrightarrow> j = i" using True by (metis div_mult_mod_eq)
  ultimately show ?thesis using True assms by (auto simp: layer_bit_iff)
next
  case False
  then show ?thesis by (auto simp: layer_bit_iff)
qed

lemma layer_bit_from:
  assumes "length bm = 32" "j < 256"
  shows "layer_bit (bitmap_from f is bm) j \<longleftrightarrow> layer_bit bm j \<or> (f j \<and> j \<in> set is)"
  using assms(1)
proof (induction f "is" bm rule: bitmap_from.induct)
  case (2 f i "is" bm)
  show ?case
  proof (cases "f i \<and> i div 8 < 32")
    case True
    then show ?thesis
      using 2 assms layer_bit_set [of bm i j] by (auto simp: Let_def)
  next
    case False
    moreover have "j = i \<Longrightarrow> \<not> f j" if "\<not> (f i \<and> i div 8 < 32)" using that assms(2) by auto
    ultimately show ?thesis using 2 by (auto simp: Let_def)
  qed
qed simp

lemma hex_val_digit [simp]: "d < 16 \<Longrightarrow> hex_val (hex_digit d) = Some d"
  by (auto simp: hex_val_def hex_digit_def)

lemma of_char_hex_digit: "d < 16 \<Longrightarrow> (of_char (hex_digit d) :: nat) = (if d < 10 then 48 + d else 87 + d)"
  by (simp add: hex_digit_def)

lemma graphic_hex_digit: "d < 16 \<Longrightarrow> graphic (hex_digit d)"
  by (simp add: graphic_def of_char_hex_digit)

lemma u8_from_hex_byte [simp]: "u8_from_hex (hex_byte b) = Inr b"
proof -
  have d: "unat b div 16 < 16" "unat b mod 16 < 16" by (simp_all add: less_mult_imp_div_less)
  then have "hex_digit (unat b div 16) \<noteq> CHR ''+''"
    using of_char_hex_digit [of "unat b div 16"] by (auto split: if_splits)
  moreover have "unat b div 16 * 16 + unat b mod 16 = unat b" by simp
  moreover have "unat b \<le> 255" using unat_u8_less [of b] by linarith
  ultimately show ?thesis using d by (simp add: u8_from_hex_def hex_byte_def)
qed

lemma length_hex [simp]: "length (concat (map hex_byte bm)) = 2 * length bm"
  by (induction bm) (auto simp: hex_byte_def)

lemma hex_no_cont: "c \<in> set (concat (map hex_byte bm)) \<Longrightarrow> graphic c \<and> \<not> cont_byte (of_char c)"
proof -
  assume "c \<in> set (concat (map hex_byte bm))"
  then obtain b where "c \<in> set (hex_byte b)" by auto
  then have "c = hex_digit (unat b div 16) \<or> c = hex_digit (unat b mod 16)"
    by (simp add: hex_byte_def)
  moreover have "unat b div 16 < 16" "unat b mod 16 < 16" by (simp_all add: less_mult_imp_div_less)
  ultimately have "graphic c" using graphic_hex_digit by blast
  then show ?thesis by (simp add: graphic_def cont_byte_def)
qed

lemma hex_boundary:
  assumes "i \<le> length bm"
  shows "char_boundary (concat (map hex_byte bm)) (2 * i)"
proof (cases "i = length bm")
  case False
  with assms have "2 * i < length (concat (map hex_byte bm))" by simp
  then show ?thesis using hex_no_cont nth_mem unfolding char_boundary_def by blast
qed (simp add: char_boundary_def)

lemma take_drop_hex:
  "i < length bm \<Longrightarrow> take 2 (drop (2 * i) (concat (map hex_byte bm))) = hex_byte (bm ! i)"
proof (induction bm arbitrary: i)
  case (Cons b bm)
  then show ?case by (cases i) (auto simp: hex_byte_def)
qed simp

lemma slice_hex [simp]:
  assumes "i < length bm"
  shows "str_slice (concat (map hex_byte bm)) (i * 2) (Suc (Suc (i * 2))) = Some (hex_byte (bm ! i))"
  using assms hex_boundary [of i bm] hex_boundary [of "Suc i" bm] take_drop_hex [OF assms]
  by (simp add: str_slice_def mult.commute)

lemma deserialize_from_hex:
  "i + n \<le> length bm \<Longrightarrow> deserialize_from (concat (map hex_byte bm)) i n = Inr (take n (drop i bm))"
  by (induction n arbitrary: i) (auto simp: take_Suc_conv_app_nth Cons_nth_drop_Suc [symmetric])

lemma parse_bitmap_from_hex:
  "i + n \<le> length bm \<Longrightarrow> length bm \<le> length acc \<Longrightarrow>
   parse_bitmap_from (concat (map hex_byte bm)) [i..<i + n] acc = Inr (take i acc @ take n (drop i bm) @ drop (i + n) acc)"
proof (induction n arbitrary: i acc)
  case (Suc n)
  have u: "[i..<i + Suc n] = i # [Suc i..<Suc i + n]" by (subst upt_rec) simp
  have "take (Suc i) (acc[i := bm ! i]) = take i acc @ [bm ! i]"
    using Suc.prems by (simp add: take_Suc_conv_app_nth)
  moreover have "take (Suc n) (drop i bm) = bm ! i # take n (drop (Suc i) bm)"
    using Suc.prems by (simp flip: Cons_nth_drop_Suc)
  ultimately show ?case
    using Suc.prems Suc.IH [of "Suc i" "acc[i := bm ! i]"] unfolding u by (simp del: upt_Suc)
qed simp

lemma layer_runs_expand:
  "start \<le> e \<Longrightarrow> concat (map (\<lambda>(a, b). [a..<Suc b]) (layer_runs start e ls)) = [start..<Suc e] @ ls"
proof (induction start e ls rule: layer_runs.induct)
  case (2 start e l ls)
  then show ?case by (cases "l = e + 1") (auto simp: upt_Suc_append)
qed simp

lemma layer_runs_bound: "(a, b) \<in> set (layer_runs start e ls) \<Longrightarrow> start \<le> e \<Longrightarrow> a \<le> b \<and> b \<in> insert e (set ls)"
  by (induction start e ls rule: layer_runs.induct) (fastforce split: if_splits)+

lemma layer_runs_not_Nil [simp]: "layer_runs a b ls \<noteq> []"
  by (induction a b ls rule: layer_runs.induct) auto

lemma show_nat_free: "of_char c < (48 :: nat) \<Longrightarrow> c \<notin> set (show_nat n)"
  using show_nat_chars [of c n] by auto

lemma read_show_run:
  "a \<le> b \<Longrightarrow> b < 256 \<Longrightarrow> read_run (show_run (a, b)) = [a..<Suc b]"
  by (simp add: read_run_def show_run_def show_nat_free)

lemma show_run_free: "CHR '','' \<notin> set (show_run r)"
  by (cases r) (auto simp: show_run_def show_nat_free)

lemma range_scan_Some:
  "range_scan bm ls (Some m) (Some x) = (Some m, Some (List.last (x # filter (layer_bit bm) ls)))"
  by (induction ls arbitrary: x) auto

lemma range_scan_None:
  "range_scan bm ls None None =
     (case filter (layer_bit bm) ls of [] \<Rightarrow> (None, None) | l # r \<Rightarrow> (Some l, Some (List.last (l # r))))"
  by (induction ls) (auto simp: range_scan_Some)

lemma bitmap_hex_codecs:
  assumes "length bm = 32"
  shows "deserialize_bitmap_hex (serialize_bitmap_hex bm) = Inr bm \<and>
         Parse_Bitmap_Hex (Bitmap_To_Hex bm) = Inr bm"
proof -
  let ?h = "concat (map hex_byte bm)"
  have "list_all graphic ?h" using hex_no_cont by (auto simp: list_all_iff simp del: set_concat)
  then have "str_trim ?h = ?h" by (rule str_trim_graphic)
  moreover have "parse_bitmap_from ?h [0..<0 + 32] (replicate 32 0) = Inr bm"
    using assms by (subst parse_bitmap_from_hex) simp_all
  ultimately show ?thesis
    using assms deserialize_from_hex [of 0 32 bm]
    by (simp add: serialize_bitmap_hex_def Bitmap_To_Hex_def deserialize_bitmap_hex_def
        Parse_Bitmap_Hex_def Let_def del: upt_Suc)
qed

section \<open>Properties\<close>

text \<open>The bitmap of a model has exactly the bits of the layers it holds: bit \<open>i\<close> is set if and
  only if \<open>i\<close> is below the layer count and the model has tensors for layer \<open>i\<close>; the bits of
  layers beyond 256 are dropped.\<close>

theorem Build_Layer_Bitmap_exact:
  "length (Build_Layer_Bitmap m n) = 32 \<and>
   layers_of (Build_Layer_Bitmap m n) = filter (\<lambda>i. i < n \<and> map_of m i \<noteq> None) [0..<256]"
proof -
  have "layer_bit (Build_Layer_Bitmap m n) i \<longleftrightarrow> i < n \<and> map_of m i \<noteq> None" if "i < 256" for i
    using that layer_bit_from [of "replicate 32 0" i] by (auto simp: Build_Layer_Bitmap_def layer_bit_iff)
  then show ?thesis by (auto simp: layers_of_def Build_Layer_Bitmap_def intro: filter_cong)
qed

text \<open>A bitmap survives both of its text encodings: what \<open>serialize_bitmap_hex\<close> and
  \<open>Bitmap_To_Hex\<close> print, \<open>deserialize_bitmap_hex\<close> and \<open>Parse_Bitmap_Hex\<close> read back, without a
  panic.\<close>

theorem bitmap_hex_roundtrip:
  assumes "length bm = 32"
  shows "deserialize_bitmap_hex (serialize_bitmap_hex bm) = Inr bm \<and>
         Parse_Bitmap_Hex (Bitmap_To_Hex bm) = Inr bm"
  by (rule bitmap_hex_codecs [OF assms])

theorem bitmap_hex_roundtrip_witness:
  "deserialize_bitmap_hex (serialize_bitmap_hex (replicate 32 171)) = Inr (replicate 32 171) \<and>
   Parse_Bitmap_Hex (Bitmap_To_Hex (replicate 32 171)) = Inr (replicate 32 171)"
  by (rule bitmap_hex_roundtrip) simp

text \<open>The range text shown for a model denotes exactly its layers: reading \<open>layer_range\<close> back
  gives the set bits in ascending order, for every bitmap.\<close>

theorem layer_range_denotes: "read_layer_range (layer_range bm) = layers_of bm"
proof (cases "layers_of bm")
  case Nil
  then show ?thesis by (simp add: layer_range_def read_layer_range_def)
next
  case (Cons l ls)
  let ?rs = "layer_runs l l ls"
  have lt: "x < 256" if "x \<in> set (l # ls)" for x
    using that unfolding Cons [symmetric] by (auto simp: layers_of_def)
  have rd: "map read_run (map show_run ?rs) = map (\<lambda>(a, b). [a..<Suc b]) ?rs"
  proof (clarsimp simp del: upt_Suc)
    fix a b
    assume "(a, b) \<in> set ?rs"
    then have "a \<le> b" "b < 256" using layer_runs_bound [of a b l l ls] lt by auto
    then show "read_run (show_run (a, b)) = [a..<Suc b]" by (rule read_show_run)
  qed
  have split: "split_on (CHR '','') (join_with '','' (map show_run ?rs)) = map show_run ?rs"
    by (rule split_join) (auto simp: show_run_free)
  have "join_with '','' (map show_run ?rs) \<noteq> ''none''"
  proof
    assume n: "join_with '','' (map show_run ?rs) = ''none''"
    from split [unfolded n] have "map show_run ?rs = [''none'']" by simp
    then obtain r where "show_run r = ''none''" by (auto simp: map_eq_Cons_conv)
    then have "CHR ''o'' \<in> set (show_run r)" by simp
    then show False
      using show_nat_chars [of "CHR ''o''"] by (auto simp: show_run_def split: prod.splits if_splits)
  qed
  then have "read_layer_range (layer_range bm) = concat (map read_run (map show_run ?rs))"
    by (simp only: layer_range_def Cons list.case read_layer_range_def split if_False)
  then show ?thesis
    unfolding rd layer_runs_expand [OF order_refl] Cons by simp
qed

end
