(* ===== verification/Peers.thy ===== *)
theory Peers
  imports Bitmap
begin

text \<open>
  The peer directory (\<open>Src/PeerManagement/peer_info.rs\<close>, \<open>peer_manager.rs\<close>): one entry per known
  node, the local node among them. A peer id is its base58 text and an address its text;
  \<open>Instant::now()\<close> is an argument. Each method holds the lock of the map for its whole body, so
  it is one atomic operation on the map.
\<close>

section \<open>Data\<close>

type_synonym peer_id = string
type_synonym multiaddr = string

record SupportedModel =
  sm_id :: u32
  sm_file_name :: string
  sm_layer_bitmap :: bitmap

record PeerProfile =
  latency_ms :: "u64 option"

record SessionSummary =
  ss_session_id :: u64
  ss_model_id :: string
  ss_occupied_slots :: nat
  ss_total_slots :: nat

record PeerInfo =
  pi_peer_id :: peer_id
  pi_name :: string
  pi_addresses :: "multiaddr list"
  pi_local :: bool
  pi_connected_at :: nat
  pi_last_active :: nat
  pi_profile :: PeerProfile
  pi_supported_models :: "SupportedModel list"
  pi_sessions :: "SessionSummary list"

definition PeerProfile_default :: PeerProfile where
  "PeerProfile_default = \<lparr>latency_ms = None\<rparr>"

definition PeerInfo_new :: "nat \<Rightarrow> peer_id \<Rightarrow> multiaddr list \<Rightarrow> PeerInfo" where
  "PeerInfo_new now peer addresses =
     \<lparr>pi_peer_id = peer, pi_name = [], pi_addresses = addresses, pi_local = False,
      pi_connected_at = now, pi_last_active = now, pi_profile = PeerProfile_default,
      pi_supported_models = [], pi_sessions = []\<rparr>"

definition PeerInfo_new_local :: "nat \<Rightarrow> peer_id \<Rightarrow> string \<Rightarrow> PeerInfo" where
  "PeerInfo_new_local now peer name =
     \<lparr>pi_peer_id = peer, pi_name = name, pi_addresses = [], pi_local = True,
      pi_connected_at = now, pi_last_active = now, pi_profile = PeerProfile_default,
      pi_supported_models = [], pi_sessions = []\<rparr>"

definition display_name :: "PeerInfo \<Rightarrow> string" where
  "display_name p =
     (if pi_name p = [] then ''unknown''
      else let peer_str = pi_peer_id p;
               suffix = (if length peer_str \<ge> 4 then drop (length peer_str - 4) peer_str else peer_str)
           in pi_name p @ ''#'' @ suffix)"

definition pi_update_profile :: "nat \<Rightarrow> PeerProfile \<Rightarrow> PeerInfo \<Rightarrow> PeerInfo" where
  "pi_update_profile now profile p =
     (let p = (case latency_ms profile of
                 Some v \<Rightarrow> p\<lparr>pi_profile := (pi_profile p)\<lparr>latency_ms := Some v\<rparr>\<rparr>
               | None \<Rightarrow> p)
      in p\<lparr>pi_last_active := now\<rparr>)"

definition pi_update_supported_models :: "nat \<Rightarrow> SupportedModel list \<Rightarrow> PeerInfo \<Rightarrow> PeerInfo" where
  "pi_update_supported_models now models p = p\<lparr>pi_supported_models := models, pi_last_active := now\<rparr>"

definition pi_update_sessions :: "nat \<Rightarrow> SessionSummary list \<Rightarrow> PeerInfo \<Rightarrow> PeerInfo" where
  "pi_update_sessions now sessions p = p\<lparr>pi_sessions := sessions, pi_last_active := now\<rparr>"

section \<open>The manager\<close>

datatype Peer_Management_Error = PeerNotFound string

type_synonym peer_map = "(peer_id \<times> PeerInfo) list"

definition pm_new :: "nat \<Rightarrow> peer_id \<Rightarrow> string \<Rightarrow> peer_map" where
  "pm_new now local_peer_id name = [(local_peer_id, PeerInfo_new_local now local_peer_id name)]"

definition upsert_peer :: "PeerInfo \<Rightarrow> peer_map \<Rightarrow> bool \<times> peer_map" where
  "upsert_peer peer_info peers =
     (let peer_info =
        (case map_of peers (pi_peer_id peer_info) of
           None \<Rightarrow> peer_info
         | Some old \<Rightarrow>
             let p = peer_info\<lparr>pi_connected_at := pi_connected_at old, pi_last_active := pi_last_active old,
                               pi_profile := pi_profile old, pi_supported_models := pi_supported_models old,
                               pi_local := pi_local old\<rparr>
             in if pi_name p = [] then p\<lparr>pi_name := pi_name old\<rparr> else p);
          existed = (map_of peers (pi_peer_id peer_info) \<noteq> None)
      in (existed, AList.update (pi_peer_id peer_info) peer_info peers))"

definition remove_peer :: "peer_id \<Rightarrow> peer_map \<Rightarrow> PeerInfo option \<times> peer_map" where
  "remove_peer peer peers =
     (case map_of peers peer of
        Some info \<Rightarrow> if pi_local info then (None, peers) else (Some info, AList.delete peer peers)
      | None \<Rightarrow> (None, AList.delete peer peers))"

definition get_all_peers :: "peer_map \<Rightarrow> PeerInfo list" where
  "get_all_peers peers = map snd peers"

definition get_local_peer :: "peer_map \<Rightarrow> PeerInfo option" where
  "get_local_peer peers = find pi_local (map snd peers)"

definition get_peer_by_name :: "string \<Rightarrow> peer_map \<Rightarrow> PeerInfo option" where
  "get_peer_by_name name peers = find (\<lambda>p. display_name p = name) (map snd peers)"

text \<open>\<open>values_mut().find(..)\<close>: the first value with the property is changed in place.\<close>

fun update_first :: "('v \<Rightarrow> bool) \<Rightarrow> ('v \<Rightarrow> 'v) \<Rightarrow> ('k \<times> 'v) list \<Rightarrow> ('k \<times> 'v) list option" where
  "update_first q f [] = None"
| "update_first q f ((k, v) # al) =
     (if q v then Some ((k, f v) # al)
      else case update_first q f al of None \<Rightarrow> None | Some al' \<Rightarrow> Some ((k, v) # al'))"

definition set_local_name :: "string \<Rightarrow> peer_map \<Rightarrow> Peer_Management_Error + peer_map" where
  "set_local_name name peers =
     (case update_first pi_local (\<lambda>p. p\<lparr>pi_name := name\<rparr>) peers of
        Some peers' \<Rightarrow> Inr peers'
      | None \<Rightarrow> Inl (PeerNotFound ''local''))"

text \<open>\<open>get_mut\<close> followed by a change of the entry.\<close>

definition modify_peer ::
  "peer_id \<Rightarrow> (PeerInfo \<Rightarrow> PeerInfo) \<Rightarrow> peer_map \<Rightarrow> Peer_Management_Error + peer_map" where
  "modify_peer peer f peers =
     (case map_of peers peer of
        Some p \<Rightarrow> Inr (AList.update peer (f p) peers)
      | None \<Rightarrow> Inl (PeerNotFound peer))"

definition update_profile :: "nat \<Rightarrow> peer_id \<Rightarrow> PeerProfile \<Rightarrow> peer_map \<Rightarrow> Peer_Management_Error + peer_map" where
  "update_profile now peer profile peers = modify_peer peer (pi_update_profile now profile) peers"

definition update_supported_models ::
  "nat \<Rightarrow> peer_id \<Rightarrow> SupportedModel list \<Rightarrow> peer_map \<Rightarrow> Peer_Management_Error + peer_map" where
  "update_supported_models now peer models peers = modify_peer peer (pi_update_supported_models now models) peers"

definition update_sessions ::
  "nat \<Rightarrow> peer_id \<Rightarrow> SessionSummary list \<Rightarrow> peer_map \<Rightarrow> Peer_Management_Error + peer_map" where
  "update_sessions now peer sessions peers = modify_peer peer (pi_update_sessions now sessions) peers"

definition pm_clear :: "peer_map \<Rightarrow> peer_map" where
  "pm_clear peers = filter (\<lambda>(_, info). pi_local info) peers"

text \<open>The capability trait: the same operations with \<open>None\<close> turned into an error.\<close>

definition Get_Local_Peer :: "peer_map \<Rightarrow> Peer_Management_Error + PeerInfo" where
  "Get_Local_Peer peers = ok_or (PeerNotFound ''local'') (get_local_peer peers)"

definition Get_Peer_By_Name :: "string \<Rightarrow> peer_map \<Rightarrow> Peer_Management_Error + PeerInfo" where
  "Get_Peer_By_Name name peers = ok_or (PeerNotFound name) (get_peer_by_name name peers)"

definition Remove_Peer :: "peer_id \<Rightarrow> peer_map \<Rightarrow> (Peer_Management_Error + PeerInfo) \<times> peer_map" where
  "Remove_Peer peer peers = (case remove_peer peer peers of (r, peers') \<Rightarrow> (ok_or (PeerNotFound peer) r, peers'))"

text \<open>A call whose error the caller ignores or only logs.\<close>

definition keep_on_error :: "('s \<Rightarrow> 'e + 's) \<Rightarrow> 's \<Rightarrow> 's" where
  "keep_on_error f s = (case f s of Inl _ \<Rightarrow> s | Inr s' \<Rightarrow> s')"

section \<open>The local node\<close>

text \<open>
  The invariant: keys are distinct and agree with the entries, and the entry of the node that
  was created with the manager, and no other, is local.
\<close>

definition peers_inv :: "peer_id \<Rightarrow> peer_map \<Rightarrow> bool" where
  "peers_inv me peers \<longleftrightarrow>
     distinct (map fst peers) \<and> me \<in> fst ` set peers \<and>
     (\<forall>(k, p) \<in> set peers. pi_peer_id p = k \<and> (pi_local p \<longleftrightarrow> k = me))"

text \<open>Everything the rest of the program does to the directory: it inserts entries made by
  \<open>PeerInfo::new\<close> (possibly with a name), which are never local.\<close>

inductive peers_step :: "peer_map \<Rightarrow> peer_map \<Rightarrow> bool" where
  ps_upsert: "\<not> pi_local info \<Longrightarrow> peers_step peers (snd (upsert_peer info peers))"
| ps_remove: "peers_step peers (snd (Remove_Peer peer peers))"
| ps_name: "set_local_name name peers = Inr peers' \<Longrightarrow> peers_step peers peers'"
| ps_profile: "update_profile now peer profile peers = Inr peers' \<Longrightarrow> peers_step peers peers'"
| ps_models: "update_supported_models now peer models peers = Inr peers' \<Longrightarrow> peers_step peers peers'"
| ps_sessions: "update_sessions now peer sessions peers = Inr peers' \<Longrightarrow> peers_step peers peers'"
| ps_clear: "peers_step peers (pm_clear peers)"

lemma peers_inv_lookup:
  "peers_inv me peers \<Longrightarrow> map_of peers k = Some p \<Longrightarrow> pi_peer_id p = k \<and> (pi_local p \<longleftrightarrow> k = me)"
  by (force simp: peers_inv_def dest: map_of_SomeD)

lemma peers_inv_me: "peers_inv me peers \<Longrightarrow> \<exists>p. map_of peers me = Some p"
  unfolding peers_inv_def by (metis not_Some_eq map_of_eq_None_iff)

lemma peers_inv_update:
  assumes "peers_inv me peers" "pi_peer_id p = k" "pi_local p \<longleftrightarrow> k = me"
  shows "peers_inv me (AList.update k p peers)"
  using assms by (auto simp: peers_inv_def set_AList_update distinct_update image_iff)

lemma update_first_keys: "update_first q f al = Some al' \<Longrightarrow> map fst al' = map fst al"
  by (induction q f al arbitrary: al' rule: update_first.induct) (auto split: if_splits option.splits)

lemma update_first_set:
  "update_first q f al = Some al' \<Longrightarrow> (k, v) \<in> set al' \<Longrightarrow> (k, v) \<in> set al \<or> (\<exists>w. (k, w) \<in> set al \<and> v = f w)"
  by (induction q f al arbitrary: al' rule: update_first.induct) (fastforce split: if_splits option.splits)+

lemma peers_inv_modify:
  assumes "peers_inv me peers" "modify_peer k f peers = Inr peers'"
    and "\<And>p. pi_peer_id (f p) = pi_peer_id p" "\<And>p. pi_local (f p) = pi_local p"
  shows "peers_inv me peers'"
  using assms peers_inv_lookup [OF assms(1), of k]
  by (auto simp: modify_peer_def split: option.splits intro!: peers_inv_update)

lemma peers_inv_upsert:
  assumes inv: "peers_inv me peers" and "\<not> pi_local info"
  shows "peers_inv me (snd (upsert_peer info peers))"
proof (cases "map_of peers (pi_peer_id info)")
  case None
  with peers_inv_me [OF inv] have "pi_peer_id info \<noteq> me" by auto
  with None assms show ?thesis by (simp add: upsert_peer_def peers_inv_update)
next
  case (Some old)
  with peers_inv_lookup [OF inv Some] inv show ?thesis
    by (auto simp: upsert_peer_def Let_def intro!: peers_inv_update)
qed

lemma peers_inv_remove:
  assumes inv: "peers_inv me peers"
  shows "peers_inv me (snd (Remove_Peer k peers))"
proof (cases "k = me")
  case True
  with peers_inv_me [OF inv] peers_inv_lookup [OF inv] obtain p where "map_of peers k = Some p" "pi_local p" by auto
  with inv show ?thesis by (simp add: Remove_Peer_def remove_peer_def)
next
  case False
  have "peers_inv me (AList.delete k peers)"
    using inv False by (auto simp: peers_inv_def set_AList_delete distinct_delete image_iff)
  with inv show ?thesis by (simp add: Remove_Peer_def remove_peer_def split: option.splits)
qed

lemma peers_inv_name:
  assumes inv: "peers_inv me peers" and "set_local_name name peers = Inr peers'"
  shows "peers_inv me peers'"
proof -
  let ?f = "\<lambda>p. p\<lparr>pi_name := name\<rparr>"
  from assms(2) have u: "update_first pi_local ?f peers = Some peers'"
    by (auto simp: set_local_name_def split: option.splits)
  have k: "map fst peers' = map fst peers" using update_first_keys [OF u] .
  then have "fst ` set peers' = fst ` set peers" by (metis set_map)
  moreover have "pi_peer_id p = k \<and> (pi_local p \<longleftrightarrow> k = me)" if "(k, p) \<in> set peers'" for k p
    using update_first_set [OF u that] inv by (auto simp: peers_inv_def)
  ultimately show ?thesis using inv k by (auto simp: peers_inv_def)
qed

lemma peers_inv_clear: "peers_inv me peers \<Longrightarrow> peers_inv me (pm_clear peers)"
  unfolding peers_inv_def pm_clear_def
  by (force simp: distinct_map_filter split_beta)

lemma pi_update_keeps [simp]:
  "pi_peer_id (pi_update_profile now pr p) = pi_peer_id p" "pi_local (pi_update_profile now pr p) = pi_local p"
  "pi_peer_id (pi_update_supported_models now ms p) = pi_peer_id p"
  "pi_local (pi_update_supported_models now ms p) = pi_local p"
  "pi_peer_id (pi_update_sessions now ss p) = pi_peer_id p" "pi_local (pi_update_sessions now ss p) = pi_local p"
  by (simp_all add: pi_update_profile_def pi_update_supported_models_def pi_update_sessions_def Let_def
      split: option.splits)

lemma peers_inv_step: "peers_inv me peers \<Longrightarrow> peers_step peers peers' \<Longrightarrow> peers_inv me peers'"
  by (erule peers_step.cases)
    (auto simp: peers_inv_upsert peers_inv_remove peers_inv_clear peers_inv_name update_profile_def
      update_supported_models_def update_sessions_def elim!: peers_inv_modify)

lemma peers_inv_new: "peers_inv me (pm_new now me name)"
  by (simp add: peers_inv_def pm_new_def PeerInfo_new_local_def)

interpretation peer_machine: state_machine "\<lambda>s. s = pm_new now me name" peers_step "peers_inv me"
  for now me name
  by unfold_locales (auto simp: peers_inv_new intro: peers_inv_step)

lemma get_local_peer_inv:
  assumes inv: "peers_inv me peers"
  shows "get_local_peer peers = map_of peers me"
proof -
  obtain p where p: "map_of peers me = Some p" using peers_inv_me [OF inv] by blast
  then have mem: "p \<in> set (map snd peers)" by (force dest: map_of_SomeD)
  have uniq: "q = p" if q: "q \<in> set (map snd peers)" "pi_local q" for q
  proof -
    from q obtain k where "(k, q) \<in> set peers" by auto
    moreover from this q(2) inv have "k = me" "distinct (map fst peers)" by (auto simp: peers_inv_def)
    ultimately have "map_of peers me = Some q" by simp
    with p show ?thesis by simp
  qed
  have "pi_local p" using peers_inv_lookup [OF inv p] by simp
  then have "find pi_local (map snd peers) = Some p"
    using mem uniq by (intro find_unique)
  with p show ?thesis by (simp add: get_local_peer_def)
qed

section \<open>Properties\<close>

text \<open>C35: The local node is always known and unique: after any sequence of directory operations,
  \<open>Get_Local_Peer\<close> returns the entry of the node the manager was created for, no other entry is
  local, and removing the local node or clearing the directory keeps it.\<close>

theorem local_peer_always_present:
  assumes "reach (\<lambda>s. s = pm_new now me name) peers_step peers"
  shows "\<exists>p. Get_Local_Peer peers = Inr p \<and> pi_peer_id p = me \<and> map_of peers me = Some p \<and>
             (\<forall>k q. map_of peers k = Some q \<longrightarrow> pi_peer_id q = k \<and> (pi_local q \<longleftrightarrow> k = me)) \<and>
             Remove_Peer me peers = (Inl (PeerNotFound me), peers) \<and>
             map_of (pm_clear peers) = [me \<mapsto> p]"
proof -
  have inv: "peers_inv me peers" using peer_machine.reach_inv [OF assms] .
  obtain p where p: "map_of peers me = Some p" using peers_inv_me [OF inv] by blast
  have pl: "pi_peer_id p = me" "pi_local p" using peers_inv_lookup [OF inv p] by auto
  have "Remove_Peer me peers = (Inl (PeerNotFound me), peers)"
    using p pl by (simp add: Remove_Peer_def remove_peer_def)
  moreover have "map_of (pm_clear peers) k = [me \<mapsto> p] k" for k
  proof -
    have d: "distinct (map fst peers)" using inv by (simp add: peers_inv_def)
    then have "map_of (pm_clear peers) k = (case map_of peers k of Some q \<Rightarrow> if pi_local q then Some q else None | None \<Rightarrow> None)"
      unfolding pm_clear_def by (induction peers) (auto split: option.splits simp: rev_image_eqI dest!: map_of_SomeD)
    then show ?thesis using p pl peers_inv_lookup [OF inv, of k] by (auto split: option.splits)
  qed
  ultimately show ?thesis
    using p pl peers_inv_lookup [OF inv] get_local_peer_inv [OF inv]
    by (intro exI [of _ p]) (auto simp: Get_Local_Peer_def)
qed

theorem local_peer_always_present_witness:
  "\<exists>p. Get_Local_Peer (pm_new 0 ''A'' ''n'') = Inr p \<and> pi_peer_id p = ''A'' \<and>
       map_of (pm_new 0 ''A'' ''n'') ''A'' = Some p \<and>
       Remove_Peer ''A'' (pm_new 0 ''A'' ''n'') = (Inl (PeerNotFound ''A''), pm_new 0 ''A'' ''n'') \<and>
       map_of (pm_clear (pm_new 0 ''A'' ''n'')) = [''A'' \<mapsto> p]"
proof -
  have "reach (\<lambda>s. s = pm_new 0 ''A'' ''n'') peers_step (pm_new 0 ''A'' ''n'')" by (rule reach_start) (rule refl)
  from local_peer_always_present [OF this] show ?thesis by blast
qed

text \<open>What an insertion keeps: a new peer is stored as given; for a known peer the timestamps,
  the profile, the models and the local flag of the old entry stay, the name stays when the new
  one is empty, and the addresses and the session list are those of the new entry. Other
  entries are untouched.\<close>

theorem upsert_peer_merges:
  "map_of (snd (upsert_peer info peers)) k =
     (if k \<noteq> pi_peer_id info then map_of peers k
      else Some (case map_of peers k of
          None \<Rightarrow> info
        | Some old \<Rightarrow>
            \<lparr>pi_peer_id = pi_peer_id info, pi_name = (if pi_name info = [] then pi_name old else pi_name info),
             pi_addresses = pi_addresses info, pi_local = pi_local old,
             pi_connected_at = pi_connected_at old, pi_last_active = pi_last_active old,
             pi_profile = pi_profile old, pi_supported_models = pi_supported_models old,
             pi_sessions = pi_sessions info\<rparr>)) \<and>
   (fst (upsert_peer info peers) \<longleftrightarrow> map_of peers (pi_peer_id info) \<noteq> None)"
  by (auto simp: upsert_peer_def Let_def store_simps split: option.splits)

end
