(* ===== verification/Node.thy ===== *)
theory Node
  imports Codec Peers
begin

text \<open>
  The network service: the request managers (\<open>Src/Network/Request_Response/inbound.rs\<close> and
  \<open>outbound.rs\<close>), the node handle (\<open>node_handle.rs\<close>), the command handler
  (\<open>command_handler.rs\<close>) and the swarm event handlers (\<open>swarm_events.rs\<close>). One event is handled at
  a time by the loop of \<open>Network_Service\<close>, so each handler is a function on the state. What a
  handler asks of libp2p is recorded as a list of swarm actions; the ids libp2p gives to outbound
  requests are arguments of the handlers. Log output is left out. The JSON encoders of
  \<open>serde_json\<close> are a parameter.
\<close>

section \<open>Messages\<close>

type_synonym rchan = nat
type_synonym waiter = nat
type_synonym outbound_id = nat

record InboundRequest =
  ir_request_id :: u64
  ir_peer :: peer_id
  ir_data_type :: DataType
  ir_payload :: bytes

datatype NodeCommand =
    SendData peer_id DataType bytes "waiter option"
  | SendResponse u64 DataType bytes
  | PutRecord bytes bytes
  | GetRecord bytes
  | Dial multiaddr
  | Disconnect peer_id
  | Stop

datatype swarm_action =
    Sw_Request outbound_id peer_id Network_Data
  | Sw_Response rchan Network_Data
  | Sw_Put bytes bytes
  | Sw_Get bytes
  | Sw_Dial multiaddr
  | Sw_Disconnect peer_id
  | Sw_Add_Address peer_id multiaddr

text \<open>The JSON state events: the constructors are the values of their \<open>type\<close> field.\<close>

datatype state_event =
    Ev_Peer_Connected peer_id
  | Ev_Peer_Disconnected peer_id
  | Ev_Peer_Discovered peer_id
  | Ev_Peer_Left peer_id
  | Ev_Peer_Info_Updated peer_id string bool "(string \<times> string) list" "SessionSummary list"

datatype ping_result = Ping_Ok nat | Ping_Timeout | Ping_Unsupported | Ping_Other

datatype swarm_event =
    Se_Discovered "(peer_id \<times> multiaddr) list"
  | Se_Expired "(peer_id \<times> multiaddr) list"
  | Se_Kademlia
  | Se_Request peer_id Network_Data rchan
  | Se_Response outbound_id Network_Data
  | Se_Outbound_Failure outbound_id string
  | Se_Inbound_Failure
  | Se_Response_Sent
  | Se_Established peer_id multiaddr
  | Se_Closed peer_id
  | Se_New_Listen_Addr multiaddr
  | Se_Ping peer_id ping_result
  | Se_Other

section \<open>Request managers\<close>

record Inbound_Manager =
  pending_replies :: "(u64 \<times> rchan) list"
  inbound_sent :: "InboundRequest list"
  inbound_alive :: bool
  next_inbound_id :: u64

definition Inbound_New :: Inbound_Manager where
  "Inbound_New = \<lparr>pending_replies = [], inbound_sent = [], inbound_alive = True, next_inbound_id = 1\<rparr>"

text \<open>\<open>inbound_tx.send\<close> fails when the receiver in the orchestrator is gone.\<close>

definition Register_Inbound :: "peer_id \<Rightarrow> Network_Data \<Rightarrow> rchan \<Rightarrow> Inbound_Manager \<Rightarrow> u64 \<times> Inbound_Manager" where
  "Register_Inbound peer request channel im =
     (let request_id = next_inbound_id im;
          im = im\<lparr>next_inbound_id := next_inbound_id im + 1,
                  pending_replies := AList.update request_id channel (pending_replies im)\<rparr>;
          inbound = \<lparr>ir_request_id = request_id, ir_peer = peer, ir_data_type = data_type request,
                     ir_payload = payload request\<rparr>
      in if inbound_alive im then (request_id, im\<lparr>inbound_sent := inbound_sent im @ [inbound]\<rparr>)
         else (request_id, im\<lparr>pending_replies := AList.delete request_id (pending_replies im)\<rparr>))"

definition Take_Reply_Channel :: "u64 \<Rightarrow> Inbound_Manager \<Rightarrow> rchan option \<times> Inbound_Manager" where
  "Take_Reply_Channel request_id im =
     (map_of (pending_replies im) request_id,
      im\<lparr>pending_replies := AList.delete request_id (pending_replies im)\<rparr>)"

definition Inbound_Clear_All :: "Inbound_Manager \<Rightarrow> Inbound_Manager" where
  "Inbound_Clear_All im = im\<lparr>pending_replies := []\<rparr>"

text \<open>A \<open>oneshot\<close> sender is a waiter; \<open>answers\<close> is what the waiters have been sent, in order.\<close>

record Outbound_Manager =
  pending_responses :: "(outbound_id \<times> waiter) list"
  answers :: "(waiter \<times> (string + Network_Data)) list"

definition Outbound_New :: Outbound_Manager where
  "Outbound_New = \<lparr>pending_responses = [], answers = []\<rparr>"

definition Register_Outbound :: "outbound_id \<Rightarrow> waiter \<Rightarrow> Outbound_Manager \<Rightarrow> Outbound_Manager" where
  "Register_Outbound oid tx om = om\<lparr>pending_responses := AList.update oid tx (pending_responses om)\<rparr>"

definition Route_Response :: "outbound_id \<Rightarrow> Network_Data \<Rightarrow> Outbound_Manager \<Rightarrow> Outbound_Manager" where
  "Route_Response oid response om =
     (case map_of (pending_responses om) oid of
        Some tx \<Rightarrow> om\<lparr>pending_responses := AList.delete oid (pending_responses om),
                      answers := answers om @ [(tx, Inr response)]\<rparr>
      | None \<Rightarrow> om)"

definition Route_Failure :: "outbound_id \<Rightarrow> string \<Rightarrow> Outbound_Manager \<Rightarrow> Outbound_Manager" where
  "Route_Failure oid err om =
     (case map_of (pending_responses om) oid of
        Some tx \<Rightarrow> om\<lparr>pending_responses := AList.delete oid (pending_responses om),
                      answers := answers om @ [(tx, Inl err)]\<rparr>
      | None \<Rightarrow> om)"

definition Outbound_Clear_All :: "Outbound_Manager \<Rightarrow> Outbound_Manager" where
  "Outbound_Clear_All om =
     om\<lparr>pending_responses := [],
        answers := answers om @ map (\<lambda>(_, tx). (tx, Inl ''Network_Service stopped'')) (pending_responses om)\<rparr>"

section \<open>The node handle\<close>

datatype send_error = Cmd_Channel_Closed | Response_Timeout | Response_Channel_Closed | Remote_Error string

text \<open>
  \<open>reply\<close> is what the waiter's receiver yields before the timeout: nothing, a closed channel or
  an answer. The other methods of the handle only send their command.
\<close>

definition Send_Data ::
  "bool \<Rightarrow> (string + Network_Data) option option \<Rightarrow> send_error + Network_Data" where
  "Send_Data cmd_open reply =
     (if \<not> cmd_open then Inl Cmd_Channel_Closed
      else case reply of
             None \<Rightarrow> Inl Response_Timeout
           | Some None \<Rightarrow> Inl Response_Channel_Closed
           | Some (Some (Inl e)) \<Rightarrow> Inl (Remote_Error e)
           | Some (Some (Inr d)) \<Rightarrow> Inr d)"

section \<open>The node\<close>

record json_codec =
  models_to_json :: "SupportedModel list \<Rightarrow> string option"
  models_from_json :: "string \<Rightarrow> SupportedModel list option"
  sessions_to_json :: "SessionSummary list \<Rightarrow> string option"
  sessions_from_json :: "string \<Rightarrow> SessionSummary list option"

record node =
  local_peer_id :: peer_id
  peer_handle :: peer_map
  inbound_manager :: Inbound_Manager
  outbound_manager :: Outbound_Manager
  swarm_log :: "swarm_action list"
  bus :: "state_event list"

definition do_swarm :: "swarm_action \<Rightarrow> node \<Rightarrow> node" where
  "do_swarm a nd = nd\<lparr>swarm_log := swarm_log nd @ [a]\<rparr>"

definition publish :: "state_event \<Rightarrow> node \<Rightarrow> node" where
  "publish e nd = nd\<lparr>bus := bus nd @ [e]\<rparr>"

definition on_peers :: "(peer_map \<Rightarrow> peer_map) \<Rightarrow> node \<Rightarrow> node" where
  "on_peers f nd = nd\<lparr>peer_handle := f (peer_handle nd)\<rparr>"

definition build_local_info_payload :: "json_codec \<Rightarrow> PeerInfo \<Rightarrow> string" where
  "build_local_info_payload jc local =
     (let models_json = unwrap_or ''[]'' (models_to_json jc (pi_supported_models local));
          sessions_json = unwrap_or ''[]'' (sessions_to_json jc (pi_sessions local))
      in pi_name local @ ''|'' @ models_json @ ''|'' @ sessions_json)"

definition models_display :: "SupportedModel list \<Rightarrow> (string \<times> string) list" where
  "models_display models = map (\<lambda>m. (sm_file_name m, layer_range (sm_layer_bitmap m))) models"

text \<open>
  \<open>broadcast_local_info\<close>: the local entry is sent to every other peer, then shown on the bus.
  \<open>network.send_data\<close> goes through the command channel; its result is ignored.
\<close>

definition broadcast_local_info :: "json_codec \<Rightarrow> peer_map \<Rightarrow> (peer_id \<times> DataType \<times> bytes) list \<times> state_event list" where
  "broadcast_local_info jc peers =
     (case Get_Local_Peer peers of
        Inl _ \<Rightarrow> ([], [])
      | Inr local \<Rightarrow>
          let info = build_local_info_payload jc local in
          (map (\<lambda>p. (pi_peer_id p, DT_Info, as_bytes info))
             (filter (\<lambda>p. pi_peer_id p \<noteq> pi_peer_id local) (get_all_peers peers)),
           [Ev_Peer_Info_Updated (pi_peer_id local) (pi_name local) True
              (models_display (pi_supported_models local)) (pi_sessions local)]))"

section \<open>Command handler\<close>

fun disconnect_all :: "PeerInfo list \<Rightarrow> node \<Rightarrow> node" where
  "disconnect_all [] nd = nd"
| "disconnect_all (p # ps) nd =
     disconnect_all ps (if \<not> pi_local p then do_swarm (Sw_Disconnect (pi_peer_id p)) nd else nd)"

text \<open>\<open>oid\<close> is the id \<open>send_request\<close> returns. The result is whether the loop goes on.\<close>

definition Handle_Command :: "outbound_id \<Rightarrow> NodeCommand \<Rightarrow> node \<Rightarrow> bool \<times> node" where
  "Handle_Command oid cmd nd =
     (case cmd of
        SendData peer ty pl response_tx \<Rightarrow>
          let nd = do_swarm (Sw_Request oid peer \<lparr>data_type = ty, payload = pl\<rparr>) nd in
          (True, case response_tx of
                   Some tx \<Rightarrow> nd\<lparr>outbound_manager := Register_Outbound oid tx (outbound_manager nd)\<rparr>
                 | None \<Rightarrow> nd)
      | PutRecord key val \<Rightarrow> (True, do_swarm (Sw_Put key val) nd)
      | GetRecord key \<Rightarrow> (True, do_swarm (Sw_Get key) nd)
      | Dial addr \<Rightarrow> (True, do_swarm (Sw_Dial addr) nd)
      | Disconnect peer \<Rightarrow>
          (True, on_peers (\<lambda>ps. snd (Remove_Peer peer ps)) (do_swarm (Sw_Disconnect peer) nd))
      | SendResponse request_id ty pl \<Rightarrow>
          (case Take_Reply_Channel request_id (inbound_manager nd) of
             (channel, im) \<Rightarrow>
               let nd = nd\<lparr>inbound_manager := im\<rparr> in
               (True, case channel of
                        Some ch \<Rightarrow> do_swarm (Sw_Response ch \<lparr>data_type = ty, payload = pl\<rparr>) nd
                      | None \<Rightarrow> nd))
      | Stop \<Rightarrow>
          let nd = disconnect_all (get_all_peers (peer_handle nd)) nd;
              nd = on_peers pm_clear nd
          in (False, nd\<lparr>inbound_manager := Inbound_Clear_All (inbound_manager nd),
                        outbound_manager := Outbound_Clear_All (outbound_manager nd)\<rparr>))"

section \<open>Swarm event handlers\<close>

fun mdns_discovered :: "(peer_id \<times> multiaddr) list \<Rightarrow> node \<Rightarrow> node" where
  "mdns_discovered [] nd = nd"
| "mdns_discovered ((peer, addr) # ps) nd =
     mdns_discovered ps
       (if peer \<noteq> local_peer_id nd
        then publish (Ev_Peer_Discovered peer) (do_swarm (Sw_Dial addr) (do_swarm (Sw_Add_Address peer addr) nd))
        else nd)"

fun mdns_expired :: "(peer_id \<times> multiaddr) list \<Rightarrow> node \<Rightarrow> node" where
  "mdns_expired [] nd = nd"
| "mdns_expired ((peer, addr) # ps) nd = mdns_expired ps (publish (Ev_Peer_Left peer) nd)"

definition nth_or :: "'a \<Rightarrow> 'a list \<Rightarrow> nat \<Rightarrow> 'a" where
  "nth_or d xs i = (if i < length xs then xs ! i else d)"

definition Handle_Info :: "json_codec \<Rightarrow> nat \<Rightarrow> peer_id \<Rightarrow> bytes \<Rightarrow> node \<Rightarrow> node" where
  "Handle_Info jc now peer pl nd =
     (let parts = splitn 3 (CHR ''|'') (from_utf8_lossy pl);
          name = nth_or [] parts 0;
          models_json = nth_or ''[]'' parts 1;
          sessions_json = nth_or ''[]'' parts 2;
          nd = (if name \<noteq> [] then
                  on_peers (\<lambda>ps. snd (upsert_peer ((PeerInfo_new now peer [])\<lparr>pi_name := name\<rparr>) ps)) nd
                else nd);
          models = unwrap_or [] (models_from_json jc models_json);
          nd = (if models \<noteq> [] then on_peers (keep_on_error (update_supported_models now peer models)) nd else nd);
          sessions = unwrap_or [] (sessions_from_json jc sessions_json);
          nd = (if sessions \<noteq> [] then on_peers (keep_on_error (update_sessions now peer sessions)) nd else nd)
      in publish (Ev_Peer_Info_Updated peer name False (models_display models) sessions) nd)"

definition ok_bytes :: bytes where "ok_bytes = as_bytes ''OK''"

definition Handle_Inbound_Request ::
  "json_codec \<Rightarrow> nat \<Rightarrow> peer_id \<Rightarrow> Network_Data \<Rightarrow> rchan \<Rightarrow> node \<Rightarrow> node" where
  "Handle_Inbound_Request jc now peer request channel nd =
     (case data_type request of
        DT_Data \<Rightarrow> do_swarm (Sw_Response channel \<lparr>data_type = DT_Data, payload = ok_bytes\<rparr>) nd
      | DT_Info \<Rightarrow>
          do_swarm (Sw_Response channel \<lparr>data_type = DT_Info, payload = ok_bytes\<rparr>)
            (Handle_Info jc now peer (payload request) nd)
      | _ \<Rightarrow> nd\<lparr>inbound_manager := snd (Register_Inbound peer request channel (inbound_manager nd))\<rparr>)"

definition Handle_Ping_Event :: "nat \<Rightarrow> peer_id \<Rightarrow> ping_result \<Rightarrow> node \<Rightarrow> node" where
  "Handle_Ping_Event now peer r nd =
     (case r of
        Ping_Ok rtt_ms \<Rightarrow>
          on_peers (keep_on_error (update_profile now peer \<lparr>latency_ms = Some (of_nat rtt_ms)\<rparr>)) nd
      | Ping_Timeout \<Rightarrow> on_peers (\<lambda>ps. snd (Remove_Peer peer ps)) nd
      | Ping_Unsupported \<Rightarrow> nd
      | Ping_Other \<Rightarrow> nd)"

definition Handle_Established :: "json_codec \<Rightarrow> outbound_id \<Rightarrow> nat \<Rightarrow> peer_id \<Rightarrow> multiaddr \<Rightarrow> node \<Rightarrow> node" where
  "Handle_Established jc oid now peer addr nd =
     (let nd = on_peers (\<lambda>ps. snd (upsert_peer (PeerInfo_new now peer [addr]) ps)) nd;
          nd = (case Get_Local_Peer (peer_handle nd) of
                  Inr local \<Rightarrow>
                    do_swarm (Sw_Request oid peer
                      \<lparr>data_type = DT_Info, payload = as_bytes (build_local_info_payload jc local)\<rparr>) nd
                | Inl _ \<Rightarrow> nd)
      in publish (Ev_Peer_Connected peer) nd)"

definition Handle_Swarm_Event :: "json_codec \<Rightarrow> outbound_id \<Rightarrow> nat \<Rightarrow> swarm_event \<Rightarrow> node \<Rightarrow> bool \<times> node" where
  "Handle_Swarm_Event jc oid now ev nd =
     (True,
      case ev of
        Se_Discovered ps \<Rightarrow> mdns_discovered ps nd
      | Se_Expired ps \<Rightarrow> mdns_expired ps nd
      | Se_Kademlia \<Rightarrow> nd
      | Se_Request peer request channel \<Rightarrow> Handle_Inbound_Request jc now peer request channel nd
      | Se_Response rid response \<Rightarrow> nd\<lparr>outbound_manager := Route_Response rid response (outbound_manager nd)\<rparr>
      | Se_Outbound_Failure rid err \<Rightarrow>
          nd\<lparr>outbound_manager := Route_Failure rid (''Outbound failure: '' @ err) (outbound_manager nd)\<rparr>
      | Se_Inbound_Failure \<Rightarrow> nd
      | Se_Response_Sent \<Rightarrow> nd
      | Se_Established peer addr \<Rightarrow> Handle_Established jc oid now peer addr nd
      | Se_Closed peer \<Rightarrow>
          publish (Ev_Peer_Disconnected peer) (on_peers (\<lambda>ps. snd (Remove_Peer peer ps)) nd)
      | Se_New_Listen_Addr addr \<Rightarrow> nd
      | Se_Ping peer r \<Rightarrow> Handle_Ping_Event now peer r nd
      | Se_Other \<Rightarrow> nd)"

section \<open>The node as a state machine\<close>

text \<open>
  Commands and swarm events arrive in any order. The ghost components list the waiters the
  callers of \<open>Send_Data\<close> have created and the response channels libp2p has handed over. libp2p
  never gives the same id to two outbound requests and never hands over a channel twice.
\<close>

type_synonym node_state = "node \<times> waiter list \<times> rchan list"

fun cmd_waiters :: "NodeCommand \<Rightarrow> waiter list" where
  "cmd_waiters (SendData peer ty pl (Some tx)) = [tx]"
| "cmd_waiters _ = []"

fun event_channels :: "swarm_event \<Rightarrow> rchan list" where
  "event_channels (Se_Request peer request channel) = [channel]"
| "event_channels _ = []"

fun sent_oids :: "swarm_action list \<Rightarrow> outbound_id list" where
  "sent_oids [] = []"
| "sent_oids (Sw_Request oid peer d # log) = oid # sent_oids log"
| "sent_oids (_ # log) = sent_oids log"

fun responded :: "swarm_action list \<Rightarrow> rchan list" where
  "responded [] = []"
| "responded (Sw_Response ch d # log) = ch # responded log"
| "responded (_ # log) = responded log"

inductive node_step :: "json_codec \<Rightarrow> node_state \<Rightarrow> node_state \<Rightarrow> bool" for jc where
  ns_command: "Handle_Command oid cmd nd = (b, nd') \<Longrightarrow> oid \<notin> set (sent_oids (swarm_log nd)) \<Longrightarrow>
    set (cmd_waiters cmd) \<inter> set ws = {} \<Longrightarrow> node_step jc (nd, ws, cs) (nd', ws @ cmd_waiters cmd, cs)"
| ns_event: "Handle_Swarm_Event jc oid now ev nd = (b, nd') \<Longrightarrow> oid \<notin> set (sent_oids (swarm_log nd)) \<Longrightarrow>
    set (event_channels ev) \<inter> set cs = {} \<Longrightarrow> node_step jc (nd, ws, cs) (nd', ws, cs @ event_channels ev)"

definition node_init :: "nat \<Rightarrow> peer_id \<Rightarrow> string \<Rightarrow> node" where
  "node_init now me name =
     \<lparr>local_peer_id = me, peer_handle = pm_new now me name, inbound_manager = Inbound_New,
      outbound_manager = Outbound_New, swarm_log = [], bus = []\<rparr>"

definition waiters_ok :: "node \<Rightarrow> waiter list \<Rightarrow> bool" where
  "waiters_ok nd ws \<longleftrightarrow>
     distinct ws \<and> distinct (map fst (pending_responses (outbound_manager nd))) \<and>
     fst ` set (pending_responses (outbound_manager nd)) \<subseteq> set (sent_oids (swarm_log nd)) \<and>
     mset ws = mset (map snd (pending_responses (outbound_manager nd))) + mset (map fst (answers (outbound_manager nd)))"

definition replies_ok :: "node \<Rightarrow> rchan list \<Rightarrow> bool" where
  "replies_ok nd cs \<longleftrightarrow>
     distinct cs \<and>
     mset (responded (swarm_log nd)) + mset (map snd (pending_replies (inbound_manager nd))) \<subseteq># mset cs"

definition node_inv :: "peer_id \<Rightarrow> node_state \<Rightarrow> bool" where
  "node_inv me st \<longleftrightarrow> (case st of (nd, ws, cs) \<Rightarrow>
     local_peer_id nd = me \<and> peers_inv me (peer_handle nd) \<and> waiters_ok nd ws \<and> replies_ok nd cs)"

lemma sent_oids_append [simp]: "sent_oids (l @ m) = sent_oids l @ sent_oids m"
  by (induction l rule: sent_oids.induct) auto

lemma responded_append [simp]: "responded (l @ m) = responded l @ responded m"
  by (induction l rule: responded.induct) auto

lemma node_fields [simp]:
  "local_peer_id (do_swarm a nd) = local_peer_id nd" "peer_handle (do_swarm a nd) = peer_handle nd"
  "inbound_manager (do_swarm a nd) = inbound_manager nd" "outbound_manager (do_swarm a nd) = outbound_manager nd"
  "swarm_log (do_swarm a nd) = swarm_log nd @ [a]"
  "local_peer_id (publish e nd) = local_peer_id nd" "peer_handle (publish e nd) = peer_handle nd"
  "inbound_manager (publish e nd) = inbound_manager nd" "outbound_manager (publish e nd) = outbound_manager nd"
  "swarm_log (publish e nd) = swarm_log nd"
  "local_peer_id (on_peers f nd) = local_peer_id nd" "peer_handle (on_peers f nd) = f (peer_handle nd)"
  "inbound_manager (on_peers f nd) = inbound_manager nd" "outbound_manager (on_peers f nd) = outbound_manager nd"
  "swarm_log (on_peers f nd) = swarm_log nd"
  by (simp_all add: do_swarm_def publish_def on_peers_def)

text \<open>The parts a handler leaves alone: all but the peers, the bus and requests that carry no waiter.\<close>

definition quiet :: "node \<Rightarrow> node \<Rightarrow> bool" where
  "quiet nd nd' \<longleftrightarrow> local_peer_id nd' = local_peer_id nd \<and> inbound_manager nd' = inbound_manager nd \<and>
     outbound_manager nd' = outbound_manager nd \<and> responded (swarm_log nd') = responded (swarm_log nd) \<and>
     set (sent_oids (swarm_log nd)) \<subseteq> set (sent_oids (swarm_log nd'))"

lemma quiet_refl [simp]: "quiet nd nd"
  by (auto simp: quiet_def)

lemma quiet_disconnect_all: "quiet nd (disconnect_all ps nd)"
  by (induction ps nd rule: disconnect_all.induct) (auto simp: quiet_def)

lemma quiet_discovered: "quiet nd (mdns_discovered ps nd)"
  by (induction ps nd rule: mdns_discovered.induct) (auto simp: quiet_def)

lemma quiet_expired: "quiet nd (mdns_expired ps nd)"
  by (induction ps nd rule: mdns_expired.induct) (auto simp: quiet_def)

lemma peers_disconnect_all [simp]: "peer_handle (disconnect_all ps nd) = peer_handle nd"
  by (induction ps nd rule: disconnect_all.induct) simp_all

lemma peers_discovered [simp]: "peer_handle (mdns_discovered ps nd) = peer_handle nd"
  by (induction ps nd rule: mdns_discovered.induct) simp_all

lemma peers_expired [simp]: "peer_handle (mdns_expired ps nd) = peer_handle nd"
  by (induction ps nd rule: mdns_expired.induct) simp_all

lemma quiet_Handle_Info: "quiet nd (Handle_Info jc now peer pl nd)"
  by (auto simp: Handle_Info_def Let_def quiet_def)

lemma quiet_Established: "quiet nd (Handle_Established jc oid now peer addr nd)"
  by (auto simp: Handle_Established_def Let_def quiet_def split: sum.splits)

lemma quiet_Ping: "quiet nd (Handle_Ping_Event now peer r nd)"
  by (auto simp: Handle_Ping_Event_def quiet_def split: ping_result.splits)

lemma quiet_ok: "quiet nd nd' \<Longrightarrow> waiters_ok nd ws \<Longrightarrow> waiters_ok nd' ws"
  "quiet nd nd' \<Longrightarrow> replies_ok nd cs \<Longrightarrow> replies_ok nd' cs"
  by (auto simp: quiet_def waiters_ok_def replies_ok_def)

lemma peers_inv_keep:
  "peers_inv me ps \<Longrightarrow> peers_inv me (keep_on_error (update_supported_models now p ms) ps)"
  "peers_inv me ps \<Longrightarrow> peers_inv me (keep_on_error (update_sessions now p ss) ps)"
  "peers_inv me ps \<Longrightarrow> peers_inv me (keep_on_error (update_profile now p pr) ps)"
  unfolding keep_on_error_def update_supported_models_def update_sessions_def update_profile_def
  by (auto split: sum.splits elim!: peers_inv_modify)

lemma peers_inv_upsert_new [simp]:
  "peers_inv me ps \<Longrightarrow> peers_inv me (snd (upsert_peer ((PeerInfo_new now p as)\<lparr>pi_name := nm\<rparr>) ps))"
  "peers_inv me ps \<Longrightarrow> peers_inv me (snd (upsert_peer (PeerInfo_new now p as) ps))"
  by (simp_all add: peers_inv_upsert PeerInfo_new_def)

lemma peers_inv_handlers:
  assumes "peers_inv me (peer_handle nd)"
  shows "peers_inv me (peer_handle (snd (Handle_Command oid cmd nd)))"
    and "peers_inv me (peer_handle (snd (Handle_Swarm_Event jc oid now ev nd)))"
  using assms
  by (auto simp: Handle_Command_def Handle_Swarm_Event_def Handle_Inbound_Request_def Handle_Info_def
      Handle_Established_def Handle_Ping_Event_def Let_def peers_inv_keep peers_inv_remove peers_inv_clear
      split: NodeCommand.splits option.splits prod.splits swarm_event.splits DataType.splits sum.splits ping_result.splits)

lemma waiters_ok_answer:
  assumes "waiters_ok nd ws" "map_of (pending_responses (outbound_manager nd)) oid = Some tx"
  shows "waiters_ok (nd\<lparr>outbound_manager := (outbound_manager nd)
           \<lparr>pending_responses := AList.delete oid (pending_responses (outbound_manager nd)),
            answers := answers (outbound_manager nd) @ [(tx, r)]\<rparr>\<rparr>) ws"
  using assms mset_AList_delete [OF _ assms(2)]
  by (auto simp: waiters_ok_def distinct_delete store_simps)

lemma waiters_ok_route:
  assumes "waiters_ok nd ws"
  shows "waiters_ok (nd\<lparr>outbound_manager := Route_Response rid d (outbound_manager nd)\<rparr>) ws"
    and "waiters_ok (nd\<lparr>outbound_manager := Route_Failure rid e (outbound_manager nd)\<rparr>) ws"
  using assms waiters_ok_answer [OF assms]
  by (auto simp: Route_Response_def Route_Failure_def split: option.splits)

lemma waiters_ok_register:
  assumes "waiters_ok nd ws" "oid \<notin> set (sent_oids (swarm_log nd))" "tx \<notin> set ws"
  shows "waiters_ok ((do_swarm (Sw_Request oid peer d) nd)
           \<lparr>outbound_manager := Register_Outbound oid tx (outbound_manager nd)\<rparr>) (ws @ [tx])"
proof -
  let ?al = "pending_responses (outbound_manager nd)"
  have "map_of ?al oid = None" using assms(1,2) by (auto simp: waiters_ok_def map_of_eq_None_iff)
  moreover have d: "distinct (map fst ?al)" using assms(1) by (simp add: waiters_ok_def)
  ultimately have "mset (map snd (AList.update oid tx ?al)) = add_mset tx (mset (map snd ?al))"
    using mset_AList_update [OF d, of oid tx] by simp
  with assms d show ?thesis
    by (auto simp: waiters_ok_def Register_Outbound_def store_simps distinct_update)
qed

lemma fst_answer [simp]: "fst \<circ> (\<lambda>(_, tx). (tx, r)) = snd"
  by (auto simp: fun_eq_iff)

lemma waiters_ok_clear:
  "waiters_ok nd ws \<Longrightarrow> waiters_ok (nd\<lparr>outbound_manager := Outbound_Clear_All (outbound_manager nd)\<rparr>) ws"
  by (auto simp: waiters_ok_def Outbound_Clear_All_def)

lemma mset_shrink: "a + b \<subseteq># c \<Longrightarrow> b' \<subseteq># b \<Longrightarrow> a + b' \<subseteq># (c :: 'a multiset)"
  by (meson subset_mset.add_left_mono subset_mset.order_trans)

lemma replies_ok_take:
  assumes "replies_ok nd cs" "map_of (pending_replies (inbound_manager nd)) rid = Some ch"
  shows "replies_ok (do_swarm (Sw_Response ch d)
    (nd\<lparr>inbound_manager := (inbound_manager nd)\<lparr>pending_replies := AList.delete rid (pending_replies (inbound_manager nd))\<rparr>\<rparr>)) cs"
  using assms(1) mset_shrink [OF _ mset_AList_delete_lookup [OF assms(2)]]
  by (simp add: replies_ok_def)

lemma replies_ok_drop:
  assumes "replies_ok nd cs" "mset (map snd al) \<subseteq># mset (map snd (pending_replies (inbound_manager nd)))"
  shows "replies_ok (nd\<lparr>inbound_manager := (inbound_manager nd)\<lparr>pending_replies := al\<rparr>\<rparr>) cs"
  using assms(1) mset_shrink [OF _ assms(2)] by (simp add: replies_ok_def)

lemma replies_ok_register:
  assumes "replies_ok nd cs" "ch \<notin> set cs"
  shows "replies_ok (nd\<lparr>inbound_manager := snd (Register_Inbound peer d ch (inbound_manager nd))\<rparr>) (cs @ [ch])"
proof -
  let ?al = "pending_replies (inbound_manager nd)" and ?k = "next_inbound_id (inbound_manager nd)"
  have "mset (responded (swarm_log nd)) + add_mset ch (mset (map snd ?al)) \<subseteq># mset (cs @ [ch])"
    using assms(1) by (simp add: replies_ok_def)
  note up = mset_shrink [OF this mset_AList_update_subset [of ?k]]
  note del = mset_shrink [OF up mset_AList_delete_subset [of ?k]]
  have "distinct (cs @ [ch])" using assms by (simp add: replies_ok_def)
  with up del show ?thesis
    by (cases "inbound_alive (inbound_manager nd)") (simp_all add: replies_ok_def Register_Inbound_def Let_def)
qed

lemma replies_ok_direct:
  assumes "replies_ok nd cs" "ch \<notin> set cs"
  shows "replies_ok (do_swarm (Sw_Response ch d) nd) (cs @ [ch])"
  using assms by (auto simp: replies_ok_def)

lemma replies_ok_outbound [simp]: "replies_ok (nd\<lparr>outbound_manager := om\<rparr>) cs = replies_ok nd cs"
  by (simp add: replies_ok_def)

lemma waiters_ok_inbound [simp]: "waiters_ok (nd\<lparr>inbound_manager := im\<rparr>) ws = waiters_ok nd ws"
  by (simp add: waiters_ok_def)

lemma mset_AList_delete_None: "map_of al k = None \<Longrightarrow> AList.delete k al = al"
  by (simp add: delete_id map_of_eq_None_iff)

lemma quiet_commands:
  "Handle_Command oid cmd nd = (b, nd') \<Longrightarrow>
   (case cmd of PutRecord k v \<Rightarrow> True | GetRecord k \<Rightarrow> True | Dial a \<Rightarrow> True | Disconnect p \<Rightarrow> True | _ \<Rightarrow> False) \<Longrightarrow>
   quiet nd nd'"
  by (cases cmd) (auto simp: Handle_Command_def quiet_def)

lemma node_inv_command:
  assumes inv: "node_inv me (nd, ws, cs)" and h: "Handle_Command oid cmd nd = (b, nd')"
    and fresh: "oid \<notin> set (sent_oids (swarm_log nd))" "set (cmd_waiters cmd) \<inter> set ws = {}"
  shows "node_inv me (nd', ws @ cmd_waiters cmd, cs)"
proof -
  have peers: "peers_inv me (peer_handle nd')"
    using peers_inv_handlers(1) [of me nd oid cmd] inv h by (auto simp: node_inv_def)
  from inv have w: "waiters_ok nd ws" and r: "replies_ok nd cs" and l: "local_peer_id nd = me"
    by (auto simp: node_inv_def)
  have "local_peer_id nd' = me \<and> waiters_ok nd' (ws @ cmd_waiters cmd) \<and> replies_ok nd' cs"
  proof (cases cmd)
    case (SendData peer ty pl tx)
    have q: "quiet nd (do_swarm (Sw_Request oid peer d) nd)" for d by (auto simp: quiet_def)
    show ?thesis
    proof (cases tx)
      case None
      with SendData h q quiet_ok [OF q] w r l show ?thesis by (auto simp: Handle_Command_def)
    next
      case (Some t)
      with SendData h q quiet_ok(2) [OF q r] waiters_ok_register [OF w fresh(1)] fresh(2) l show ?thesis
        by (auto simp: Handle_Command_def)
    qed
  next
    case (SendResponse rid ty pl)
    show ?thesis
    proof (cases "map_of (pending_replies (inbound_manager nd)) rid")
      case None
      with SendResponse h w r l show ?thesis
        by (auto simp: Handle_Command_def Take_Reply_Channel_def mset_AList_delete_None replies_ok_def)
    next
      case (Some ch)
      have q: "waiters_ok (do_swarm (Sw_Response ch d) nd1) ws = waiters_ok nd1 ws" for d nd1
        by (simp add: waiters_ok_def)
      from Some SendResponse h w r l replies_ok_take [OF r Some] show ?thesis
        by (auto simp: Handle_Command_def Take_Reply_Channel_def q)
    qed
  next
    case Stop
    let ?nd = "on_peers pm_clear (disconnect_all (get_all_peers (peer_handle nd)) nd)"
    have q: "quiet nd ?nd" using quiet_disconnect_all [of nd "get_all_peers (peer_handle nd)"] by (auto simp: quiet_def)
    have "nd' = ?nd\<lparr>inbound_manager := Inbound_Clear_All (inbound_manager ?nd),
             outbound_manager := Outbound_Clear_All (outbound_manager ?nd)\<rparr>"
      using Stop h by (simp add: Handle_Command_def Let_def)
    moreover have "waiters_ok (?nd\<lparr>outbound_manager := Outbound_Clear_All (outbound_manager ?nd)\<rparr>) ws"
      using waiters_ok_clear [OF quiet_ok(1) [OF q w]] .
    moreover have "replies_ok (?nd\<lparr>inbound_manager := Inbound_Clear_All (inbound_manager ?nd)\<rparr>) cs"
      using replies_ok_drop [OF quiet_ok(2) [OF q r], of "[]"] by (simp add: Inbound_Clear_All_def)
    ultimately show ?thesis
      using q l Stop by (auto simp: waiters_ok_def replies_ok_def quiet_def)
  qed (use h w r l quiet_ok quiet_commands [OF h] in \<open>auto simp: quiet_def\<close>)
  with peers show ?thesis by (simp add: node_inv_def)
qed

lemma quiet_events:
  assumes "event_channels ev = []" "\<And>rid d. ev \<noteq> Se_Response rid d" "\<And>rid e. ev \<noteq> Se_Outbound_Failure rid e"
  shows "quiet nd (snd (Handle_Swarm_Event jc oid now ev nd))"
proof -
  have "quiet nd (publish e (on_peers f nd))" for e f by (simp add: quiet_def)
  with assms show ?thesis
    by (cases ev) (auto simp: Handle_Swarm_Event_def quiet_discovered quiet_expired quiet_Established quiet_Ping)
qed

lemma node_inv_event:
  assumes inv: "node_inv me (nd, ws, cs)" and h: "Handle_Swarm_Event jc oid now ev nd = (b, nd')"
    and fresh: "set (event_channels ev) \<inter> set cs = {}"
  shows "node_inv me (nd', ws, cs @ event_channels ev)"
proof -
  have nd': "nd' = snd (Handle_Swarm_Event jc oid now ev nd)" using h by simp
  have peers: "peers_inv me (peer_handle nd')"
    using peers_inv_handlers(2) [of me nd] inv by (auto simp: node_inv_def nd')
  from inv have w: "waiters_ok nd ws" and r: "replies_ok nd cs" and l: "local_peer_id nd = me"
    by (auto simp: node_inv_def)
  have resp: "waiters_ok (do_swarm (Sw_Response ch d) nd1) ws = waiters_ok nd1 ws" for ch d nd1
    by (simp add: waiters_ok_def)
  have "local_peer_id nd' = me \<and> waiters_ok nd' ws \<and> replies_ok nd' (cs @ event_channels ev)"
  proof (cases ev)
    case (Se_Request peer d ch)
    have qi: "quiet nd (Handle_Info jc now peer (payload d) nd)" by (rule quiet_Handle_Info)
    from Se_Request fresh have ch: "ch \<notin> set cs" by auto
    show ?thesis
      using Se_Request nd' w l resp quiet_ok(1) [OF qi w] qi replies_ok_direct [OF r ch]
        replies_ok_direct [OF quiet_ok(2) [OF qi r] ch] replies_ok_register [OF r ch]
      by (cases "data_type d") (simp_all add: Handle_Swarm_Event_def Handle_Inbound_Request_def quiet_def)
  next
    case (Se_Response rid d)
    with nd' w r l waiters_ok_route [OF w] show ?thesis by (simp add: Handle_Swarm_Event_def)
  next
    case (Se_Outbound_Failure rid e)
    with nd' w r l waiters_ok_route [OF w] show ?thesis by (simp add: Handle_Swarm_Event_def)
  qed (use quiet_events [of ev nd jc oid now] quiet_ok w r l nd' in \<open>auto simp: quiet_def\<close>)
  with peers show ?thesis by (simp add: node_inv_def)
qed

interpretation node_machine: state_machine "\<lambda>st. st = (node_init now me name, [], [])" "node_step jc" "node_inv me"
  for now me name jc
proof
  fix st :: node_state
  assume "st = (node_init now me name, [], [])"
  then show "node_inv me st"
    by (simp add: node_inv_def node_init_def peers_inv_new waiters_ok_def replies_ok_def Inbound_New_def Outbound_New_def)
next
  fix st t :: node_state
  assume "node_inv me st" "node_step jc st t"
  then show "node_inv me t"
    by (auto elim!: node_step.cases intro: node_inv_command node_inv_event)
qed

lemma distinct_single: "distinct xs \<Longrightarrow> set xs = {a} \<Longrightarrow> xs = [a]"
  by (cases xs; cases "tl xs") auto

section \<open>Properties\<close>



text \<open>Stopping the node leaves nobody waiting: from any reachable state, the stop command ends
  the loop, every caller that ever waited has exactly one answer, no inbound request is kept, and
  only the local node stays in the directory.\<close>

theorem node_stop_answers_all:
  assumes "reach (\<lambda>st. st = (node_init now me name, [], [])) (node_step jc) (nd, ws, cs)"
    and "Handle_Command oid Stop nd = (b, nd')"
  shows "\<not> b \<and> pending_responses (outbound_manager nd') = [] \<and>
         mset (map fst (answers (outbound_manager nd'))) = mset ws \<and>
         pending_replies (inbound_manager nd') = [] \<and>
         map fst (peer_handle nd') = [me]"
proof -
  have inv: "node_inv me (nd, ws, cs)" using node_machine.reach_inv [OF assms(1)] .
  define nd1 where "nd1 = disconnect_all (get_all_peers (peer_handle nd)) nd"
  have q: "quiet nd nd1" unfolding nd1_def by (rule quiet_disconnect_all)
  have nd': "b = False" "nd' = (on_peers pm_clear nd1)\<lparr>inbound_manager := Inbound_Clear_All (inbound_manager nd1),
      outbound_manager := Outbound_Clear_All (outbound_manager nd1)\<rparr>"
    using assms(2) by (simp_all add: Handle_Command_def Let_def nd1_def)
  have "peers_inv me (peer_handle nd')"
    using peers_inv_handlers(1) [of me nd oid Stop] inv assms(2) by (simp add: node_inv_def)
  moreover have "\<forall>(k, p) \<in> set (peer_handle nd'). pi_local p" by (auto simp: nd' pm_clear_def)
  ultimately have "fst ` set (peer_handle nd') = {me}" "distinct (map fst (peer_handle nd'))"
    by (fastforce simp: peers_inv_def)+
  then have "map fst (peer_handle nd') = [me]"
    by (intro distinct_single) simp_all
  moreover have "mset ws = mset (map snd (pending_responses (outbound_manager nd))) + mset (map fst (answers (outbound_manager nd)))"
    using inv by (simp add: node_inv_def waiters_ok_def)
  ultimately show ?thesis using q by (simp add: nd' quiet_def Outbound_Clear_All_def Inbound_Clear_All_def)
qed

lemma node_reach_start: "reach (\<lambda>st. st = (node_init now me name, [], [])) (node_step jc) (node_init now me name, [], [])"
  by (simp add: reach_start)

theorem node_stop_answers_all_witness:
  "\<not> fst (Handle_Command 1 Stop (node_init 0 ''A'' [])) \<and>
   map fst (peer_handle (snd (Handle_Command 1 Stop (node_init 0 ''A'' [])))) = [''A'']"
  using node_stop_answers_all [OF node_reach_start, of 1 0 "''A''" "[]"
      "fst (Handle_Command 1 Stop (node_init 0 ''A'' []))" "snd (Handle_Command 1 Stop (node_init 0 ''A'' []))"]
  by simp

text \<open>A forwarded request is answered once and on its own channel: the orchestrator gets the
  request with a fresh id, the first response with that id goes to the channel the request came
  with, and a second response with the same id does nothing.\<close>

theorem inbound_request_reply:
  assumes "data_type d \<in> {DT_Command, DT_File}" "inbound_alive (inbound_manager nd)"
    and "nd1 = snd (Handle_Swarm_Event jc oid now (Se_Request peer d ch) nd)"
    and "rid = next_inbound_id (inbound_manager nd)"
    and "nd2 = snd (Handle_Command oid1 (SendResponse rid ty pl) nd1)"
  shows "inbound_sent (inbound_manager nd1) = inbound_sent (inbound_manager nd) @
           [\<lparr>ir_request_id = rid, ir_peer = peer, ir_data_type = data_type d, ir_payload = payload d\<rparr>] \<and>
         next_inbound_id (inbound_manager nd1) \<noteq> rid \<and>
         swarm_log nd2 = swarm_log nd @ [Sw_Response ch \<lparr>data_type = ty, payload = pl\<rparr>] \<and>
         swarm_log (snd (Handle_Command oid2 (SendResponse rid ty' pl') nd2)) = swarm_log nd2"
  using assms(1,2) unfolding assms(3,4,5)
  by (auto simp: Handle_Swarm_Event_def Handle_Inbound_Request_def Register_Inbound_def Handle_Command_def
      Take_Reply_Channel_def Let_def store_simps)

theorem inbound_request_reply_witness:
  "let nd = node_init 0 ''A'' [];
       d = \<lparr>data_type = DT_File, payload = [1]\<rparr>;
       nd1 = snd (Handle_Swarm_Event undefined 0 0 (Se_Request ''B'' d 7) nd);
       nd2 = snd (Handle_Command 1 (SendResponse 1 DT_File [2]) nd1)
   in swarm_log nd2 = [Sw_Response 7 \<lparr>data_type = DT_File, payload = [2]\<rparr>] \<and>
      swarm_log (snd (Handle_Command 2 (SendResponse 1 DT_File [3]) nd2)) = swarm_log nd2"
  using inbound_request_reply [of "\<lparr>data_type = DT_File, payload = [1]\<rparr>" "node_init 0 ''A'' []" _ undefined 0 0
      "''B''" 7 1 _ 1 DT_File "[2]" 2 DT_File "[3]", OF _ _ refl _ refl]
  by (simp add: node_init_def Inbound_New_def Let_def)



end
