(* ===== verification/Network_Service.thy ===== *)
theory Network_Service
  imports Node Tensor_Protocol File_Protocol Bandwidth_Protocol Session_Protocol Rendezvous
begin

text \<open>
  The event loop of the network service (\<open>Src/Network/network_service.rs\<close>), which puts the handlers
  of \<open>Node\<close>, the stream protocols and the rendezvous map together, and the capability the rest of
  the program calls (\<open>Src/Network/capability.rs\<close>). A stream is what its reader has still to read
  and what it has been sent back. Building the swarm and opening a stream are libp2p's.
\<close>

section \<open>Errors and configuration\<close>

datatype Network_Error =
    ConnectionFailed string
  | StreamOpenFailed string
  | StreamIoError string
  | Net_Timeout string
  | Rejected string
  | ChannelClosed string

definition show_network_error :: "Network_Error \<Rightarrow> string" where
  "show_network_error e =
     (case e of
        ConnectionFailed m \<Rightarrow> ''ConnectionFailed: '' @ m
      | StreamOpenFailed m \<Rightarrow> ''StreamOpenFailed: '' @ m
      | StreamIoError m \<Rightarrow> ''StreamIoError: '' @ m
      | Net_Timeout m \<Rightarrow> ''Timeout: '' @ m
      | Rejected m \<Rightarrow> ''Rejected: '' @ m
      | ChannelClosed m \<Rightarrow> ''ChannelClosed: '' @ m)"

record NetworkConfig =
  lan_enabled :: bool
  wan_enabled :: bool
  transport_protocol :: string
  listen_port :: u16
  bootstrap_peers :: "string list"
  cleanup_interval :: u64
  timeout_interval :: u64
  heartbeat_interval :: u64
  heartbeat_timeout :: u64
  request_response_timeout :: u64

definition NetworkConfig_default :: NetworkConfig where
  "NetworkConfig_default =
     \<lparr>lan_enabled = True, wan_enabled = False, transport_protocol = ''TCP'', listen_port = 0,
      bootstrap_peers = [], cleanup_interval = 300, timeout_interval = 300, heartbeat_interval = 60,
      heartbeat_timeout = 10, request_response_timeout = 300\<rparr>"

section \<open>The capability\<close>

text \<open>\<open>chan_error\<close> is the text of a send on a closed command channel.\<close>

definition send_error_text :: "string \<Rightarrow> u64 \<Rightarrow> send_error \<Rightarrow> string" where
  "send_error_text chan_error response_timeout e =
     (case e of
        Cmd_Channel_Closed \<Rightarrow> chan_error
      | Response_Timeout \<Rightarrow> ''Response timeout ('' @ show_nat (unat response_timeout) @ ''s)''
      | Response_Channel_Closed \<Rightarrow> ''Response channel closed''
      | Remote_Error m \<Rightarrow> m)"

definition cap_send_data ::
  "string \<Rightarrow> u64 \<Rightarrow> bool \<Rightarrow> (string + Network_Data) option option \<Rightarrow> Network_Error + Network_Data" where
  "cap_send_data chan_error response_timeout cmd_open reply =
     map_err (\<lambda>e. ChannelClosed (send_error_text chan_error response_timeout e)) (Send_Data cmd_open reply)"

text \<open>The calls that only put a command on the channel: the command, or an error when it is closed.\<close>

definition cap_command :: "(string \<Rightarrow> Network_Error) \<Rightarrow> string \<Rightarrow> bool \<Rightarrow> NodeCommand \<Rightarrow> Network_Error + NodeCommand" where
  "cap_command err chan_error cmd_open cmd = (if cmd_open then Inr cmd else Inl (err chan_error))"

definition cap_send_response :: "string \<Rightarrow> bool \<Rightarrow> u64 \<Rightarrow> DataType \<Rightarrow> bytes \<Rightarrow> Network_Error + NodeCommand" where
  "cap_send_response chan_error cmd_open request_id ty pl =
     cap_command ChannelClosed chan_error cmd_open (SendResponse request_id ty pl)"

definition cap_dial :: "string \<Rightarrow> bool \<Rightarrow> multiaddr \<Rightarrow> Network_Error + NodeCommand" where
  "cap_dial chan_error cmd_open addr = cap_command ConnectionFailed chan_error cmd_open (Dial addr)"

definition cap_disconnect :: "string \<Rightarrow> bool \<Rightarrow> peer_id \<Rightarrow> Network_Error + NodeCommand" where
  "cap_disconnect chan_error cmd_open peer = cap_command ConnectionFailed chan_error cmd_open (Disconnect peer)"

definition cap_put_record :: "string \<Rightarrow> bool \<Rightarrow> bytes \<Rightarrow> bytes \<Rightarrow> Network_Error + NodeCommand" where
  "cap_put_record chan_error cmd_open key val = cap_command ChannelClosed chan_error cmd_open (PutRecord key val)"

definition cap_get_record :: "string \<Rightarrow> bool \<Rightarrow> bytes \<Rightarrow> Network_Error + NodeCommand" where
  "cap_get_record chan_error cmd_open key = cap_command ChannelClosed chan_error cmd_open (GetRecord key)"

text \<open>\<open>opened\<close>: what \<open>open_stream\<close> of libp2p gives; \<open>io_text\<close> prints an I/O error.\<close>

definition open_file_stream :: "string + out_stream \<Rightarrow> Network_Error + out_stream" where
  "open_file_stream opened = map_err (\<lambda>e. StreamOpenFailed (''file stream: '' @ e)) opened"

definition open_tensor_stream ::
  "(io_error \<Rightarrow> string) \<Rightarrow> string + out_stream \<Rightarrow> u64 \<Rightarrow> Network_Error + out_stream" where
  "open_tensor_stream io_text opened inference_id =
     rbind (map_err (\<lambda>e. StreamOpenFailed (''tensor stream: '' @ e)) opened) (\<lambda>stream.
     map_err (\<lambda>e. StreamIoError (''handshake: '' @ io_text e)) (Write_Tensor_Stream_Handshake inference_id stream))"

definition open_session_stream ::
  "(io_error \<Rightarrow> string) \<Rightarrow> string + out_stream \<Rightarrow> u64 \<Rightarrow> Network_Error + out_stream" where
  "open_session_stream io_text opened session_id =
     rbind (map_err (\<lambda>e. StreamOpenFailed (''session stream: '' @ e)) opened) (\<lambda>stream.
     map_err (\<lambda>e. StreamOpenFailed (''session handshake: '' @ io_text e)) (Write_Session_Handshake session_id stream))"

text \<open>\<open>file_name().unwrap_or_default()\<close> of a path of plain components.\<close>

definition path_file_name :: "string \<Rightarrow> string" where
  "path_file_name path = rev (takeWhile (\<lambda>c. c \<noteq> CHR ''/'') (rev path))"

definition cap_send_file_data ::
  "(io_error \<Rightarrow> string) \<Rightarrow> (nat \<Rightarrow> nat) \<Rightarrow> string \<Rightarrow> io_error + bytes \<Rightarrow> out_stream \<Rightarrow> Network_Error + out_stream" where
  "cap_send_file_data io_text sched file_path file stream =
     map_err (\<lambda>e. StreamIoError (''send_file_data: '' @ io_text e))
       (fst (Send_File_Data sched (Some (path_file_name file_path)) file stream))"

text \<open>The metadata and the file are read from the disk as it stands: \<open>file\<close>.\<close>

definition cap_send_file ::
  "(io_error \<Rightarrow> string) \<Rightarrow> (nat \<Rightarrow> nat) \<Rightarrow> string \<Rightarrow> io_error + bytes \<Rightarrow> string + out_stream \<Rightarrow> Network_Error + out_stream" where
  "cap_send_file io_text sched file_path file opened =
     rbind (map_err (\<lambda>e. StreamIoError (''metadata: '' @ io_text e)) file) (\<lambda>contents.
     let file_size = of_nat (length contents) in
     rbind (open_file_stream opened) (\<lambda>stream.
     rbind (map_err (\<lambda>e. StreamIoError (''header: '' @ io_text e))
       (Write_File_Stream_Header (path_file_name file_path) file_size [] stream)) (\<lambda>stream.
     cap_send_file_data io_text sched file_path file stream)))"

definition cap_receive_file_data ::
  "(io_error \<Rightarrow> string) \<Rightarrow> (nat \<Rightarrow> nat) \<Rightarrow> string option \<Rightarrow> u64 \<Rightarrow> bytes \<Rightarrow> io_error + out_stream \<Rightarrow>
   (Network_Error + unit) \<times> bytes" where
  "cap_receive_file_data io_text sched path_name file_size stream dest =
     (case Receive_File_Data sched path_name file_size stream dest of
        Inl e \<Rightarrow> (Inl (StreamIoError (''receive_file_data: '' @ io_text e)), [])
      | Inr r \<Rightarrow> (map_err (\<lambda>e. StreamIoError (''receive_file_data: '' @ io_text e)) (rr_result r), sent (rr_file r)))"

text \<open>
  \<open>accept_tensor_stream\<close>: the receiver of \<open>register_accept\<close> under a timeout. The receiver has a
  stream, or still a sender in one of the maps, or neither: then the sender was dropped.
\<close>

definition accept_wait ::
  "u64 \<Rightarrow> bool \<Rightarrow> chan \<Rightarrow> 's rendezvous \<Rightarrow> (Network_Error + 's) option \<times> 's rendezvous" where
  "accept_wait timeout_secs timed_out c st =
     (case inbox (rv_chans st) c of
        s # _ \<Rightarrow> (Some (Inr s), st)
      | [] \<Rightarrow>
          if c \<notin> snd ` set (pending_accept st) then (Some (Inl (StreamIoError ''rendezvous sender dropped'')), st)
          else if timed_out then
            (Some (Inl (Net_Timeout (''accept_tensor_stream timeout after '' @ show_nat (unat timeout_secs) @ ''s''))),
             st\<lparr>rv_chans := chan_drop_rx c (rv_chans st)\<rparr>)
          else (None, st))"

definition test_bandwidth ::
  "(io_error \<Rightarrow> string) \<Rightarrow> string \<Rightarrow> string \<Rightarrow> (u64 \<Rightarrow> u16 \<Rightarrow> u64) \<Rightarrow> nat \<Rightarrow> nat list \<Rightarrow> string + out_stream \<Rightarrow> bytes \<Rightarrow>
   (Network_Error + u64) option" where
  "test_bandwidth io_text open_failed test_failed mbps_f64 start clock opened reply =
     (case opened of
        Inl e \<Rightarrow> Some (Inl (StreamOpenFailed (open_failed @ e)))
      | Inr stream \<Rightarrow>
          map_option (map_err (\<lambda>e. StreamIoError (test_failed @ io_text e)))
            (Run_Bandwidth_Test mbps_f64 start clock DEFAULT_DURATION_SECS stream reply))"

section \<open>The event loop\<close>

type_synonym conn = "bytes \<times> out_stream"

datatype Network_Inbound_Event =
    FileStreamArrived peer_id conn
  | SessionStreamArrived peer_id u64 conn

text \<open>\<open>sv_results\<close>: the bandwidth results written back, with the stream they went to.\<close>

record service =
  sv_node :: node
  sv_rendezvous :: "conn rendezvous"
  sv_orchestrator :: "Network_Inbound_Event list"
  sv_results :: "(peer_id \<times> out_stream) list"

datatype service_event =
    Sv_Swarm outbound_id nat swarm_event
  | Sv_Command outbound_id NodeCommand
  | Sv_File_Stream peer_id conn
  | Sv_Tensor_Stream peer_id conn
  | Sv_Bandwidth_Stream peer_id conn
  | Sv_Session_Stream peer_id conn

text \<open>One turn of the loop: whether it goes on, and its state. The handshakes and the bandwidth
  test are read inside the turn; \<open>sched\<close> is the pattern of short reads.\<close>

definition service_turn :: "json_codec \<Rightarrow> (nat \<Rightarrow> nat) \<Rightarrow> service_event \<Rightarrow> service \<Rightarrow> bool \<times> service" where
  "service_turn jc sched ev sv =
     (case ev of
        Sv_Swarm oid now e \<Rightarrow>
          (case Handle_Swarm_Event jc oid now e (sv_node sv) of (go, nd) \<Rightarrow> (go, sv\<lparr>sv_node := nd\<rparr>))
      | Sv_Command oid cmd \<Rightarrow>
          (case Handle_Command oid cmd (sv_node sv) of (go, nd) \<Rightarrow> (go, sv\<lparr>sv_node := nd\<rparr>))
      | Sv_File_Stream peer c \<Rightarrow>
          (True, sv\<lparr>sv_orchestrator := sv_orchestrator sv @ [FileStreamArrived peer c]\<rparr>)
      | Sv_Tensor_Stream peer (inp, out) \<Rightarrow>
          (True, case Read_Tensor_Stream_Handshake inp of
                   Inr (inference_id, inp) \<Rightarrow>
                     sv\<lparr>sv_rendezvous := insert_inbound inference_id (inp, out) (sv_rendezvous sv)\<rparr>
                 | Inl e \<Rightarrow> sv)
      | Sv_Bandwidth_Stream peer (inp, out) \<Rightarrow>
          (True, case Receive_And_Count sched inp of
                   Inr total_bytes \<Rightarrow>
                     (case Write_Bandwidth_Result total_bytes out of
                        Inr out \<Rightarrow> sv\<lparr>sv_results := sv_results sv @ [(peer, out)]\<rparr>
                      | Inl e \<Rightarrow> sv)
                 | Inl e \<Rightarrow> sv)
      | Sv_Session_Stream peer (inp, out) \<Rightarrow>
          (True, case Read_Session_Handshake inp of
                   Inr (session_id, inp) \<Rightarrow>
                     sv\<lparr>sv_orchestrator := sv_orchestrator sv @ [SessionStreamArrived peer session_id (inp, out)]\<rparr>
                 | Inl e \<Rightarrow> sv))"

fun service_loop :: "json_codec \<Rightarrow> (nat \<Rightarrow> nat) \<Rightarrow> service_event list \<Rightarrow> service \<Rightarrow> bool \<times> service" where
  "service_loop jc sched [] sv = (True, sv)"
| "service_loop jc sched (ev # evs) sv =
     (case service_turn jc sched ev sv of
        (True, sv) \<Rightarrow> service_loop jc sched evs sv
      | (False, sv) \<Rightarrow> (False, sv))"

definition service_init :: "nat \<Rightarrow> peer_id \<Rightarrow> string \<Rightarrow> service" where
  "service_init now me name =
     \<lparr>sv_node = node_init now me name, sv_rendezvous = rv_new, sv_orchestrator = [], sv_results = []\<rparr>"

section \<open>The service as a state machine\<close>

text \<open>The node state of the service is driven by the swarm events and the commands alone; libp2p and
  the callers keep the promises of \<open>node_step\<close>.\<close>

type_synonym service_state = "service \<times> waiter list \<times> rchan list"

inductive service_step :: "json_codec \<Rightarrow> service_state \<Rightarrow> service_state \<Rightarrow> bool" for jc where
  ss_command: "service_turn jc sched (Sv_Command oid cmd) sv = (b, sv') \<Longrightarrow> oid \<notin> set (sent_oids (swarm_log (sv_node sv))) \<Longrightarrow>
    set (cmd_waiters cmd) \<inter> set ws = {} \<Longrightarrow> service_step jc (sv, ws, cs) (sv', ws @ cmd_waiters cmd, cs)"
| ss_event: "service_turn jc sched (Sv_Swarm oid now ev) sv = (b, sv') \<Longrightarrow> oid \<notin> set (sent_oids (swarm_log (sv_node sv))) \<Longrightarrow>
    set (event_channels ev) \<inter> set cs = {} \<Longrightarrow> service_step jc (sv, ws, cs) (sv', ws, cs @ event_channels ev)"
| ss_stream: "service_turn jc sched ev sv = (b, sv') \<Longrightarrow>
    (case ev of Sv_Swarm _ _ _ \<Rightarrow> False | Sv_Command _ _ \<Rightarrow> False | _ \<Rightarrow> True) \<Longrightarrow>
    service_step jc (sv, ws, cs) (sv', ws, cs)"

definition to_node_state :: "service_state \<Rightarrow> node_state" where
  "to_node_state x = (case x of (sv, ws, cs) \<Rightarrow> (sv_node sv, ws, cs))"

lemma stream_turn_node:
  "service_turn jc sched ev sv = (b, sv') \<Longrightarrow>
     (case ev of Sv_Swarm _ _ _ \<Rightarrow> False | Sv_Command _ _ \<Rightarrow> False | _ \<Rightarrow> True) \<Longrightarrow> sv_node sv' = sv_node sv \<and> b"
  by (auto simp: service_turn_def split: service_event.splits sum.splits prod.splits)

lemma service_step_projects:
  "service_step jc x y \<Longrightarrow> node_step jc (to_node_state x) (to_node_state y) \<or> to_node_state x = to_node_state y"
proof (induction rule: service_step.induct)
  case (ss_command sched oid cmd sv b sv' ws cs)
  then show ?case
    by (auto simp: service_turn_def to_node_state_def split: prod.splits intro: node_step.ns_command)
next
  case (ss_event sched oid now ev sv b sv' cs ws)
  then show ?case
    by (auto simp: service_turn_def to_node_state_def split: prod.splits intro: node_step.ns_event)
next
  case (ss_stream sched ev sv b sv' ws cs)
  then show ?case by (auto simp: to_node_state_def dest: stream_turn_node)
qed

interpretation service_node: simulation
  "\<lambda>x. x = (service_init now me name, [], [])" "service_step jc"
  "\<lambda>st. st = (node_init now me name, [], [])" "node_step jc" to_node_state
  by unfold_locales (auto simp: to_node_state_def service_init_def dest: service_step_projects)

section \<open>Properties\<close>

lemma loop_stops:
  "fst (service_turn jc sched ev sv) = False \<longleftrightarrow> (\<exists>oid. ev = Sv_Command oid Stop)"
  by (auto simp: service_turn_def Handle_Swarm_Event_def Handle_Command_def Let_def
      split: service_event.splits prod.splits NodeCommand.splits option.splits)



text \<open>C14: A stream reaches its owner: when a peer opens a tensor stream for an inference and sends
  \<open>body\<close>, the local caller that accepts this inference, before or after the stream arrives, gets a
  stream whose bytes are exactly \<open>body\<close>; a session stream is handed to the orchestrator with its
  session id and exactly \<open>body\<close> unread. A stream that breaks inside its handshake changes nothing.\<close>

theorem streams_reach_their_owner:
  assumes "rv_idle i (sv_rendezvous sv)"
  shows "\<exists>t s.
     open_tensor_stream io_text (Inr fresh_out) i = Inr t \<and> open_session_stream io_text (Inr fresh_out) i = Inr s \<and>
     (let sv' = snd (service_turn jc sched (Sv_Tensor_Stream peer (sent t @ body, back)) sv);
          (c, rv) = register_accept i (sv_rendezvous sv')
      in fst (accept_wait secs late c rv) = Some (Inr (body, back))) \<and>
     (let (c, rv) = register_accept i (sv_rendezvous sv);
          sv' = snd (service_turn jc sched (Sv_Tensor_Stream peer (sent t @ body, back)) (sv\<lparr>sv_rendezvous := rv\<rparr>))
      in fst (accept_wait secs late c (sv_rendezvous sv')) = Some (Inr (body, back))) \<and>
     sv_orchestrator (snd (service_turn jc sched (Sv_Session_Stream peer (sent s @ body, back)) sv))
       = sv_orchestrator sv @ [SessionStreamArrived peer i (body, back)] \<and>
     service_turn jc sched (Sv_Tensor_Stream peer (take n (sent t), back)) sv
       = (if n < 8 then (True, sv) else service_turn jc sched (Sv_Tensor_Stream peer (sent t, back)) sv)"
proof -
  have t: "open_tensor_stream io_text (Inr fresh_out) i = Inr \<lparr>sent = u64_to_le i, room = None\<rparr>"
    by (simp add: open_tensor_stream_def handshake.put_enc write_all_def fresh_out_def)
  have s: "open_session_stream io_text (Inr fresh_out) i = Inr \<lparr>sent = u64_to_be i, room = None\<rparr>"
    by (simp add: open_session_stream_def session_handshake.put_enc write_all_def fresh_out_def)
  have short: "Read_Tensor_Stream_Handshake (take n (u64_to_le i)) = Inl Unexpected_Eof" if "n < 8"
    using that by (simp add: Read_Tensor_Stream_Handshake_def read_exact_def)
  have got: "accept_wait secs late c rv = (Some (Inr x), rv)" if "rv_received c rv = [x]" for c x and rv :: "conn rendezvous"
    using that by (simp add: accept_wait_def rv_received_def)
  have second: "fst (accept_wait secs late c (insert_inbound i (body, back) rv)) = Some (Inr (body, back))"
    if "register_accept i (sv_rendezvous sv) = (c, rv)" for c rv
    using remote.claim_then_offer [OF assms that] by (simp add: got)
  show ?thesis
    by (rule exI [of _ "\<lparr>sent = u64_to_le i, room = None\<rparr>"], rule exI [of _ "\<lparr>sent = u64_to_be i, room = None\<rparr>"])
      (auto simp: t s service_turn_def handshake.dec_enc session_handshake.dec_enc short got second Let_def
        split: prod.splits dest: remote.offer_then_claim [OF assms])
qed

theorem streams_reach_their_owner_witness:
  "\<exists>t s.
     open_tensor_stream (\<lambda>_. []) (Inr fresh_out) 7 = Inr t \<and> open_session_stream (\<lambda>_. []) (Inr fresh_out) 7 = Inr s \<and>
     (let sv' = snd (service_turn undefined id (Sv_Tensor_Stream ''B'' (sent t @ [1, 2], fresh_out)) (service_init 0 ''A'' []));
          (c, rv) = register_accept 7 (sv_rendezvous sv')
      in fst (accept_wait 5 False c rv) = Some (Inr ([1, 2], fresh_out)))"
proof -
  have "rv_idle 7 (sv_rendezvous (service_init 0 ''A'' []))"
    by (simp add: service_init_def rv_idle_def rv_new_def rv_chans_ok_def chans_ok_def no_channels_def)
  from streams_reach_their_owner [OF this] show ?thesis by metis
qed

text \<open>A second accept for the same inference takes over: the first caller is told its sender was
  dropped, and the stream goes to the second.\<close>

lemma set_update_new: "map_of al k = None \<Longrightarrow> set (AList.update k v al) = insert (k, v) (set al)"
  by (induction al) (auto split: if_splits)

theorem second_accept_takes_over:
  assumes "rv_idle i rv"
  shows "\<exists>c c' rv'.
     register_accept i rv = (c, snd (register_accept i rv)) \<and>
     register_accept i (snd (register_accept i rv)) = (c', rv') \<and> c \<noteq> c' \<and>
     fst (accept_wait secs late c rv') = Some (Inl (StreamIoError ''rendezvous sender dropped'')) \<and>
     fst (accept_wait secs late c' (insert_inbound i s rv')) = Some (Inr s)"
  using assms
  by (auto simp: rv_idle_def register_accept_def new_chan_def accept_wait_def store_simps insert_inbound_def
      chan_send_def rv_chans_ok_def chans_ok_def vals_below_def Let_def set_update_new split: option.splits list.splits)

end
