(* ===== verification/Storage.thy ===== *)
theory Storage
  imports Node
begin

text \<open>
  The storage manager (\<open>Src/Storage/\<close>): the index of the files in the base directory, the lock of
  each file with its read and write guards, lazy discovery, removal, existence, checksums and the
  flush that reconciles the index with the disk. The disk is the list of files of the base
  directory with their contents. Every method body between two waits for a file lock is one
  atomic operation: the index has its own lock. Acquiring a file is two operations, the lookup of
  the lock and its grant, as other tasks run in between.
\<close>

section \<open>Data\<close>

datatype StorageError = St_NotFound string | St_InUse string | St_Io string

datatype ChecksumAlgorithm = Blake3 | Sha256 | XxHash64

definition ChecksumAlgorithm_default :: ChecksumAlgorithm where
  "ChecksumAlgorithm_default = XxHash64"

type_synonym lock_id = nat

record FileEntry =
  fe_file_name :: string
  fe_size :: u64
  fe_model_id :: "u32 option"
  fe_num_layers :: "u32 option"
  fe_layer_bitmap :: "bitmap option"
  fe_architecture :: "string option"
  fe_lock :: lock_id

text \<open>A guard, and a task that waits for one: the file it asked for and the lock it found.\<close>

record guard =
  gd_file :: string
  gd_lock :: lock_id
  gd_write :: bool

record storage =
  base_dir :: string
  files :: "(string \<times> FileEntry) list"
  next_lock :: lock_id
  disk :: "(string \<times> bytes) list"
  disk_dirs :: "string list"
  guards :: "guard list"
  waiting :: "guard list"

definition new_entry :: "string \<Rightarrow> lock_id \<Rightarrow> u64 \<Rightarrow> FileEntry" where
  "new_entry name lock sz =
     \<lparr>fe_file_name = name, fe_size = sz, fe_model_id = None, fe_num_layers = None,
      fe_layer_bitmap = None, fe_architecture = None, fe_lock = lock\<rparr>"

definition hidden :: "string \<Rightarrow> bool" where
  "hidden name \<longleftrightarrow> prefix ''.'' name"

definition is_file :: "storage \<Rightarrow> string \<Rightarrow> bool" where
  "is_file st name \<longleftrightarrow> map_of (disk st) name \<noteq> None"

text \<open>\<open>metadata.len()\<close> of a file of the base directory.\<close>

definition disk_len :: "storage \<Rightarrow> string \<Rightarrow> u64" where
  "disk_len st name = of_nat (case map_of (disk st) name of Some c \<Rightarrow> length c | None \<Rightarrow> 0)"

section \<open>Construction and lookup\<close>

fun index_files :: "(string \<times> bytes) list \<Rightarrow> lock_id \<Rightarrow> (string \<times> FileEntry) list \<Rightarrow> (string \<times> FileEntry) list \<times> lock_id" where
  "index_files [] l idx = (idx, l)"
| "index_files ((name, contents) # ds) l idx =
     (if hidden name then index_files ds l idx
      else index_files ds (l + 1) (AList.update name (new_entry name l (of_nat (length contents))) idx))"

definition Storage_New :: "string \<Rightarrow> (string \<times> bytes) list \<Rightarrow> string list \<Rightarrow> storage" where
  "Storage_New base dk dirs =
     (case index_files dk 0 [] of (idx, l) \<Rightarrow>
        \<lparr>base_dir = base, files = idx, next_lock = l, disk = dk, disk_dirs = dirs, guards = [], waiting = []\<rparr>)"

definition Resolve_Path :: "string \<Rightarrow> storage \<Rightarrow> StorageError + string" where
  "Resolve_Path file_id st =
     (if file_id = [] then Inl (St_NotFound ''empty file_id'')
      else if CHR ''/'' \<in> set file_id \<or> CHR 0x5C \<in> set file_id \<or> sublist ''..'' file_id
      then Inl (St_Io (''invalid file_id: '' @ file_id))
      else if prefix ''.'' file_id then Inl (St_Io (''hidden file_id not allowed: '' @ file_id))
      else Inr (base_dir st @ ''/'' @ file_id))"

definition insert_entry :: "string \<Rightarrow> u64 \<Rightarrow> storage \<Rightarrow> lock_id \<times> storage" where
  "insert_entry file_id sz st =
     (next_lock st,
      st\<lparr>files := AList.update file_id (new_entry file_id (next_lock st) sz) (files st),
         next_lock := next_lock st + 1\<rparr>)"

definition Lazy_Discover :: "string \<Rightarrow> storage \<Rightarrow> StorageError + (lock_id \<times> storage)" where
  "Lazy_Discover file_id st =
     (case map_of (files st) file_id of
        Some entry \<Rightarrow> Inr (fe_lock entry, st)
      | None \<Rightarrow>
          rbind (Resolve_Path file_id st) (\<lambda>full_path.
          if is_file st file_id then Inr (insert_entry file_id (disk_len st file_id) st)
          else Inl (St_NotFound (''file not found: '' @ file_id))))"

definition Ensure_Entry :: "string \<Rightarrow> storage \<Rightarrow> lock_id \<times> storage" where
  "Ensure_Entry file_id st =
     (case map_of (files st) file_id of
        Some entry \<Rightarrow> (fe_lock entry, st)
      | None \<Rightarrow> insert_entry file_id 0 st)"

text \<open>\<open>to_lowercase\<close> only matters on the letters of the two suffixes, whose only lower-case
  preimages are the ASCII letters.\<close>

definition ascii_lower :: "char \<Rightarrow> char" where
  "ascii_lower c = (let n = (of_char c :: nat) in if 65 \<le> n \<and> n \<le> 90 then char_of (n + 32) else c)"

definition Is_Model_File :: "string \<Rightarrow> bool" where
  "Is_Model_File file_name =
     (let lower = map ascii_lower file_name in suffix ''.gguf'' lower \<or> suffix ''.pgguf'' lower)"

section \<open>Guards\<close>

text \<open>A read lock is granted when nobody writes, a write lock when nobody holds the lock.\<close>

definition lock_free :: "storage \<Rightarrow> guard \<Rightarrow> bool" where
  "lock_free st g \<longleftrightarrow>
     (if gd_write g then (\<forall>h \<in> set (guards st). gd_lock h \<noteq> gd_lock g)
      else (\<forall>h \<in> set (guards st). gd_lock h = gd_lock g \<longrightarrow> \<not> gd_write h))"

definition begin_read :: "string \<Rightarrow> storage \<Rightarrow> StorageError + (string \<times> guard \<times> storage)" where
  "begin_read file_id st =
     rbind (Resolve_Path file_id st) (\<lambda>path.
     rbind (Lazy_Discover file_id st) (\<lambda>(lock, st).
     let g = \<lparr>gd_file = file_id, gd_lock = lock, gd_write = False\<rparr>
     in Inr (path, g, st\<lparr>waiting := g # waiting st\<rparr>)))"

definition begin_write :: "string \<Rightarrow> storage \<Rightarrow> StorageError + (string \<times> guard \<times> storage)" where
  "begin_write file_id st =
     rbind (Resolve_Path file_id st) (\<lambda>path.
     case Ensure_Entry file_id st of (lock, st) \<Rightarrow>
       let g = \<lparr>gd_file = file_id, gd_lock = lock, gd_write = True\<rparr>
       in Inr (path, g, st\<lparr>waiting := g # waiting st\<rparr>))"

definition grant :: "guard \<Rightarrow> storage \<Rightarrow> storage option" where
  "grant g st =
     (if g \<in> set (waiting st) \<and> lock_free st g
      then Some (st\<lparr>waiting := remove1 g (waiting st), guards := g # guards st\<rparr>) else None)"

text \<open>The acquisition as its caller sees it when nobody else interferes: \<open>None\<close> is blocking.\<close>

definition Acquire_Read :: "string \<Rightarrow> storage \<Rightarrow> StorageError + (string \<times> guard \<times> storage option)" where
  "Acquire_Read file_id st = rbind (begin_read file_id st) (\<lambda>(path, g, st). Inr (path, g, grant g st))"

definition Acquire_Write :: "string \<Rightarrow> storage \<Rightarrow> StorageError + (string \<times> guard \<times> storage option)" where
  "Acquire_Write file_id st = rbind (begin_write file_id st) (\<lambda>(path, g, st). Inr (path, g, grant g st))"

text \<open>
  Dropping a guard. A write guard first refreshes the size in the index, when \<open>try_write\<close> gets the
  index lock (\<open>idx_free\<close>) and the file exists.
\<close>

definition set_size :: "string \<Rightarrow> u64 \<Rightarrow> storage \<Rightarrow> storage" where
  "set_size file_id sz st =
     (case map_of (files st) file_id of
        Some e \<Rightarrow> st\<lparr>files := AList.update file_id (e\<lparr>fe_size := sz\<rparr>) (files st)\<rparr>
      | None \<Rightarrow> st)"

definition drop_guard :: "bool \<Rightarrow> guard \<Rightarrow> storage \<Rightarrow> storage" where
  "drop_guard idx_free g st =
     (let st = (if gd_write g \<and> idx_free \<and> is_file st (gd_file g)
                then set_size (gd_file g) (disk_len st (gd_file g)) st else st)
      in st\<lparr>guards := remove1 g (guards st)\<rparr>)"

section \<open>Removal and existence\<close>

text \<open>\<open>rm_ok\<close>: whether the operating system removes the file.\<close>

definition Storage_Remove :: "bool \<Rightarrow> string \<Rightarrow> storage \<Rightarrow> (StorageError + unit) \<times> storage" where
  "Storage_Remove rm_ok file_id st =
     (case Resolve_Path file_id st of
        Inl e \<Rightarrow> (Inl e, st)
      | Inr full_path \<Rightarrow>
          (case map_of (files st) file_id of
             None \<Rightarrow>
               if is_file st file_id then
                 (if rm_ok then (Inr (), st\<lparr>disk := AList.delete file_id (disk st)\<rparr>)
                  else (Inl (St_Io ''remove_file failed''), st))
               else (Inr (), st)
           | Some entry \<Rightarrow>
               if \<exists>g \<in> set (guards st). gd_lock g = fe_lock entry
               then (Inl (St_InUse (''file '' @ file_id @ '' is in use'')), st)
               else if is_file st file_id \<and> \<not> rm_ok then (Inl (St_Io ''remove_file failed''), st)
               else if \<not> is_file st file_id \<and> file_id \<in> set (disk_dirs st)
               then (Inl (St_Io ''remove_file failed''), st)
               else (Inr (), st\<lparr>disk := AList.delete file_id (disk st),
                                files := AList.delete file_id (files st)\<rparr>)))"

definition Storage_Exists :: "string \<Rightarrow> storage \<Rightarrow> (StorageError + bool) \<times> storage" where
  "Storage_Exists file_id st =
     (case Resolve_Path file_id st of
        Inl e \<Rightarrow> (Inl e, st)
      | Inr full_path \<Rightarrow>
          if map_of (files st) file_id = None then (Inr False, st)
          else if is_file st file_id then (Inr True, st)
          else if file_id \<in> set (disk_dirs st) then (Inr True, st)
          else (Inr False, st\<lparr>files := AList.delete file_id (files st)\<rparr>))"

definition Storage_List :: "storage \<Rightarrow> FileEntry list" where
  "Storage_List st = map snd (files st)"

section \<open>Checksum\<close>

text \<open>A hasher of the crates \<open>blake3\<close>, \<open>sha2\<close> and \<open>twox-hash\<close>: its start state, its update and its
  printed result.\<close>

record 'h hasher =
  h_start :: 'h
  h_update :: "bytes \<Rightarrow> 'h \<Rightarrow> 'h"
  h_finish :: "'h \<Rightarrow> string"

function Hash_File :: "(nat \<Rightarrow> nat) \<Rightarrow> nat \<Rightarrow> (bytes \<Rightarrow> 'h \<Rightarrow> 'h) \<Rightarrow> bytes \<Rightarrow> 'h \<Rightarrow> 'h" where
  "Hash_File sched i update contents h =
     (let n = read_count (sched i) 8192 contents in
      if n = 0 then h else Hash_File sched (Suc i) update (drop n contents) (update (take n contents) h))"
  by pat_completeness auto
termination
  by (relation "measure (\<lambda>(sched, i, update, contents, h). length contents)") (auto simp: read_count_0)

declare Hash_File.simps [simp del]

definition algo_prefix :: "ChecksumAlgorithm \<Rightarrow> string" where
  "algo_prefix a = (case a of Blake3 \<Rightarrow> ''blake3:'' | Sha256 \<Rightarrow> ''sha256:'' | XxHash64 \<Rightarrow> ''xxhash64:'')"

text \<open>The guard is dropped at the end, so an uncontended checksum only leaves a discovered entry.\<close>

definition Checksum ::
  "(ChecksumAlgorithm \<Rightarrow> 'h hasher) \<Rightarrow> (nat \<Rightarrow> nat) \<Rightarrow> string \<Rightarrow> ChecksumAlgorithm option \<Rightarrow> storage \<Rightarrow>
   StorageError + string option \<times> storage" where
  "Checksum hs sched file_id algo st =
     (let algo = unwrap_or ChecksumAlgorithm_default algo in
      rbind (Acquire_Read file_id st) (\<lambda>(path, g, granted).
      case granted of
        None \<Rightarrow> Inr (None, st)
      | Some st \<Rightarrow>
          rbind (ok_or (St_Io ''open failed'') (map_of (disk st) file_id)) (\<lambda>contents.
          let h = Hash_File sched 0 (h_update (hs algo)) contents (h_start (hs algo))
          in Inr (Some (algo_prefix algo @ h_finish (hs algo) h), drop_guard True g st))))"

section \<open>Flush\<close>

text \<open>What \<open>analyze_model\<close> reports of a model file; it may rewrite the disk (GGUF to PGGUF).\<close>

record analysis =
  an_model_id :: "u32 option"
  an_num_layers :: nat
  an_layer_bitmap :: "bitmap option"
  an_architecture :: string

type_synonym analyzer = "string \<Rightarrow> (string \<times> bytes) list \<Rightarrow> (string + analysis) \<times> (string \<times> bytes) list"

definition fill_entry :: "analysis \<Rightarrow> FileEntry \<Rightarrow> FileEntry" where
  "fill_entry a e =
     e\<lparr>fe_model_id := an_model_id a, fe_num_layers := Some (of_nat (an_num_layers a)),
       fe_layer_bitmap := an_layer_bitmap a, fe_architecture := Some (an_architecture a)\<rparr>"

definition modify_entry :: "string \<Rightarrow> (FileEntry \<Rightarrow> FileEntry) \<Rightarrow> storage \<Rightarrow> storage" where
  "modify_entry name f st =
     (case map_of (files st) name of
        Some e \<Rightarrow> st\<lparr>files := AList.update name (f e) (files st)\<rparr>
      | None \<Rightarrow> st)"

definition run_analysis :: "analyzer \<Rightarrow> string \<Rightarrow> storage \<Rightarrow> StorageError + ((string + analysis) \<times> storage)" where
  "run_analysis analyze name st =
     rbind (Resolve_Path name st) (\<lambda>full_path.
     case analyze name (disk st) of (r, dk) \<Rightarrow> Inr (r, st\<lparr>disk := dk\<rparr>))"

text \<open>A new file is analysed when it is a model; the analysis may fail without stopping the flush.\<close>

definition new_file_info :: "analyzer \<Rightarrow> string \<Rightarrow> storage \<Rightarrow> StorageError + ((string + analysis) \<times> storage)" where
  "new_file_info analyze name st =
     (if Is_Model_File name then run_analysis analyze name st else Inr (Inl [], st))"

definition apply_info :: "string \<Rightarrow> string + analysis \<Rightarrow> storage \<Rightarrow> storage" where
  "apply_info name r st = (case r of Inr a \<Rightarrow> modify_entry name (fill_entry a) st | Inl _ \<Rightarrow> st)"

text \<open>One directory entry: the new state and whether the file was newly discovered.\<close>

definition flush_one :: "analyzer \<Rightarrow> string \<Rightarrow> storage \<Rightarrow> StorageError + (bool \<times> storage)" where
  "flush_one analyze name st =
     (let actual_size = disk_len st name in
      if map_of (files st) name \<noteq> None then
        let st = set_size name actual_size st in
        if Is_Model_File name then
          rbind (run_analysis analyze name st) (\<lambda>(r, st). Inr (False, apply_info name r st))
        else Inr (False, st)
      else
        rbind (new_file_info analyze name st) (\<lambda>(r, st).
        Inr (True, apply_info name r (snd (insert_entry name actual_size st)))))"

text \<open>
  The scan over the names \<open>read_dir\<close> yields. A name whose entry is gone when it is reached makes
  the flush fail (\<open>metadata failed\<close>); directories and hidden names are skipped.
\<close>

fun flush_scan :: "analyzer \<Rightarrow> string list \<Rightarrow> storage \<Rightarrow> string list \<Rightarrow> nat \<Rightarrow>
    StorageError + (string list \<times> nat \<times> storage)" where
  "flush_scan analyze [] st disk_files discovered = Inr (disk_files, discovered, st)"
| "flush_scan analyze (name # names) st disk_files discovered =
     (if hidden name then flush_scan analyze names st disk_files discovered
      else if is_file st name then
        rbind (flush_one analyze name st) (\<lambda>(new, st).
        flush_scan analyze names st (name # disk_files) (if new then discovered + 1 else discovered))
      else if name \<in> set (disk_dirs st) then flush_scan analyze names st disk_files discovered
      else Inl (St_Io ''flush metadata failed''))"

fun clean_zombies :: "string list \<Rightarrow> storage \<Rightarrow> nat \<Rightarrow> nat \<times> storage" where
  "clean_zombies [] st cleaned = (cleaned, st)"
| "clean_zombies (z # zs) st cleaned =
     (case map_of (files st) z of
        None \<Rightarrow> clean_zombies zs st cleaned
      | Some entry \<Rightarrow>
          if \<exists>g \<in> set (guards st). gd_lock g = fe_lock entry then clean_zombies zs st cleaned
          else clean_zombies zs (st\<lparr>files := AList.delete z (files st)\<rparr>) (cleaned + 1))"

text \<open>The models the index knows, as they are published to the peer directory and the bus.\<close>

definition indexed_models :: "storage \<Rightarrow> SupportedModel list" where
  "indexed_models st =
     List.map_filter (\<lambda>e.
       case fe_model_id e of None \<Rightarrow> None
       | Some i \<Rightarrow> (case fe_layer_bitmap e of None \<Rightarrow> None
           | Some bm \<Rightarrow> Some \<lparr>sm_id = i, sm_file_name = fe_file_name e, sm_layer_bitmap = bm\<rparr>))
       (Storage_List st)"

definition Sync_Models_To_Peer_Manager :: "nat \<Rightarrow> storage \<Rightarrow> peer_map \<Rightarrow> peer_map \<times> state_event list" where
  "Sync_Models_To_Peer_Manager now st peers =
     (let models = indexed_models st in
      case Get_Local_Peer peers of
        Inl _ \<Rightarrow> (peers, [])
      | Inr local \<Rightarrow>
          (keep_on_error (update_supported_models now (pi_peer_id local) models) peers,
           [Ev_Peer_Info_Updated (pi_peer_id local) (pi_name local) True (models_display models) []]))"

definition Storage_Flush ::
  "analyzer \<Rightarrow> string list \<Rightarrow> nat \<Rightarrow> storage \<Rightarrow> peer_map \<Rightarrow>
   StorageError + ((nat \<times> nat) \<times> storage \<times> peer_map \<times> state_event list)" where
  "Storage_Flush analyze listing now st peers =
     rbind (flush_scan analyze listing st [] 0) (\<lambda>(disk_files, discovered, st).
     let zombies = filter (\<lambda>k. k \<notin> set disk_files) (map fst (files st)) in
     case clean_zombies zombies st 0 of (cleaned, st) \<Rightarrow>
     case Sync_Models_To_Peer_Manager now st peers of (peers, evs) \<Rightarrow>
       Inr ((discovered, cleaned), st, peers, evs))"

section \<open>The manager as a state machine\<close>

text \<open>
  Tasks call the operations in any order, and anything may happen to the files on the disk in
  between. \<open>strict\<close> leaves out the two steps that remove an index entry behind somebody's back:
  \<open>Exists\<close> on a file that is missing on disk while it is guarded or waited for, and \<open>Remove\<close> or a
  flush while a task waits for the lock of an entry.
\<close>

definition in_use :: "storage \<Rightarrow> string \<Rightarrow> bool" where
  "in_use st name \<longleftrightarrow> (\<exists>g \<in> set (guards st) \<union> set (waiting st). gd_file g = name)"

inductive storage_step :: "bool \<Rightarrow> storage \<Rightarrow> storage \<Rightarrow> bool" for strict where
  ss_disk: "storage_step strict st (st\<lparr>disk := dk, disk_dirs := dirs\<rparr>)"
| ss_begin_read: "begin_read name st = Inr (path, g, st') \<Longrightarrow> storage_step strict st st'"
| ss_begin_write: "begin_write name st = Inr (path, g, st') \<Longrightarrow> storage_step strict st st'"
| ss_grant: "grant g st = Some st' \<Longrightarrow> storage_step strict st st'"
| ss_cancel: "storage_step strict st (st\<lparr>waiting := remove1 g (waiting st)\<rparr>)"
| ss_drop: "g \<in> set (guards st) \<Longrightarrow> storage_step strict st (drop_guard idx_free g st)"
| ss_remove: "(strict \<Longrightarrow> \<forall>g \<in> set (waiting st). gd_file g \<noteq> name) \<Longrightarrow>
    storage_step strict st (snd (Storage_Remove rm_ok name st))"
| ss_exists: "(strict \<Longrightarrow> is_file st name \<or> \<not> in_use st name) \<Longrightarrow>
    storage_step strict st (snd (Storage_Exists name st))"
| ss_flush: "(strict \<Longrightarrow> waiting st = []) \<Longrightarrow>
    Storage_Flush analyze listing now st peers = Inr (counts, st', peers', evs) \<Longrightarrow> storage_step strict st st'"

fun compatible :: "guard list \<Rightarrow> bool" where
  "compatible [] = True"
| "compatible (g # gs) =
     ((\<forall>h \<in> set gs. gd_lock h = gd_lock g \<longrightarrow> \<not> gd_write h \<and> \<not> gd_write g) \<and> compatible gs)"

text \<open>What is kept of the index: keys, names and locks.\<close>

definition entry_view :: "string \<times> FileEntry \<Rightarrow> string \<times> string \<times> lock_id" where
  "entry_view x = (case x of (k, e) \<Rightarrow> (k, fe_file_name e, fe_lock e))"

definition view_ok :: "(string \<times> string \<times> lock_id) list \<Rightarrow> lock_id \<Rightarrow> bool" where
  "view_ok vs n \<longleftrightarrow> distinct (map fst vs) \<and> distinct (map (\<lambda>v. snd (snd v)) vs) \<and>
     (\<forall>(k, nm, l) \<in> set vs. nm = k \<and> l < n)"

definition index_ok :: "storage \<Rightarrow> bool" where
  "index_ok st \<longleftrightarrow> view_ok (map entry_view (files st)) (next_lock st)"

definition guards_indexed :: "storage \<Rightarrow> bool" where
  "guards_indexed st \<longleftrightarrow>
     (\<forall>g \<in> set (guards st) \<union> set (waiting st).
        \<exists>e. map_of (files st) (gd_file g) = Some e \<and> fe_lock e = gd_lock g)"

definition storage_inv :: "bool \<Rightarrow> storage \<Rightarrow> bool" where
  "storage_inv strict st \<longleftrightarrow>
     index_ok st \<and> compatible (guards st) \<and>
     (\<forall>g \<in> set (guards st) \<union> set (waiting st). gd_lock g < next_lock st) \<and>
     (strict \<longrightarrow> guards_indexed st)"

text \<open>\<open>grows\<close>: the index only gains entries, and entries keep their locks.\<close>

definition grows :: "storage \<Rightarrow> storage \<Rightarrow> bool" where
  "grows st st' \<longleftrightarrow> (index_ok st \<longrightarrow> index_ok st') \<and> next_lock st \<le> next_lock st' \<and>
     guards st' = guards st \<and> waiting st' = waiting st \<and>
     (\<forall>k e. map_of (files st) k = Some e \<longrightarrow> (\<exists>e'. map_of (files st') k = Some e' \<and> fe_lock e' = fe_lock e))"

lemma grows_refl [simp]: "grows st st"
  by (auto simp: grows_def)

lemma grows_trans [trans]: "grows a b \<Longrightarrow> grows b c \<Longrightarrow> grows a c"
  unfolding grows_def by (metis (no_types, lifting) order_trans)

lemma grows_inv: "storage_inv strict st \<Longrightarrow> grows st st' \<Longrightarrow> storage_inv strict st'"
  unfolding storage_inv_def guards_indexed_def grows_def
  by (metis (no_types, lifting) order_less_le_trans)

lemma update_same_view:
  assumes "map_of al k = Some e" "entry_view (k, e') = entry_view (k, e)"
  shows "map entry_view (AList.update k e' al) = map entry_view al"
  using assms(1) by (induction al) (auto simp: assms(2) split: if_splits)

lemma update_absent: "map_of al k = None \<Longrightarrow> AList.update k v al = al @ [(k, v)]"
  by (induction al) (auto split: if_splits)

lemma grows_update:
  assumes "map_of (files st) k = Some e" "fe_lock e' = fe_lock e" "fe_file_name e' = fe_file_name e"
  shows "grows st (st\<lparr>files := AList.update k e' (files st)\<rparr>)"
proof -
  have "map entry_view (AList.update k e' (files st)) = map entry_view (files st)"
    using assms by (intro update_same_view) (auto simp: entry_view_def)
  with assms show ?thesis by (auto simp: grows_def index_ok_def store_simps)
qed

lemma grows_set_size: "grows st (set_size k sz st)"
  using grows_update by (auto simp: set_size_def split: option.splits)

lemma grows_fill: "grows st (modify_entry k (fill_entry a) st)"
  using grows_update by (auto simp: modify_entry_def fill_entry_def split: option.splits)

lemma grows_disk: "grows st (st\<lparr>disk := dk\<rparr>)" "grows st (st\<lparr>disk := dk, disk_dirs := dd\<rparr>)"
  by (auto simp: grows_def index_ok_def)

lemma view_ok_append:
  "view_ok vs n \<Longrightarrow> k \<notin> fst ` set vs \<Longrightarrow> view_ok (vs @ [(k, k, n)]) (n + 1)"
  by (fastforce simp: view_ok_def)

lemma fst_entry_view [simp]: "fst ` entry_view ` A = fst ` A"
  by (force simp: entry_view_def image_iff)

lemma grows_insert:
  assumes "map_of (files st) k = None"
  shows "grows st (snd (insert_entry k sz st))"
proof -
  have "index_ok st \<Longrightarrow> view_ok (map entry_view (files st) @ [(k, k, next_lock st)]) (next_lock st + 1)"
    using assms unfolding index_ok_def by (intro view_ok_append) (simp_all add: map_of_eq_None_iff)
  then show ?thesis
    using assms
    by (auto simp: grows_def insert_entry_def index_ok_def update_absent entry_view_def new_entry_def map_add_def
        split: option.splits)
qed

lemma grows_run_analysis: "run_analysis an name st = Inr (r, st') \<Longrightarrow> grows st st'"
  by (auto simp: run_analysis_def rbind_eq_Inr grows_disk split: prod.splits)

lemma run_analysis_files: "run_analysis an name st = Inr (r, st') \<Longrightarrow> files st' = files st"
  by (auto simp: run_analysis_def rbind_eq_Inr split: prod.splits)

lemma grows_apply_info: "grows st (apply_info name r st)"
  by (auto simp: apply_info_def grows_fill split: sum.splits)

lemma new_file_info_grows: "new_file_info an name st = Inr (r, st') \<Longrightarrow> grows st st' \<and> files st' = files st"
  by (auto simp: new_file_info_def grows_run_analysis run_analysis_files split: if_splits)

lemma grows_flush_one:
  assumes "flush_one an name st = Inr (new, st')"
  shows "grows st st'"
proof (cases "map_of (files st) name")
  case None
  with assms obtain r st1 where n: "new_file_info an name st = Inr (r, st1)"
    and st': "st' = apply_info name r (snd (insert_entry name (disk_len st name) st1))"
    by (auto simp: flush_one_def Let_def rbind_eq_Inr)
  from new_file_info_grows [OF n] None have "map_of (files st1) name = None" "grows st st1" by auto
  with st' grows_insert grows_apply_info grows_trans show ?thesis by metis
next
  case (Some e)
  let ?st = "set_size name (disk_len st name) st"
  show ?thesis
  proof (cases "Is_Model_File name")
    case True
    with Some assms obtain r st1 where n: "run_analysis an name ?st = Inr (r, st1)"
      and st': "st' = apply_info name r st1"
      by (auto simp: flush_one_def Let_def rbind_eq_Inr)
    from grows_run_analysis [OF n] st' grows_set_size grows_apply_info grows_trans show ?thesis by metis
  qed (use Some assms in \<open>auto simp: flush_one_def Let_def grows_set_size\<close>)
qed

lemma grows_flush_scan: "flush_scan an names st dfs d = Inr (dfs', d', st') \<Longrightarrow> grows st st'"
proof (induction names arbitrary: st dfs d)
  case (Cons name names)
  show ?case
  proof (cases "\<not> hidden name \<and> is_file st name")
    case True
    with Cons.prems obtain new st1 where f: "flush_one an name st = Inr (new, st1)"
      and r: "flush_scan an names st1 (name # dfs) (if new then d + 1 else d) = Inr (dfs', d', st')"
      by (cases "flush_one an name st") auto
    from grows_flush_one [OF f] Cons.IH [OF r] show ?thesis by (rule grows_trans)
  next
    case False
    with Cons show ?thesis by (auto split: if_splits)
  qed
qed simp

text \<open>Entries are only removed when their lock is free, or by \<open>Exists\<close>.\<close>

lemma index_ok_delete: "index_ok st \<Longrightarrow> index_ok (st\<lparr>disk := dk, files := AList.delete k (files st)\<rparr>)"
  by (auto simp: index_ok_def view_ok_def entry_view_def AList.delete_eq distinct_map_filter
      inj_on_def distinct_map comp_def split_beta)

lemma storage_inv_delete:
  assumes "storage_inv strict st" "strict \<Longrightarrow> \<forall>g \<in> set (guards st) \<union> set (waiting st). gd_file g \<noteq> k"
  shows "storage_inv strict (st\<lparr>disk := dk, files := AList.delete k (files st)\<rparr>)"
  using assms index_ok_delete [where st = st and k = k and dk = dk]
  by (auto simp: storage_inv_def guards_indexed_def store_simps)

lemma storage_inv_delete_only:
  assumes "storage_inv strict st" "strict \<Longrightarrow> \<forall>g \<in> set (guards st) \<union> set (waiting st). gd_file g \<noteq> k"
  shows "storage_inv strict (st\<lparr>files := AList.delete k (files st)\<rparr>)"
  using storage_inv_delete [where dk = "disk st", OF assms] by simp

lemma free_lock_no_guard:
  assumes "guards_indexed st" "map_of (files st) k = Some e" "\<forall>g \<in> set (guards st). gd_lock g \<noteq> fe_lock e"
  shows "\<forall>g \<in> set (guards st). gd_file g \<noteq> k"
  using assms unfolding guards_indexed_def by (metis UnCI option.inject)

lemma storage_inv_remove:
  assumes inv: "storage_inv strict st" and w: "strict \<Longrightarrow> \<forall>g \<in> set (waiting st). gd_file g \<noteq> k"
  shows "storage_inv strict (snd (Storage_Remove rm_ok k st))"
proof (cases "map_of (files st) k")
  case None
  have "storage_inv strict (st\<lparr>disk := AList.delete k (disk st)\<rparr>)" using inv grows_disk(1) by (rule grows_inv)
  with None inv show ?thesis by (simp add: Storage_Remove_def split: sum.splits)
next
  case (Some e)
  have "storage_inv strict (st\<lparr>disk := dk, files := AList.delete k (files st)\<rparr>)"
    if "\<forall>g \<in> set (guards st). gd_lock g \<noteq> fe_lock e" for dk
    using storage_inv_delete [OF inv, where k = k and dk = dk] free_lock_no_guard [OF _ Some that] inv w
    by (auto simp: storage_inv_def)
  with Some inv show ?thesis by (auto simp: Storage_Remove_def split: sum.splits)
qed

lemma storage_inv_exists:
  assumes inv: "storage_inv strict st" and w: "strict \<Longrightarrow> is_file st k \<or> \<not> in_use st k"
  shows "storage_inv strict (snd (Storage_Exists k st))"
  using inv storage_inv_delete_only [OF inv, of k] w
  by (auto simp: Storage_Exists_def in_use_def split: sum.splits)

lemma storage_inv_zombies:
  assumes "storage_inv strict st" "strict \<Longrightarrow> waiting st = []"
  shows "storage_inv strict (snd (clean_zombies zs st n))"
  using assms
proof (induction zs st n rule: clean_zombies.induct)
  case (2 z zs st n)
  show ?case
  proof (cases "map_of (files st) z")
    case (Some e)
    show ?thesis
    proof (cases "\<exists>g \<in> set (guards st). gd_lock g = fe_lock e")
      case False
      have "storage_inv strict (st\<lparr>files := AList.delete z (files st)\<rparr>)"
        using 2(4,5) free_lock_no_guard [OF _ Some] False
        by (intro storage_inv_delete_only) (auto simp: storage_inv_def)
      with 2 Some False show ?thesis by auto
    qed (use 2 Some in auto)
  qed (use 2 in auto)
qed simp

lemma storage_inv_flush:
  assumes inv: "storage_inv strict st" and "strict \<Longrightarrow> waiting st = []"
    and f: "Storage_Flush an listing now st peers = Inr (counts, st', peers', evs)"
  shows "storage_inv strict st'"
proof -
  from f obtain dfs d st1 where s: "flush_scan an listing st [] 0 = Inr (dfs, d, st1)"
    and st': "st' = snd (clean_zombies (filter (\<lambda>k. k \<notin> set dfs) (map fst (files st1))) st1 0)"
    by (auto simp: Storage_Flush_def rbind_eq_Inr Let_def case_prod_beta)
  have g: "grows st st1" using s by (rule grows_flush_scan)
  then have "strict \<Longrightarrow> waiting st1 = []" using assms(2) by (simp add: grows_def)
  with grows_inv [OF inv g] show ?thesis unfolding st' by (rule storage_inv_zombies)
qed

lemma lookup_lock_grows:
  "Lazy_Discover k st = Inr (l, st') \<Longrightarrow> grows st st' \<and> (\<exists>e. map_of (files st') k = Some e \<and> fe_lock e = l)"
  "Ensure_Entry k st = (l, st') \<Longrightarrow> grows st st' \<and> (\<exists>e. map_of (files st') k = Some e \<and> fe_lock e = l)"
  using grows_insert [of st k]
  by (auto simp: Lazy_Discover_def Ensure_Entry_def rbind_eq_Inr insert_entry_def new_entry_def store_simps
      split: option.splits if_splits)

lemma storage_inv_wait:
  assumes "storage_inv strict st" "map_of (files st) (gd_file g) = Some e" "fe_lock e = gd_lock g"
  shows "storage_inv strict (st\<lparr>waiting := g # waiting st\<rparr>)"
proof -
  have "(gd_file g, e) \<in> set (files st)" using assms(2) by (rule map_of_SomeD)
  then have "gd_lock g < next_lock st"
    using assms(1,3) by (fastforce simp: storage_inv_def index_ok_def view_ok_def entry_view_def)
  with assms show ?thesis by (auto simp: storage_inv_def index_ok_def guards_indexed_def)
qed

lemma storage_inv_begin:
  assumes inv: "storage_inv strict st"
  shows "begin_read k st = Inr (p, g, st') \<Longrightarrow> storage_inv strict st'"
    and "begin_write k st = Inr (p, g, st') \<Longrightarrow> storage_inv strict st'"
proof -
  assume "begin_read k st = Inr (p, g, st')"
  then obtain l st1 where l: "Lazy_Discover k st = Inr (l, st1)"
    and st': "st' = st1\<lparr>waiting := \<lparr>gd_file = k, gd_lock = l, gd_write = False\<rparr> # waiting st1\<rparr>"
    by (auto simp: begin_read_def rbind_eq_Inr Let_def)
  from lookup_lock_grows(1) [OF l] grows_inv [OF inv] obtain e where "storage_inv strict st1"
    "map_of (files st1) k = Some e" "fe_lock e = l" by blast
  then show "storage_inv strict st'" unfolding st' by (intro storage_inv_wait) auto
next
  assume "begin_write k st = Inr (p, g, st')"
  then obtain l st1 where l: "Ensure_Entry k st = (l, st1)"
    and st': "st' = st1\<lparr>waiting := \<lparr>gd_file = k, gd_lock = l, gd_write = True\<rparr> # waiting st1\<rparr>"
    by (cases "Ensure_Entry k st") (auto simp: begin_write_def rbind_eq_Inr Let_def)
  from lookup_lock_grows(2) [OF l] grows_inv [OF inv] obtain e where "storage_inv strict st1"
    "map_of (files st1) k = Some e" "fe_lock e = l" by blast
  then show "storage_inv strict st'" unfolding st' by (intro storage_inv_wait) auto
qed

lemma compatible_remove1: "compatible gs \<Longrightarrow> compatible (remove1 g gs)"
  by (induction gs) (auto dest: notin_set_remove1 set_remove1_subset [THEN subsetD])

lemma storage_inv_grant:
  assumes "storage_inv strict st" "grant g st = Some st'"
  shows "storage_inv strict st'"
proof -
  from assms(2) have g: "g \<in> set (waiting st)" "lock_free st g"
    and st': "st' = st\<lparr>waiting := remove1 g (waiting st), guards := g # guards st\<rparr>"
    by (auto simp: grant_def split: if_splits)
  have "compatible (g # guards st)"
    using assms(1) g(2) by (auto simp: storage_inv_def lock_free_def split: if_splits)
  with assms(1) g(1) show ?thesis
    by (auto simp: st' storage_inv_def index_ok_def guards_indexed_def dest: set_remove1_subset [THEN subsetD])
qed

lemma storage_inv_drop:
  assumes "storage_inv strict st"
  shows "storage_inv strict (drop_guard idx_free g st)"
proof -
  let ?st = "if gd_write g \<and> idx_free \<and> is_file st (gd_file g)
    then set_size (gd_file g) (disk_len st (gd_file g)) st else st"
  have "storage_inv strict ?st" using grows_inv [OF assms grows_set_size] assms by simp
  then show ?thesis
    unfolding drop_guard_def Let_def
    by (auto simp: storage_inv_def index_ok_def guards_indexed_def compatible_remove1
        dest: set_remove1_subset [THEN subsetD])
qed

lemma storage_inv_cancel: "storage_inv strict st \<Longrightarrow> storage_inv strict (st\<lparr>waiting := remove1 g (waiting st)\<rparr>)"
  by (auto simp: storage_inv_def index_ok_def guards_indexed_def dest: set_remove1_subset [THEN subsetD])

lemma storage_inv_step: "storage_inv strict st \<Longrightarrow> storage_step strict st st' \<Longrightarrow> storage_inv strict st'"
  by (erule storage_step.cases)
    (auto intro: grows_inv [OF _ grows_disk(2)] storage_inv_begin storage_inv_grant storage_inv_cancel
      storage_inv_drop storage_inv_remove storage_inv_exists storage_inv_flush)

lemma entry_view_new [simp]: "entry_view (k, new_entry k l sz) = (k, k, l)"
  by (simp add: entry_view_def new_entry_def)

lemma index_files_ok:
  "view_ok (map entry_view idx) l \<Longrightarrow> distinct (map fst idx @ map fst ds) \<Longrightarrow> index_files ds l idx = (idx', l') \<Longrightarrow>
   view_ok (map entry_view idx') l'"
proof (induction ds l idx rule: index_files.induct)
  case (2 name contents ds l idx)
  show ?case
  proof (cases "hidden name")
    case False
    let ?e = "new_entry name l (of_nat (length contents))"
    have u: "AList.update name ?e idx = idx @ [(name, ?e)]"
      using 2(4) by (intro update_absent) (auto simp: map_of_eq_None_iff)
    have "view_ok (map entry_view (idx @ [(name, ?e)])) (l + 1)"
      using view_ok_append [OF 2(3), of name] 2(4) by simp
    with 2 False u show ?thesis by auto
  qed (use 2 in auto)
qed simp

lemma storage_inv_New: "distinct (map fst dk) \<Longrightarrow> storage_inv strict (Storage_New base dk dirs)"
  using index_files_ok [of "[]" 0 dk]
  by (auto simp: storage_inv_def Storage_New_def index_ok_def guards_indexed_def view_ok_def split: prod.splits)

interpretation storage_machine: state_machine "\<lambda>st. \<exists>base dk dirs. distinct (map fst dk) \<and> st = Storage_New base dk dirs"
    "storage_step strict" "storage_inv strict" for strict
  by unfold_locales (auto intro: storage_inv_New storage_inv_step)

definition storage_started :: "storage \<Rightarrow> bool" where
  "storage_started st \<longleftrightarrow> (\<exists>base dk dirs. distinct (map fst dk) \<and> st = Storage_New base dk dirs)"

lemma storage_reach_inv: "reach storage_started (storage_step strict) st \<Longrightarrow> storage_inv strict st"
  using storage_machine.reach_inv [of strict st] unfolding storage_started_def [abs_def] .

lemma lock_determines_file:
  assumes "index_ok st" "map_of (files st) a = Some d" "map_of (files st) b = Some e" "fe_lock d = fe_lock e"
  shows "a = b"
proof -
  have "distinct (map (\<lambda>v. snd (snd v)) (map entry_view (files st)))"
    using assms(1) by (simp add: index_ok_def view_ok_def)
  then have inj: "inj_on (\<lambda>x. snd (snd (entry_view x))) (set (files st))" by (simp add: distinct_map comp_def)
  have "(a, d) \<in> set (files st)" "(b, e) \<in> set (files st)" using assms(2,3) by (auto dest: map_of_SomeD)
  from inj_onD [OF inj _ this] show ?thesis using assms(4) by (simp add: entry_view_def)
qed

lemma guard_entry:
  "storage_inv True st \<Longrightarrow> g \<in> set (guards st) \<Longrightarrow> \<exists>e. map_of (files st) (gd_file g) = Some e \<and> fe_lock e = gd_lock g"
  by (auto simp: storage_inv_def guards_indexed_def)

lemma same_lock_same_file:
  assumes "storage_inv True st" "g \<in> set (guards st)" "h \<in> set (guards st)"
  shows "gd_lock g = gd_lock h \<longleftrightarrow> gd_file g = gd_file h"
proof -
  have "index_ok st" using assms(1) by (simp add: storage_inv_def)
  with guard_entry [OF assms(1,2)] guard_entry [OF assms(1,3)] show ?thesis
    by (auto dest: lock_determines_file)
qed

lemma compatible_nth:
  "compatible gs \<Longrightarrow> i < length gs \<Longrightarrow> j < length gs \<Longrightarrow> i \<noteq> j \<Longrightarrow> gd_lock (gs ! i) = gd_lock (gs ! j) \<Longrightarrow>
   \<not> gd_write (gs ! i)"
proof (induction gs arbitrary: i j)
  case (Cons g gs)
  show ?case
  proof (cases "i = 0 \<or> j = 0")
    case True
    with Cons.prems show ?thesis by (auto simp: nth_Cons split: nat.splits)
  next
    case False
    then obtain i' j' where "i = Suc i'" "j = Suc j'" by (auto simp: gr0_conv_Suc)
    with Cons show ?thesis by auto
  qed
qed simp

text \<open>The scan indexes what it visits, with the size on disk, and leaves the rest.\<close>

definition visible :: "storage \<Rightarrow> string \<Rightarrow> bool" where
  "visible st name \<longleftrightarrow> \<not> hidden name \<and> is_file st name"

definition quiet_analyzer :: "analyzer \<Rightarrow> bool" where
  "quiet_analyzer an \<longleftrightarrow> (\<forall>name dk. snd (an name dk) = dk)"

definition indexed_size :: "storage \<Rightarrow> string \<Rightarrow> u64 option" where
  "indexed_size st name = map_option fe_size (map_of (files st) name)"

lemma apply_info_simps [simp]:
  "disk (apply_info k r st) = disk st" "disk_dirs (apply_info k r st) = disk_dirs st"
  "guards (apply_info k r st) = guards st" "base_dir (apply_info k r st) = base_dir st"
  "indexed_size (apply_info k r st) j = indexed_size st j"
  by (auto simp: indexed_size_def apply_info_def modify_entry_def fill_entry_def store_simps split: sum.splits option.splits)

lemma flush_one_effect:
  assumes "flush_one an name st = Inr (new, st')" "quiet_analyzer an"
  shows "disk st' = disk st \<and> disk_dirs st' = disk_dirs st \<and> guards st' = guards st \<and>
         (new \<longleftrightarrow> map_of (files st) name = None) \<and>
         indexed_size st' j = (if j = name then Some (disk_len st name) else indexed_size st j)"
proof -
  have ra: "run_analysis an k s = Inr (r, s') \<Longrightarrow> s' = s" for k s r s'
    using assms(2) by (auto simp: run_analysis_def quiet_analyzer_def rbind_eq_Inr case_prod_beta)
  then have nf: "new_file_info an k s = Inr (r, s') \<Longrightarrow> s' = s" for k s r s'
    by (auto simp: new_file_info_def split: if_splits)
  have ss: "map_of (files st) name = Some e \<Longrightarrow> set_size name sz st =
      st\<lparr>files := AList.update name (e\<lparr>fe_size := sz\<rparr>) (files st)\<rparr>" for e sz
    by (simp add: set_size_def)
  from assms(1) show ?thesis
    unfolding flush_one_def Let_def
    by (auto simp: rbind_eq_Inr ss insert_entry_def new_entry_def split: if_splits dest!: ra nf)
      (auto simp: indexed_size_def store_simps)
qed

lemma flush_scan_effect:
  assumes "flush_scan an names st dfs d = Inr (dfs', d', st')" "quiet_analyzer an"
  shows "disk st' = disk st \<and> disk_dirs st' = disk_dirs st \<and> guards st' = guards st \<and>
         set dfs' = set dfs \<union> {n \<in> set names. visible st n} \<and>
         indexed_size st' j = (if j \<in> set names \<and> visible st j then Some (disk_len st j) else indexed_size st j)"
  using assms(1)
proof (induction names arbitrary: st dfs d)
  case (Cons name names)
  show ?case
  proof (cases "visible st name")
    case True
    with Cons.prems obtain new st1 where f: "flush_one an name st = Inr (new, st1)"
      and r: "flush_scan an names st1 (name # dfs) (if new then d + 1 else d) = Inr (dfs', d', st')"
      by (cases "flush_one an name st") (auto simp: visible_def)
    from flush_one_effect [OF f assms(2)] have e: "disk st1 = disk st" "disk_dirs st1 = disk_dirs st"
      "guards st1 = guards st" "indexed_size st1 j = (if j = name then Some (disk_len st name) else indexed_size st j)"
      by blast+
    then have "visible st1 = visible st" "disk_len st1 = disk_len st"
      by (auto simp: visible_def is_file_def disk_len_def fun_eq_iff)
    with Cons.IH [OF r] e True show ?thesis by auto
  next
    case False
    with Cons show ?thesis by (auto simp: visible_def split: if_splits)
  qed
qed simp

lemma clean_zombies_effect:
  "clean_zombies zs st n = (c, st') \<Longrightarrow>
   disk st' = disk st \<and> disk_dirs st' = disk_dirs st \<and> guards st' = guards st \<and>
   map_of (files st') j =
     (if j \<in> set zs \<and> (\<exists>e. map_of (files st) j = Some e \<and> (\<forall>g \<in> set (guards st). gd_lock g \<noteq> fe_lock e))
      then None else map_of (files st) j)"
proof (induction zs st n rule: clean_zombies.induct)
  case (2 z zs st n)
  then show ?case
    by (cases "map_of (files st) z") (auto simp: store_simps split: if_splits)
qed simp

section \<open>Properties\<close>


text \<open>A file in use is not removed: while a guard of the file is held, \<open>Remove\<close> reports that it
  is in use and changes neither the index nor the disk.\<close>

theorem remove_respects_guards:
  assumes "reach storage_started (storage_step True) st"
    and "g \<in> set (guards st)" "Resolve_Path (gd_file g) st = Inr path"
  shows "Storage_Remove rm_ok (gd_file g) st = (Inl (St_InUse (''file '' @ gd_file g @ '' is in use'')), st)"
proof -
  have "guards_indexed st" using storage_reach_inv [OF assms(1)] by (simp add: storage_inv_def)
  with assms(2) obtain e where "map_of (files st) (gd_file g) = Some e" "fe_lock e = gd_lock g"
    unfolding guards_indexed_def by (metis UnCI)
  with assms(2,3) show ?thesis by (auto simp: Storage_Remove_def)
qed


lemma sublist_dots [simp]: "\<not> sublist ''..'' [c]"
  by (auto simp: sublist_Cons_right)

definition demo_storage :: "guard list \<Rightarrow> storage" where
  "demo_storage gs =
     \<lparr>base_dir = ''b'', files = [(''f'', new_entry ''f'' 0 1)], next_lock = 1, disk = [(''f'', [7])],
      disk_dirs = [], guards = gs, waiting = []\<rparr>"

definition demo_guard :: guard where
  "demo_guard = \<lparr>gd_file = ''f'', gd_lock = 0, gd_write = False\<rparr>"

lemma demo_start: "storage_started (demo_storage [])"
  unfolding storage_started_def
  by (intro exI [of _ "''b''"] exI [of _ "[(''f'', [7])]"] exI [of _ "[]"])
    (simp add: demo_storage_def Storage_New_def hidden_def)

lemma demo_read:
  assumes "reach storage_started (storage_step strict) (demo_storage gs)" "gs \<in> {[], [demo_guard]}"
  shows "reach storage_started (storage_step strict) (demo_storage (demo_guard # gs))"
proof -
  let ?st = "(demo_storage gs)\<lparr>waiting := [demo_guard]\<rparr>"
  have "begin_read ''f'' (demo_storage gs) = Inr (''b/f'', demo_guard, ?st)"
    by (simp add: begin_read_def Resolve_Path_def Lazy_Discover_def demo_storage_def demo_guard_def new_entry_def Let_def)
  then have 1: "storage_step strict (demo_storage gs) ?st" by (rule ss_begin_read)
  have "grant demo_guard ?st = Some (demo_storage (demo_guard # gs))"
    using assms(2) by (auto simp: grant_def lock_free_def demo_storage_def demo_guard_def)
  then have 2: "storage_step strict ?st (demo_storage (demo_guard # gs))" by (rule ss_grant)
  show ?thesis by (rule reach_step [OF reach_step [OF assms(1) 1] 2])
qed


theorem remove_respects_guards_witness:
  "Storage_Remove True ''f'' (demo_storage [demo_guard]) = (Inl (St_InUse ''file f is in use''), demo_storage [demo_guard])"
proof -
  have "reach storage_started (storage_step True) (demo_storage [demo_guard])"
    by (intro demo_read reach_start demo_start) auto
  from remove_respects_guards [OF this, of demo_guard "''b/f''" True] show ?thesis
    by (simp add: demo_storage_def demo_guard_def Resolve_Path_def)
qed


text \<open>The existence check breaks the exclusion: after a task has acquired a new file for writing
  and before it has created it on disk, \<open>Exists\<close> drops the index entry with its lock, and a second
  task then gets a write guard of the same file while the first still holds one.\<close>

theorem exists_breaks_exclusion:
  assumes "Resolve_Path k st = Inr path" "map_of (files st) k = None" "guards st = []"
    and "\<not> is_file st k" "k \<notin> set (disk_dirs st)"
  shows "\<exists>g1 g2 st1 st2 st3.
     Acquire_Write k st = Inr (path, g1, Some st1) \<and>
     Storage_Exists k st1 = (Inr False, st2) \<and>
     Acquire_Write k st2 = Inr (path, g2, Some st3) \<and>
     guards st3 = [g2, g1] \<and> gd_write g1 \<and> gd_write g2 \<and> gd_file g1 = k \<and> gd_file g2 = k"
  using assms
  by (simp add: Acquire_Write_def begin_write_def Ensure_Entry_def insert_entry_def grant_def lock_free_def
      Storage_Exists_def is_file_def Resolve_Path_def store_simps new_entry_def Let_def split: if_splits)

theorem exists_breaks_exclusion_witness:
  "\<exists>g1 g2 st1 st2 st3.
     Acquire_Write ''n'' (demo_storage []) = Inr (''b/n'', g1, Some st1) \<and>
     Storage_Exists ''n'' st1 = (Inr False, st2) \<and>
     Acquire_Write ''n'' st2 = Inr (''b/n'', g2, Some st3) \<and>
     guards st3 = [g2, g1] \<and> gd_write g1 \<and> gd_write g2 \<and> gd_file g1 = ''n'' \<and> gd_file g2 = ''n''"
  by (rule exists_breaks_exclusion) (simp_all add: demo_storage_def Resolve_Path_def is_file_def)

lemma Hash_File_whole:
  assumes "\<And>a b h. update (a @ b) h = update b (update a h)" "\<And>h. update [] h = h"
  shows "Hash_File sched i update contents h = update contents h"
proof (induction "length contents" arbitrary: i contents h rule: less_induct)
  case less
  define n where "n = read_count (sched i) 8192 contents"
  show ?case
  proof (cases "n = 0")
    case True
    then have "contents = []" by (simp add: n_def read_count_0)
    with True assms(2) show ?thesis by (simp add: Hash_File.simps n_def)
  next
    case False
    then have "contents \<noteq> []" by (auto simp: n_def read_count_0)
    then have "length (drop n contents) < length contents" by (simp add: n_def)
    from less [OF this] have "Hash_File sched (Suc i) update (drop n contents) (update (take n contents) h)
        = update contents h"
      using assms(1) [of "take n contents" "drop n contents" h] by simp
    with False show ?thesis by (simp add: Hash_File.simps [of _ i] n_def Let_def)
  qed
qed

text \<open>A checksum does not depend on how the file is read: for a hasher whose updates compose,
  \<open>Checksum\<close> of a file that is not locked gives the algorithm's prefix and the digest of the whole
  contents, for every pattern of short reads, and leaves the guards as they were.\<close>

theorem checksum_of_contents:
  assumes "\<And>a b h. h_update (hs algo) (a @ b) h = h_update (hs algo) b (h_update (hs algo) a h)"
    and "\<And>h. h_update (hs algo) [] h = h"
    and "Resolve_Path k st = Inr path" "map_of (disk st) k = Some contents" "guards st = []"
  shows "\<exists>st'. Checksum hs sched k (Some algo) st =
      Inr (Some (algo_prefix algo @ h_finish (hs algo) (h_update (hs algo) contents (h_start (hs algo)))), st') \<and>
      guards st' = [] \<and> disk st' = disk st"
proof -
  have "\<exists>l st1. Lazy_Discover k st = Inr (l, st1) \<and> guards st1 = [] \<and> disk st1 = disk st"
    using assms(3,4,5) by (auto simp: Lazy_Discover_def is_file_def insert_entry_def split: option.splits)
  then obtain l st1 where l: "Lazy_Discover k st = Inr (l, st1)" "guards st1 = []" "disk st1 = disk st" by blast
  let ?g = "\<lparr>gd_file = k, gd_lock = l, gd_write = False\<rparr>"
  let ?st = "st1\<lparr>waiting := remove1 ?g (?g # waiting st1), guards := [?g]\<rparr>"
  have "Acquire_Read k st = Inr (path, ?g, Some ?st)"
    using assms(3) l by (simp add: Acquire_Read_def begin_read_def grant_def lock_free_def Let_def)
  then have "Checksum hs sched k (Some algo) st =
      Inr (Some (algo_prefix algo @ h_finish (hs algo) (Hash_File sched 0 (h_update (hs algo)) contents (h_start (hs algo)))),
        drop_guard True ?g ?st)"
    using assms(4) l(3) by (simp add: Checksum_def unwrap_or_def Let_def)
  moreover have "guards (drop_guard True ?g ?st) = []" "disk (drop_guard True ?g ?st) = disk st"
    using l by (auto simp: drop_guard_def)
  ultimately show ?thesis
    using Hash_File_whole [of "h_update (hs algo)" sched 0 contents "h_start (hs algo)", OF assms(1,2)] by auto
qed

theorem checksum_of_contents_witness:
  "\<exists>st'. Checksum (\<lambda>_. \<lparr>h_start = 0 :: nat, h_update = (\<lambda>b h. h + length b), h_finish = show_nat\<rparr>) (\<lambda>_. 3)
      ''f'' (Some Blake3) (demo_storage []) = Inr (Some (''blake3:'' @ show_nat 1), st') \<and>
      guards st' = [] \<and> disk st' = disk (demo_storage [])"
  using checksum_of_contents [of "\<lambda>_. \<lparr>h_start = 0 :: nat, h_update = (\<lambda>b h. h + length b), h_finish = show_nat\<rparr>" Blake3
      "''f''" "demo_storage []" "''b/f''" "[7]" "\<lambda>_. 3"]
  by (simp add: demo_storage_def Resolve_Path_def algo_prefix_def)

end
