(* ===== verification/Commands.thy ===== *)
theory Commands
  imports Bitmap Wire
begin

text \<open>
  The command protocol between nodes (\<open>Src/Orchestrator/command.rs\<close>), the command type of the
  front ends, and the ids of distributed inferences (\<open>Src/Orchestrator/inference_id.rs\<close>). \<open>usize\<close>
  is 64 bits wide.
\<close>

section \<open>User commands\<close>

type_synonym params = "(string \<times> string) list"
type_synonym job_id = u64

datatype UserCommand =
    Uc_Execute string params
  | Uc_Run string string
  | Uc_Cancel job_id
  | Uc_Quit
  | Uc_DisplayPeer
  | Uc_SetDevice string
  | Uc_DistributeModel string "(string \<times> nat \<times> nat) list"
  | Uc_List
  | Uc_Send string string
  | Uc_Profile string
  | Uc_Help
  | Uc_Flush
  | Uc_SetName string
  | Uc_Reload
  | Uc_Session string
  | Uc_SessionInference string u64 string
  | Uc_Api u64
  | Uc_ExecRemote string string params
  | Uc_Dial string

section \<open>Network commands\<close>

datatype NetworkProtocol =
    Establish_Tensor_Stream (inference_id: u64) (target_peer_id: string)
  | Join_Pipeline (inference_id: u64) (model_file_id: string) (device: string) (layer_start: u64) (layer_end: u64)
  | Profile_Request (model_id: string) (layer_count: u32) (device: string)
  | ExecRemote (exec_command: string) (params_json: string)

datatype command_error =
    Ce_Not_Utf8
  | Ce_Field_Count string nat
  | Ce_Number string parse_int_error
  | Ce_Unknown string

definition parse_u64 :: "string \<Rightarrow> parse_int_error + u64" where
  "parse_u64 s = rbind (parse_uint 18446744073709551615 s) (\<lambda>n. Inr (of_nat n))"

definition parse_u32 :: "string \<Rightarrow> parse_int_error + u32" where
  "parse_u32 s = rbind (parse_uint 4294967295 s) (\<lambda>n. Inr (of_nat n))"

definition show_u64 :: "u64 \<Rightarrow> string" where "show_u64 w = show_nat (unat w)"
definition show_u32 :: "u32 \<Rightarrow> string" where "show_u32 w = show_nat (unat w)"

definition Parse_Network_Command :: "bytes \<Rightarrow> command_error + NetworkProtocol" where
  "Parse_Network_Command payload =
     rbind (ok_or Ce_Not_Utf8 (from_utf8 payload)) (\<lambda>txt.
     let parts = split_on (CHR ''|'') txt in
     if parts ! 0 = ''ESTABLISH_TENSOR_STREAM'' then
       (if length parts \<noteq> 3 then Inl (Ce_Field_Count ''ESTABLISH_TENSOR_STREAM'' (length parts))
        else rbind (map_err (Ce_Number ''inference_id'') (parse_u64 (parts ! 1))) (\<lambda>inference_id.
             Inr (Establish_Tensor_Stream inference_id (parts ! 2))))
     else if parts ! 0 = ''JOIN_PIPELINE'' then
       (if length parts \<noteq> 6 then Inl (Ce_Field_Count ''JOIN_PIPELINE'' (length parts))
        else rbind (map_err (Ce_Number ''inference_id'') (parse_u64 (parts ! 1))) (\<lambda>inference_id.
             rbind (map_err (Ce_Number ''layer_start'') (parse_u64 (parts ! 4))) (\<lambda>layer_start.
             rbind (map_err (Ce_Number ''layer_end'') (parse_u64 (parts ! 5))) (\<lambda>layer_end.
             Inr (Join_Pipeline inference_id (parts ! 2) (parts ! 3) layer_start layer_end)))))
     else if parts ! 0 = ''PROFILE'' then
       (if length parts \<noteq> 4 then Inl (Ce_Field_Count ''PROFILE'' (length parts))
        else rbind (map_err (Ce_Number ''layer_count'') (parse_u32 (parts ! 2))) (\<lambda>layer_count.
             Inr (Profile_Request (parts ! 1) layer_count (parts ! 3))))
     else if parts ! 0 = ''EXEC'' then
       (if length parts \<noteq> 3 then Inl (Ce_Field_Count ''EXEC'' (length parts))
        else Inr (ExecRemote (parts ! 1) (parts ! 2)))
     else Inl (Ce_Unknown (parts ! 0)))"

definition command_fields :: "NetworkProtocol \<Rightarrow> string list" where
  "command_fields cmd =
     (case cmd of
        Establish_Tensor_Stream i t \<Rightarrow> [''ESTABLISH_TENSOR_STREAM'', show_u64 i, t]
      | Join_Pipeline i m d s e \<Rightarrow> [''JOIN_PIPELINE'', show_u64 i, m, d, show_u64 s, show_u64 e]
      | Profile_Request m c d \<Rightarrow> [''PROFILE'', m, show_u32 c, d]
      | ExecRemote c p \<Rightarrow> [''EXEC'', c, p])"

definition Serialize_Network_Command :: "NetworkProtocol \<Rightarrow> bytes" where
  "Serialize_Network_Command cmd = as_bytes (join_with ''|'' (command_fields cmd))"

text \<open>The commands the text format can carry: the free-text fields are strings without a bar.\<close>

definition bar_free :: "string \<Rightarrow> bool" where
  "bar_free s \<longleftrightarrow> CHR ''|'' \<notin> set s"

fun text_fields :: "NetworkProtocol \<Rightarrow> string list" where
  "text_fields (Establish_Tensor_Stream i t) = [t]"
| "text_fields (Join_Pipeline i m d s e) = [m, d]"
| "text_fields (Profile_Request m c d) = [m, d]"
| "text_fields (ExecRemote c p) = [c, p]"

definition command_ok :: "NetworkProtocol \<Rightarrow> bool" where
  "command_ok cmd \<longleftrightarrow> (\<forall>f \<in> set (text_fields cmd). is_str f \<and> bar_free f)"

lemma parse_show_u64 [simp]: "parse_u64 (show_u64 w) = Inr w"
  using unat_u64_less [of w] by (simp add: parse_u64_def show_u64_def)

lemma parse_show_u32 [simp]: "parse_u32 (show_u32 w) = Inr w"
  using unat_u32_less [of w] by (simp add: parse_u32_def show_u32_def)

lemma bar_free_show [simp]: "bar_free (show_u64 w)" "bar_free (show_u32 v)"
  using show_nat_chars [of "CHR ''|''"] by (auto simp: bar_free_def show_u64_def show_u32_def)

lemma is_str_show [simp]: "is_str (show_u64 w)" "is_str (show_u32 v)"
  by (simp_all add: show_u64_def show_u32_def ascii_is_str ascii_show_nat)

lemma is_str_join:
  "is_str sep \<Longrightarrow> \<forall>p \<in> set ps. is_str p \<Longrightarrow> is_str (join_with sep ps)"
  by (induction sep ps rule: join_with.induct) (auto simp: is_str_alt utf8_nats_append)

lemma command_fields_ok:
  assumes "command_ok cmd"
  shows "\<forall>p \<in> set (command_fields cmd). is_str p \<and> bar_free p" "command_fields cmd \<noteq> []"
proof -
  have "is_str ''ESTABLISH_TENSOR_STREAM''" "is_str ''JOIN_PIPELINE''" "is_str ''PROFILE''" "is_str ''EXEC''"
    by (rule ascii_is_str, simp add: ascii_def)+
  then show "\<forall>p \<in> set (command_fields cmd). is_str p \<and> bar_free p"
    using assms by (cases cmd) (auto simp: command_fields_def command_ok_def bar_free_def [of "_ # _"])
  show "command_fields cmd \<noteq> []" by (cases cmd) (simp_all add: command_fields_def)
qed

lemma split_serialized:
  assumes "command_ok cmd"
  shows "from_utf8 (Serialize_Network_Command cmd) = Some (join_with ''|'' (command_fields cmd))"
    and "split_on (CHR ''|'') (join_with ''|'' (command_fields cmd)) = command_fields cmd"
proof -
  have "is_str (join_with ''|'' (command_fields cmd))"
    using command_fields_ok [OF assms] by (intro is_str_join) (auto simp: is_str_alt)
  then show "from_utf8 (Serialize_Network_Command cmd) = Some (join_with ''|'' (command_fields cmd))"
    by (simp add: Serialize_Network_Command_def)
  show "split_on (CHR ''|'') (join_with ''|'' (command_fields cmd)) = command_fields cmd"
    using command_fields_ok [OF assms] by (intro split_join) (auto simp: bar_free_def)
qed

lemma parse_serialized: "command_ok cmd \<Longrightarrow> Parse_Network_Command (Serialize_Network_Command cmd) = Inr cmd"
  using split_serialized [of cmd]
  by (cases cmd) (simp_all add: Parse_Network_Command_def Let_def command_fields_def)

section \<open>Inference ids\<close>

text \<open>\<open>peer_hash\<close> is what the standard hasher gives for the peer id; the counter is a process-wide
  atomic that starts at 1 and wraps.\<close>

unbundle bit_operations_syntax

definition Generate_Inference_Id :: "u64 \<Rightarrow> u32 \<Rightarrow> u64 \<times> u32" where
  "Generate_Inference_Id peer_hash counter =
     (let high = (ucast (drop_bit 32 peer_hash) :: u32);
          low = counter
      in (push_bit 32 (ucast high) OR ucast low, counter + 1))"

definition id_low :: "u64 \<Rightarrow> u32" where "id_low i = ucast i"
definition id_high :: "u64 \<Rightarrow> u64" where "id_high i = drop_bit 32 i"

lemma Generate_low: "id_low (fst (Generate_Inference_Id h c)) = c"
  by (auto simp: Generate_Inference_Id_def id_low_def bit_eq_iff bit_simps)

lemma Generate_high: "id_high (fst (Generate_Inference_Id h c)) = id_high h"
  by (auto simp: Generate_Inference_Id_def id_high_def bit_eq_iff bit_simps dest: bit_imp_le_length)

interpretation inference_ids: id_source "Generate_Inference_Id h" unat "\<lambda>i. unat (id_low i)" "2 ^ 32 - 1" for h
proof
  fix c c' :: u32 and i
  assume c: "unat c < 2 ^ 32 - 1" and d: "Generate_Inference_Id h c = (i, c')"
  from d Generate_low [of h c] show "unat (id_low i) = unat c" by simp
  have "c' = c + 1" using d by (simp add: Generate_Inference_Id_def Let_def)
  then show "unat c' = Suc (unat c)" using c by (simp add: unat_word_ariths)
qed

section \<open>Properties\<close>

text \<open>C24: Every command whose text fields contain no bar survives the wire: parsing what
  \<open>Serialize_Network_Command\<close> produces gives the command back.\<close>

theorem network_command_roundtrip:
  assumes "command_ok cmd"
  shows "Parse_Network_Command (Serialize_Network_Command cmd) = Inr cmd"
  by (rule parse_serialized) (rule assms)

theorem network_command_roundtrip_witness:
  "Parse_Network_Command (Serialize_Network_Command (Join_Pipeline 7 ''m.pgguf'' ''cuda'' 10 19))
     = Inr (Join_Pipeline 7 ''m.pgguf'' ''cuda'' 10 19)"
  by (rule network_command_roundtrip) (simp add: command_ok_def is_str_alt bar_free_def)

text \<open>The format cannot carry a bar: a remote execution whose JSON parameters contain the
  separator is rejected by the receiver with a field count error, though the sender accepts it.\<close>

theorem exec_with_bar_rejected:
  assumes "is_str c" "is_str p" "bar_free c" "\<not> bar_free p"
  shows "Parse_Network_Command (Serialize_Network_Command (ExecRemote c p))
           = Inl (Ce_Field_Count ''EXEC'' (3 + count_list p (CHR ''|'')))"
proof -
  let ?t = "''EXEC|'' @ c @ ''|'' @ p"
  have "is_str ?t" using assms(1,2) by (intro is_str_append) (simp_all add: is_str_alt)
  then have "from_utf8 (Serialize_Network_Command (ExecRemote c p)) = Some ?t"
    by (simp add: Serialize_Network_Command_def command_fields_def del: as_bytes_append)
  moreover have "split_on (CHR ''|'') ?t = ''EXEC'' # c # split_on (CHR ''|'') p"
    using assms(3) split_on_append [of "CHR ''|''" "''EXEC''" "c @ ''|'' @ p"] by (simp add: bar_free_def)
  moreover have "count_list p (CHR ''|'') \<noteq> 0" using assms(4) by (simp add: bar_free_def count_list_0_iff)
  ultimately show ?thesis by (simp add: Parse_Network_Command_def length_split_on Let_def)
qed

theorem exec_with_bar_rejected_witness:
  "Parse_Network_Command (Serialize_Network_Command (ExecRemote ''run'' ''a|b''))
     = Inl (Ce_Field_Count ''EXEC'' (3 + count_list ''a|b'' (CHR ''|'')))"
  by (rule exec_with_bar_rejected) (simp_all add: is_str_alt bar_free_def)

text \<open>Inference ids are unique on a node and carry its mark: the first 4294967294 ids drawn are
  different, and the upper half of each is that of the node's hash.\<close>

theorem inference_ids_unique:
  assumes "n \<le> 4294967294"
  shows "distinct (inference_ids.draws h n 1) \<and> (\<forall>i \<in> set (inference_ids.draws h n 1). id_high i = id_high h)"
proof
  show "distinct (inference_ids.draws h n 1)"
    using assms by (intro inference_ids.draws_distinct) simp
  have "\<forall>i \<in> set (inference_ids.draws h n c). id_high i = id_high h" for c
    by (induction n arbitrary: c) (auto simp: Generate_high)
  then show "\<forall>i \<in> set (inference_ids.draws h n 1). id_high i = id_high h" .
qed

theorem inference_ids_unique_witness:
  "distinct (inference_ids.draws 77 3 1) \<and> id_high (inference_ids.draws 77 3 1 ! 2) = id_high 77"
  using inference_ids_unique [of 3 77] by (simp add: numeral_3_eq_3)

end
