(* ===== verification/Sessions.thy ===== *)
theory Sessions
  imports Tensor_Protocol
begin

text \<open>
  Inference sessions (\<open>Src/Session_Manager/\<close>): the slots of a session, the manager that creates and
  destroys sessions and hands out slots, and the session task with its request loop and its
  token-by-token generation over the local tensor stream to the model thread. Channels are
  numbers. The tokenizer and sampler of the session and the model thread at the other end of the
  stream are parameters of the generation.
\<close>

section \<open>Slots\<close>

record Slot =
  sl_id :: nat
  sl_token_tx :: nat

datatype SlotState = Vacant | Occupied Slot

text \<open>A slot notification: slot id, prompt receiver, token sender.\<close>

type_synonym slot_notice = "nat \<times> nat \<times> nat"

record Session =
  ses_id :: u64
  ses_model_id :: string
  ses_max_slots :: nat
  ses_slots :: "SlotState list"
  ses_eos_token_id :: u32
  ses_notices :: "slot_notice list"

definition Session_new :: "u64 \<Rightarrow> string \<Rightarrow> nat \<Rightarrow> u32 \<Rightarrow> Session" where
  "Session_new sid model max_slots eos =
     \<lparr>ses_id = sid, ses_model_id = model, ses_max_slots = max_slots,
      ses_slots = replicate max_slots Vacant, ses_eos_token_id = eos, ses_notices = []\<rparr>"

text \<open>The first vacant slot from index \<open>i\<close> on is taken.\<close>

fun allocate_from :: "nat \<Rightarrow> nat \<Rightarrow> SlotState list \<Rightarrow> (nat \<times> SlotState list) option" where
  "allocate_from i token_tx [] = None"
| "allocate_from i token_tx (Vacant # ss) = Some (i, Occupied \<lparr>sl_id = i, sl_token_tx = token_tx\<rparr> # ss)"
| "allocate_from i token_tx (Occupied s # ss) =
     (case allocate_from (i + 1) token_tx ss of
        None \<Rightarrow> None
      | Some (k, ss') \<Rightarrow> Some (k, Occupied s # ss'))"

definition allocate :: "nat \<Rightarrow> Session \<Rightarrow> (nat \<times> Session) option" where
  "allocate token_tx s =
     (case allocate_from 0 token_tx (ses_slots s) of
        None \<Rightarrow> None
      | Some (k, ss) \<Rightarrow> Some (k, s\<lparr>ses_slots := ss\<rparr>))"

definition release :: "nat \<Rightarrow> Session \<Rightarrow> Session" where
  "release slot_id s =
     (if slot_id < length (ses_slots s) then s\<lparr>ses_slots := (ses_slots s)[slot_id := Vacant]\<rparr> else s)"

definition is_occupied :: "SlotState \<Rightarrow> bool" where
  "is_occupied st = (case st of Vacant \<Rightarrow> False | Occupied _ \<Rightarrow> True)"

definition occupied_count :: "Session \<Rightarrow> nat" where
  "occupied_count s = length (filter is_occupied (ses_slots s))"

definition get_slot :: "nat \<Rightarrow> Session \<Rightarrow> Slot option" where
  "get_slot slot_id s =
     (if slot_id < length (ses_slots s) then
        (case ses_slots s ! slot_id of Occupied sl \<Rightarrow> Some sl | Vacant \<Rightarrow> None)
      else None)"

section \<open>The manager\<close>

datatype Session_Error = SessionNotFound string | SlotExhausted string | Session_Internal string

record SessionInfo =
  si_session_id :: u64
  si_model_id :: string
  si_total_slots :: nat
  si_occupied_slots :: nat

datatype session_event =
    Ev_Session_Created u64 string "SessionInfo list"
  | Ev_Session_Destroyed u64 "SessionInfo list"

record SessionManager =
  sessions :: "(u64 \<times> Session) list"
  mgr_max_slots :: nat
  counter :: u64
  next_channel :: nat
  session_events :: "session_event list"

definition SessionManager_new :: "nat \<Rightarrow> SessionManager" where
  "SessionManager_new max_slots =
     \<lparr>sessions = [], mgr_max_slots = max_slots, counter = 1, next_channel = 0, session_events = []\<rparr>"

definition session_info :: "Session \<Rightarrow> SessionInfo" where
  "session_info s = \<lparr>si_session_id = ses_id s, si_model_id = ses_model_id s,
     si_total_slots = ses_max_slots s, si_occupied_slots = occupied_count s\<rparr>"

definition list_sessions :: "SessionManager \<Rightarrow> SessionInfo list" where
  "list_sessions m = map (session_info \<circ> snd) (sessions m)"

definition publish_session_event :: "(SessionInfo list \<Rightarrow> session_event) \<Rightarrow> SessionManager \<Rightarrow> SessionManager" where
  "publish_session_event ev m = m\<lparr>session_events := session_events m @ [ev (list_sessions m)]\<rparr>"

definition create_session :: "string \<Rightarrow> SessionManager \<Rightarrow> u64 \<times> SessionManager" where
  "create_session model m =
     (let session_id = counter m;
          m = m\<lparr>counter := counter m + 1\<rparr>;
          session = Session_new session_id model (mgr_max_slots m) 1;
          m = m\<lparr>sessions := AList.update session_id session (sessions m)\<rparr>
      in (session_id, publish_session_event (Ev_Session_Created session_id model) m))"

definition destroy_session :: "u64 \<Rightarrow> SessionManager \<Rightarrow> (Session_Error + unit) \<times> SessionManager" where
  "destroy_session session_id m =
     (let m = m\<lparr>sessions := AList.delete session_id (sessions m)\<rparr>
      in (Inr (), publish_session_event (Ev_Session_Destroyed session_id) m))"

record SlotHandle =
  sh_session_id :: u64
  sh_slot_id :: nat
  sh_prompt_tx :: nat
  sh_token_rx :: nat

text \<open>Two channels are made before the slot is looked for; they are dropped when there is none.\<close>

definition allocate_slot :: "u64 \<Rightarrow> SessionManager \<Rightarrow> (Session_Error + SlotHandle) \<times> SessionManager" where
  "allocate_slot session_id m =
     (case map_of (sessions m) session_id of
        None \<Rightarrow> (Inl (SessionNotFound (show_nat (unat session_id))), m)
      | Some session \<Rightarrow>
          let prompt = next_channel m; token = next_channel m + 1;
              m = m\<lparr>next_channel := next_channel m + 2\<rparr>
          in case allocate token session of
               None \<Rightarrow> (Inl (SlotExhausted (show_nat (unat session_id))), m)
             | Some (slot_id, session) \<Rightarrow>
                 let session = session\<lparr>ses_notices := ses_notices session @ [(slot_id, prompt, token)]\<rparr>
                 in (Inr \<lparr>sh_session_id = session_id, sh_slot_id = slot_id, sh_prompt_tx = prompt, sh_token_rx = token\<rparr>,
                     m\<lparr>sessions := AList.update session_id session (sessions m)\<rparr>))"

definition close_slot :: "u64 \<Rightarrow> nat \<Rightarrow> SessionManager \<Rightarrow> SessionManager" where
  "close_slot session_id slot_id m =
     (case map_of (sessions m) session_id of
        Some session \<Rightarrow> m\<lparr>sessions := AList.update session_id (release slot_id session) (sessions m)\<rparr>
      | None \<Rightarrow> m)"

section \<open>The session task\<close>

text \<open>
  The tokenizer and the sampler as the task uses them. \<open>mo_frame\<close> is \<open>tensorize\<close> followed by
  \<open>tensor_to_bytes\<close>, \<open>mo_sample\<close> is \<open>bytes_to_tensor\<close> followed by \<open>sample\<close> at temperature 0.
\<close>

record 'm ml_ops =
  mo_encode :: "'m \<Rightarrow> string + u32 list"
  mo_frame :: "u32 list \<Rightarrow> string + bytes"
  mo_sample :: "bytes \<Rightarrow> string + u32"
  mo_decode :: "u32 \<Rightarrow> string + string"
  mo_eos :: u32

text \<open>
  The task's end of the local stream, its buffer, and what the slot's token channel has been sent.
  \<open>peer\<close> is what the model thread writes once it has read a further frame, given every byte it has
  been sent so far; the reply is in the inbound stream once the frame has been sent.
\<close>

record gen_state =
  ml_out :: out_stream
  ml_in :: bytes
  ml_buf :: Tensor_Buffer
  tokens_sent :: "string list"

type_synonym ml_peer = "bytes \<Rightarrow> bytes"

definition ml_send :: "ml_peer \<Rightarrow> u64 \<Rightarrow> bytes \<Rightarrow> gen_state \<Rightarrow> io_error + gen_state" where
  "ml_send peer offset d g =
     rbind (local_send_frame offset d (ml_out g)) (\<lambda>out.
     Inr (g\<lparr>ml_out := out, ml_in := ml_in g @ peer (sent out)\<rparr>))"

definition emit :: "string \<Rightarrow> gen_state \<Rightarrow> gen_state" where
  "emit t g = g\<lparr>tokens_sent := tokens_sent g @ [t]\<rparr>"

text \<open>The autoregressive loop; every way out is a \<open>break\<close>.\<close>

fun gen_loop :: "'m ml_ops \<Rightarrow> ml_peer \<Rightarrow> nat \<Rightarrow> nat \<Rightarrow> gen_state \<Rightarrow> gen_state" where
  "gen_loop ops peer 0 offset g = g"
| "gen_loop ops peer (Suc n) offset g =
     (case local_recv_frame (ml_in g) (ml_buf g) of
        (Inl e, b, s) \<Rightarrow> g\<lparr>ml_in := s, ml_buf := b\<rparr>
      | (Inr off, b, s) \<Rightarrow>
          let g = g\<lparr>ml_in := s, ml_buf := b\<rparr> in
          (case As_Slice b of
             None \<Rightarrow> g
           | Some logits \<Rightarrow>
               (case mo_sample ops logits of
                  Inl e \<Rightarrow> g
                | Inr token_id \<Rightarrow>
                    if token_id = mo_eos ops then g
                    else
                      let g = (case mo_decode ops token_id of Inr t \<Rightarrow> emit t g | Inl e \<Rightarrow> g) in
                      (case mo_frame ops [token_id] of
                         Inl e \<Rightarrow> g
                       | Inr next_data \<Rightarrow>
                           (case ml_send peer (of_nat offset) next_data g of
                              Inl e \<Rightarrow> g
                            | Inr g \<Rightarrow> gen_loop ops peer n (offset + 1) g)))))"

definition SENTINEL :: string where "SENTINEL = [CHR 0x00]"

text \<open>One request: whether the task goes on, and its state. Errors before the first frame is sent
  skip the terminating sentinel.\<close>

definition handle_request ::
  "'m ml_ops \<Rightarrow> ml_peer \<Rightarrow> 'm \<Rightarrow> u32 \<Rightarrow> gen_state \<Rightarrow> bool \<times> gen_state" where
  "handle_request ops peer messages max_tokens g =
     (case mo_encode ops messages of
        Inl e \<Rightarrow> (True, g)
      | Inr token_ids \<Rightarrow>
          (case mo_frame ops token_ids of
             Inl e \<Rightarrow> (True, g)
           | Inr d \<Rightarrow>
               (case ml_send peer 0 d g of
                  Inl e \<Rightarrow> (False, g)
                | Inr g \<Rightarrow>
                    let gen_limit = min (unat max_tokens) 2048
                    in (True, emit SENTINEL (gen_loop ops peer gen_limit (length token_ids) g)))))"

text \<open>Which slot the task serves: each new notice replaces the served slot and its prompt channel.\<close>

record slot_server =
  sv_slot :: nat
  sv_prompt_rx :: nat
  sv_tokens :: "(nat \<times> nat) list"

definition first_slot :: "slot_notice \<Rightarrow> slot_server" where
  "first_slot nt = (case nt of (k, rx, tx) \<Rightarrow> \<lparr>sv_slot = k, sv_prompt_rx = rx, sv_tokens = [(k, tx)]\<rparr>)"

fun take_notices :: "slot_notice list \<Rightarrow> slot_server \<Rightarrow> slot_server" where
  "take_notices [] sv = sv"
| "take_notices ((k, rx, tx) # ns) sv =
     take_notices ns (sv\<lparr>sv_tokens := AList.update k tx (sv_tokens sv), sv_slot := k, sv_prompt_rx := rx\<rparr>)"

section \<open>Slot lemmas\<close>

lemma allocate_from_None: "allocate_from i t ss = None \<longleftrightarrow> (\<forall>s \<in> set ss. is_occupied s)"
  by (induction i t ss rule: allocate_from.induct) (auto simp: is_occupied_def split: option.splits)

lemma allocate_from_SomeD:
  "allocate_from i t ss = Some (k, ss') \<Longrightarrow>
   \<exists>j < length ss. k = i + j \<and> ss ! j = Vacant \<and> (\<forall>l < j. is_occupied (ss ! l)) \<and>
     ss' = ss[j := Occupied \<lparr>sl_id = k, sl_token_tx = t\<rparr>]"
proof (induction i t ss arbitrary: k ss' rule: allocate_from.induct)
  case (3 i t s ss)
  then obtain ss1 where r: "allocate_from (i + 1) t ss = Some (k, ss1)" and e: "ss' = Occupied s # ss1"
    by (auto split: option.splits)
  from "3.IH" [OF r] obtain j where j: "j < length ss" "k = i + 1 + j" "ss ! j = Vacant"
    "\<forall>l < j. is_occupied (ss ! l)" "ss1 = ss[j := Occupied \<lparr>sl_id = k, sl_token_tx = t\<rparr>]"
    by blast
  have "\<forall>l < Suc j. is_occupied ((Occupied s # ss) ! l)"
    using j(4) by (auto simp: is_occupied_def less_Suc_eq_0_disj)
  then show ?case using j e by (intro exI [of _ "Suc j"]) simp
qed auto

lemma length_filter_all: "length (filter P xs) = length xs \<longleftrightarrow> (\<forall>x \<in> set xs. P x)"
proof (induction xs)
  case (Cons x xs)
  have "length (filter P xs) \<noteq> Suc (length xs)" using length_filter_le [of P xs] by linarith
  then show ?case using Cons by auto
qed simp

lemma allocate_None: "allocate t s = None \<longleftrightarrow> occupied_count s = length (ses_slots s)"
proof -
  have "occupied_count s = length (ses_slots s) \<longleftrightarrow> (\<forall>x \<in> set (ses_slots s). is_occupied x)"
    unfolding occupied_count_def by (rule length_filter_all)
  then show ?thesis
    using allocate_from_None [of 0 t "ses_slots s"] by (auto simp: allocate_def split: option.splits)
qed

lemma allocate_SomeD:
  assumes "allocate t s = Some (k, s')"
  shows "k < length (ses_slots s)" "ses_slots s ! k = Vacant" "\<forall>l < k. is_occupied (ses_slots s ! l)"
    "s' = s\<lparr>ses_slots := (ses_slots s)[k := Occupied \<lparr>sl_id = k, sl_token_tx = t\<rparr>]\<rparr>"
proof -
  from assms obtain ss where r: "allocate_from 0 t (ses_slots s) = Some (k, ss)"
    and e: "s' = s\<lparr>ses_slots := ss\<rparr>"
    by (auto simp: allocate_def split: option.splits)
  from allocate_from_SomeD [OF r]
  show "k < length (ses_slots s)" "ses_slots s ! k = Vacant" "\<forall>l < k. is_occupied (ses_slots s ! l)"
    "s' = s\<lparr>ses_slots := (ses_slots s)[k := Occupied \<lparr>sl_id = k, sl_token_tx = t\<rparr>]\<rparr>"
    using e by auto
qed

lemma split_filter_lengths:
  "length (filter P (us @ x # vs)) + (if P y then 1 else 0)
     = length (filter P (us @ y # vs)) + (if P x then 1 else (0 :: nat))"
  by simp

lemma length_filter_update:
  assumes "k < length xs"
  shows "length (filter P (xs[k := x])) + (if P (xs ! k) then 1 else 0)
           = length (filter P xs) + (if P x then 1 else 0)"
proof -
  have "xs = take k xs @ xs ! k # drop (Suc k) xs" using assms by (simp add: id_take_nth_drop)
  moreover have "xs[k := x] = take k xs @ x # drop (Suc k) xs" using assms by (simp add: upd_conv_take_nth_drop)
  ultimately show ?thesis
    by (metis (no_types) split_filter_lengths)
qed

lemma occupied_count_le: "occupied_count s \<le> length (ses_slots s)"
  by (simp add: occupied_count_def)

lemma allocate_count: "allocate t s = Some (k, s') \<Longrightarrow> occupied_count s' = occupied_count s + 1"
  using allocate_SomeD [of t s k s'] length_filter_update [of k "ses_slots s" is_occupied]
  by (simp add: occupied_count_def is_occupied_def)

lemma release_count:
  "get_slot k s = Some sl \<Longrightarrow> occupied_count (release k s) + 1 = occupied_count s"
  using length_filter_update [of k "ses_slots s" is_occupied Vacant]
  by (auto simp: occupied_count_def release_def get_slot_def is_occupied_def split: if_splits SlotState.splits)

lemma get_slot_allocate:
  "allocate t s = Some (k, s') \<Longrightarrow>
   get_slot j s' = (if j = k then Some \<lparr>sl_id = k, sl_token_tx = t\<rparr> else get_slot j s)"
  using allocate_SomeD [of t s k s'] by (auto simp: get_slot_def)

lemma get_slot_release: "get_slot j (release k s) = (if j = k then None else get_slot j s)"
  by (auto simp: get_slot_def release_def)

lemma get_slot_new [simp]: "get_slot j (Session_new i md n e) = None"
  by (simp add: get_slot_def Session_new_def)

lemma get_slot_notices [simp]: "get_slot j (s\<lparr>ses_notices := ns\<rparr>) = get_slot j s"
  by (simp add: get_slot_def)

lemma occupied_count_notices [simp]: "occupied_count (s\<lparr>ses_notices := ns\<rparr>) = occupied_count s"
  by (simp add: occupied_count_def)

section \<open>The manager invariant\<close>

text \<open>The sender a slot is registered with.\<close>

definition token_at :: "SessionManager \<Rightarrow> u64 \<Rightarrow> nat \<Rightarrow> nat option" where
  "token_at m i k = Option.bind (map_of (sessions m) i) (\<lambda>s. map_option sl_token_tx (get_slot k s))"

definition session_ok :: "SessionManager \<Rightarrow> u64 \<Rightarrow> Session \<Rightarrow> bool" where
  "session_ok m i s \<longleftrightarrow>
     ses_id s = i \<and> unat i < unat (counter m) \<and>
     ses_max_slots s = mgr_max_slots m \<and> length (ses_slots s) = mgr_max_slots m \<and>
     (\<forall>k sl. get_slot k s = Some sl \<longrightarrow> sl_id sl = k)"

definition manager_inv :: "SessionManager \<Rightarrow> bool" where
  "manager_inv m \<longleftrightarrow>
     (\<forall>i s. map_of (sessions m) i = Some s \<longrightarrow> session_ok m i s) \<and>
     (\<forall>i k t. token_at m i k = Some t \<longrightarrow> t < next_channel m) \<and>
     (\<forall>i k j l t. token_at m i k = Some t \<longrightarrow> token_at m j l = Some t \<longrightarrow> i = j \<and> k = l)"

text \<open>What the API and the scripts do with the manager. The counter is 64 bits wide.\<close>

inductive manager_step :: "SessionManager \<Rightarrow> SessionManager \<Rightarrow> bool" where
  ms_create: "counter m \<noteq> -1 \<Longrightarrow> manager_step m (snd (create_session model m))"
| ms_destroy: "manager_step m (snd (destroy_session i m))"
| ms_allocate: "manager_step m (snd (allocate_slot i m))"
| ms_close: "manager_step m (close_slot i k m)"

lemma manager_inv_new: "manager_inv (SessionManager_new n)"
  by (simp add: manager_inv_def SessionManager_new_def token_at_def)

lemma token_at_new: "token_at (SessionManager_new n) i k = None"
  by (simp add: SessionManager_new_def token_at_def)

lemma unat_succ: "(w :: u64) \<noteq> -1 \<Longrightarrow> unat (w + 1) = Suc (unat w)"
  by (metis add.commute add_eq_0_iff minus_equation_iff unatSuc)

lemma create_fields:
  "sessions (snd (create_session md m))
     = AList.update (counter m) (Session_new (counter m) md (mgr_max_slots m) 1) (sessions m)"
  "counter (snd (create_session md m)) = counter m + 1"
  "mgr_max_slots (snd (create_session md m)) = mgr_max_slots m"
  "next_channel (snd (create_session md m)) = next_channel m"
  "fst (create_session md m) = counter m"
  by (simp_all add: create_session_def publish_session_event_def Let_def)

lemma destroy_fields:
  "sessions (snd (destroy_session i m)) = AList.delete i (sessions m)"
  "counter (snd (destroy_session i m)) = counter m"
  "mgr_max_slots (snd (destroy_session i m)) = mgr_max_slots m"
  "next_channel (snd (destroy_session i m)) = next_channel m"
  by (simp_all add: destroy_session_def publish_session_event_def Let_def)

lemma manager_inv_create:
  assumes "manager_inv m" "counter m \<noteq> -1"
  shows "manager_inv (snd (create_session md m))"
proof -
  have new: "token_at (snd (create_session md m)) i k = (if i = counter m then None else token_at m i k)" for i k
    by (simp add: token_at_def create_fields store_simps)
  have "session_ok (snd (create_session md m)) i s"
    if "map_of (sessions (snd (create_session md m))) i = Some s" for i s
  proof (cases "i = counter m")
    case True
    then have "s = Session_new (counter m) md (mgr_max_slots m) 1"
      using that by (simp add: create_fields store_simps)
    then show ?thesis using True unat_succ [OF assms(2)]
      by (simp add: create_fields session_ok_def) (simp add: Session_new_def)
  next
    case False
    then have "session_ok m i s" using that assms(1) by (simp add: create_fields store_simps manager_inv_def)
    then show ?thesis using unat_succ [OF assms(2)] by (simp add: session_ok_def create_fields)
  qed
  then show ?thesis using assms(1) unfolding manager_inv_def new create_fields by (auto split: if_splits)
qed

lemma manager_inv_destroy:
  assumes "manager_inv m"
  shows "manager_inv (snd (destroy_session i m))"
proof -
  have "token_at (snd (destroy_session i m)) j k = (if j = i then None else token_at m j k)" for j k
    by (simp add: token_at_def destroy_fields store_simps)
  then show ?thesis using assms unfolding manager_inv_def destroy_fields session_ok_def
    by (auto simp: store_simps split: if_splits)
qed

lemma manager_inv_close:
  assumes "manager_inv m"
  shows "manager_inv (close_slot i k m)"
proof (cases "map_of (sessions m) i")
  case None
  then show ?thesis using assms by (simp add: close_slot_def)
next
  case (Some s)
  let ?m = "close_slot i k m"
  have f: "sessions ?m = AList.update i (release k s) (sessions m)" "counter ?m = counter m"
    "mgr_max_slots ?m = mgr_max_slots m" "next_channel ?m = next_channel m"
    using Some by (simp_all add: close_slot_def)
  have t: "token_at ?m j l = (if j = i \<and> l = k then None else token_at m j l)" for j l
    using Some by (simp add: token_at_def f store_simps get_slot_release)
  have "session_ok m i s" using Some assms by (simp add: manager_inv_def)
  then have "session_ok ?m i (release k s)"
    by (simp add: session_ok_def f get_slot_release) (simp add: release_def)
  then show ?thesis using assms unfolding manager_inv_def t f(4)
    by (auto simp: f store_simps session_ok_def split: if_splits)
qed

text \<open>The two outcomes of an allocation in a known session.\<close>

lemma allocate_slot_full:
  "map_of (sessions m) i = Some s \<Longrightarrow> allocate (next_channel m + 1) s = None \<Longrightarrow>
   allocate_slot i m = (Inl (SlotExhausted (show_nat (unat i))), m\<lparr>next_channel := next_channel m + 2\<rparr>)"
  by (simp add: allocate_slot_def Let_def)

lemma allocate_slot_free:
  "map_of (sessions m) i = Some s \<Longrightarrow> allocate (next_channel m + 1) s = Some (k, s') \<Longrightarrow>
   allocate_slot i m =
     (Inr \<lparr>sh_session_id = i, sh_slot_id = k, sh_prompt_tx = next_channel m, sh_token_rx = next_channel m + 1\<rparr>,
      m\<lparr>next_channel := next_channel m + 2,
        sessions := AList.update i (s'\<lparr>ses_notices := ses_notices s' @ [(k, next_channel m, next_channel m + 1)]\<rparr>) (sessions m)\<rparr>)"
  by (simp add: allocate_slot_def Let_def)

lemma manager_inv_allocate:
  assumes "manager_inv m"
  shows "manager_inv (snd (allocate_slot i m))"
proof (cases "map_of (sessions m) i")
  case None
  then show ?thesis using assms by (simp add: allocate_slot_def)
next
  case (Some s)
  show ?thesis
  proof (cases "allocate (next_channel m + 1) s")
    case None
    have "token_at (m\<lparr>next_channel := next_channel m + 2\<rparr>) j k = token_at m j k" for j k
      by (simp add: token_at_def)
    then show ?thesis using assms unfolding allocate_slot_full [OF Some None] manager_inv_def
      by (auto simp: session_ok_def intro: less_trans)
  next
    case free: (Some r)
    obtain k s' where r: "r = (k, s')" by fastforce
    note al = free [unfolded r]
    let ?m = "snd (allocate_slot i m)"
    have f: "counter ?m = counter m" "mgr_max_slots ?m = mgr_max_slots m" "next_channel ?m = next_channel m + 2"
      "sessions ?m = AList.update i (s'\<lparr>ses_notices := ses_notices s' @ [(k, next_channel m, next_channel m + 1)]\<rparr>) (sessions m)"
      using allocate_slot_free [OF Some al] by simp_all
    have t: "token_at ?m j l = (if j = i \<and> l = k then Some (next_channel m + 1) else token_at m j l)" for j l
      using Some by (simp add: token_at_def f store_simps get_slot_allocate [OF al])
    have "session_ok m i s" using Some assms by (simp add: manager_inv_def)
    then have ok: "session_ok ?m i (s'\<lparr>ses_notices := ses_notices s' @ [(k, next_channel m, next_channel m + 1)]\<rparr>)"
      unfolding session_ok_def get_slot_notices get_slot_allocate [OF al] f(1,2)
      by (auto simp: allocate_SomeD(4) [OF al])
    have "session_ok ?m j s1" if "map_of (sessions ?m) j = Some s1" for j s1
      using that ok assms unfolding f(4) by (auto simp: store_simps manager_inv_def session_ok_def f(1,2) split: if_splits)
    moreover have "x < next_channel ?m" if "token_at ?m j l = Some x" for j l x
    proof (cases "j = i \<and> l = k")
      case True
      then show ?thesis using that by (simp add: t f)
    next
      case False
      then have "token_at m j l = Some x" using that unfolding t by (simp only: if_False)
      then have "x < next_channel m" using assms unfolding manager_inv_def by blast
      then show ?thesis by (simp add: f)
    qed
    moreover have "j = j' \<and> l = l'" if "token_at ?m j l = Some x" "token_at ?m j' l' = Some x" for j l j' l' x
    proof -
      have old: "y < next_channel m" if "token_at m a b = Some y" for a b y
        using that assms unfolding manager_inv_def by blast
      have inj: "a = a' \<and> b = b'" if "token_at m a b = Some y" "token_at m a' b' = Some y" for a b a' b' y
        using that assms unfolding manager_inv_def by blast
      show ?thesis using that old [of _ _ "next_channel m + 1"] inj [of j l x j' l']
        unfolding t by (auto split: if_splits)
    qed
    ultimately show ?thesis unfolding manager_inv_def by blast
  qed
qed

interpretation sessions_machine: state_machine "\<lambda>m. m = SessionManager_new n" manager_step manager_inv for n
proof
  fix m m'
  assume "manager_inv m" "manager_step m m'"
  from this(2, 1) show "manager_inv m'"
    by cases (simp_all add: manager_inv_create manager_inv_destroy manager_inv_allocate manager_inv_close)
qed (simp add: manager_inv_new)

interpretation session_ids: id_source "create_session model" "\<lambda>m. unat (counter m)" unat "2 ^ 64 - 1" for model
proof
  fix m m' :: SessionManager and i
  assume c: "unat (counter m) < 2 ^ 64 - 1" and d: "create_session model m = (i, m')"
  show "unat i = unat (counter m)" using create_fields(5) [of model m] d by simp
  have "unat (-1 :: u64) = 2 ^ 64 - 1" by (simp add: unsigned_minus_1_eq_mask mask_eq_exp_minus_1)
  then have "counter m \<noteq> -1" using c by force
  then show "unat (counter m') = Suc (unat (counter m))"
    using unat_succ create_fields(2) [of model m] d by simp
qed

section \<open>Generation\<close>

text \<open>
  A model thread that answers every frame with one frame: \<open>answer h\<close> is offset and logits of its
  reply when \<open>h\<close> is everything it has been sent. An answer is never the end marker.
\<close>

definition answering :: "(bytes \<Rightarrow> u64 \<times> bytes) \<Rightarrow> ml_peer \<Rightarrow> bool" where
  "answering answer peer \<longleftrightarrow> (\<forall>h. local_ok (answer h) \<and> peer h = tensor_frame (answer h))"

text \<open>
  The specification: greedy decoding over a perfect conversation, without streams and buffers, for
  a tokenizer that never fails. It gives the tokens, whether the end token ended the generation,
  and everything the model thread has been sent.
\<close>

fun greedy ::
  "(bytes \<Rightarrow> u32) \<Rightarrow> (u32 \<Rightarrow> bytes) \<Rightarrow> u32 \<Rightarrow> (bytes \<Rightarrow> u64 \<times> bytes) \<Rightarrow> nat \<Rightarrow> nat \<Rightarrow> bytes \<Rightarrow>
   u32 list \<times> bool \<times> bytes" where
  "greedy smp frm eos answer 0 off h = ([], False, h)"
| "greedy smp frm eos answer (Suc n) off h =
     (let t = smp (snd (answer h)) in
      if t = eos then ([], True, h)
      else (case greedy smp frm eos answer n (off + 1) (h @ tensor_frame (of_nat off, frm t)) of
              (ts, e, h') \<Rightarrow> (t # ts, e, h')))"

definition total_ops :: "'m ml_ops \<Rightarrow> (bytes \<Rightarrow> u32) \<Rightarrow> (u32 list \<Rightarrow> bytes) \<Rightarrow> (u32 \<Rightarrow> string) \<Rightarrow> bool" where
  "total_ops ops smp frm dec \<longleftrightarrow>
     (\<forall>d. mo_sample ops d = Inr (smp d)) \<and> (\<forall>ts. mo_frame ops ts = Inr (frm ts)) \<and>
     (\<forall>t. mo_decode ops t = Inr (dec t))"

lemma local_recv_tensor_frame:
  assumes "local_ok m"
  obtains b' where "local_recv_frame (tensor_frame m @ s) b = (Inr (fst m), b', s)" "As_Slice b' = Some (snd m)"
proof -
  have v: "frame_view local_recv_frame b (tensor_frame m @ s) = Inr (m, s)"
    using assms by (simp add: frame_view_local tensor_reader_frame)
  obtain r b' s' where c: "local_recv_frame (tensor_frame m @ s) b = (r, b', s')" by (metis prod_cases3)
  from v have "r = Inr (fst m) \<and> As_Slice b' = Some (snd m) \<and> s' = s"
    by (auto simp: frame_view_def c split: sum.splits option.splits)
  then show ?thesis using that c by blast
qed

lemma ml_send_ok:
  assumes "room (ml_out g) = None"
  shows "ml_send peer off d g =
    Inr (g\<lparr>ml_out := (ml_out g)\<lparr>sent := sent (ml_out g) @ tensor_frame (off, d)\<rparr>,
           ml_in := ml_in g @ peer (sent (ml_out g) @ tensor_frame (off, d))\<rparr>)"
  using assms by (simp add: ml_send_def local_send_frame_eq write_all_def)

lemma gen_loop_greedy:
  assumes "answering answer peer" "total_ops ops smp frm dec"
    and "room (ml_out g) = None" "ml_in g = tensor_frame (answer (sent (ml_out g)))"
    and "greedy smp (\<lambda>t. frm [t]) (mo_eos ops) answer n off (sent (ml_out g)) = (ts, e, h)"
  shows "\<exists>b. gen_loop ops peer n off g =
    g\<lparr>ml_out := (ml_out g)\<lparr>sent := h\<rparr>, ml_in := (if e then [] else tensor_frame (answer h)), ml_buf := b,
      tokens_sent := tokens_sent g @ map dec ts\<rparr>"
  using assms(3-5)
proof (induction n arbitrary: off g ts)
  case 0
  then show ?case by (intro exI [of _ "ml_buf g"]) auto
next
  case (Suc n)
  let ?h = "sent (ml_out g)"
  have ok: "local_ok (answer ?h)" and peer: "peer x = tensor_frame (answer x)" for x
    using assms(1) by (simp_all add: answering_def)
  obtain b where r: "local_recv_frame (ml_in g) (ml_buf g) = (Inr (fst (answer ?h)), b, [])"
    and sl: "As_Slice b = Some (snd (answer ?h))"
    using local_recv_tensor_frame [OF ok, of "[]" "ml_buf g"] Suc.prems(2) by auto
  let ?t = "smp (snd (answer ?h))"
  have smp: "mo_sample ops (snd (answer ?h)) = Inr ?t" and frm: "mo_frame ops [?t] = Inr (frm [?t])"
    and dec: "mo_decode ops ?t = Inr (dec ?t)"
    using assms(2) by (simp_all add: total_ops_def)
  show ?case
  proof (cases "?t = mo_eos ops")
    case True
    then show ?thesis using Suc.prems(3) by (intro exI [of _ b]) (auto simp: r sl smp Let_def)
  next
    case False
    let ?h' = "?h @ tensor_frame (of_nat off, frm [?t])"
    let ?g = "g\<lparr>ml_buf := b, tokens_sent := tokens_sent g @ [dec ?t],
                ml_out := (ml_out g)\<lparr>sent := ?h'\<rparr>, ml_in := tensor_frame (answer ?h')\<rparr>"
    obtain ts' where g: "greedy smp (\<lambda>t. frm [t]) (mo_eos ops) answer n (off + 1) ?h' = (ts', e, h)"
      and ts: "ts = ?t # ts'"
      using Suc.prems(3) False by (auto simp: Let_def split: prod.splits)
    have step: "gen_loop ops peer (Suc n) off g = gen_loop ops peer n (off + 1) ?g"
      using False Suc.prems(1) by (simp add: r sl smp frm dec Let_def emit_def ml_send_ok peer)
    from Suc.IH [of ?g "off + 1" ts'] g Suc.prems(1)
    obtain b' where "gen_loop ops peer n (off + 1) ?g =
      ?g\<lparr>ml_out := (ml_out ?g)\<lparr>sent := h\<rparr>, ml_in := (if e then [] else tensor_frame (answer h)), ml_buf := b',
        tokens_sent := tokens_sent ?g @ map dec ts'\<rparr>" by auto
    then show ?thesis unfolding step ts by (intro exI [of _ b']) simp
  qed
qed

lemma greedy_length: "greedy smp frm eos answer n off h = (ts, e, h') \<Longrightarrow> length ts \<le> n"
  by (induction n arbitrary: off h ts) (fastforce simp: Let_def split: if_splits prod.splits)+

text \<open>On every path the loop only appends texts, at most one per round.\<close>

lemma ml_send_tokens: "ml_send peer off d g = Inr g' \<Longrightarrow> tokens_sent g' = tokens_sent g"
  by (cases "local_send_frame off d (ml_out g)") (auto simp: ml_send_def)

lemma gen_loop_tokens:
  "\<exists>ts. tokens_sent (gen_loop ops peer n off g) = tokens_sent g @ ts \<and> length ts \<le> n"
proof (induction n arbitrary: off g)
  case (Suc n)
  obtain r b s where rv: "local_recv_frame (ml_in g) (ml_buf g) = (r, b, s)" by (metis prod_cases3)
  let ?g = "g\<lparr>ml_in := s, ml_buf := b\<rparr>"
  consider (stop) "gen_loop ops peer (Suc n) off g = ?g"
    | (tok) t ts where "length ts \<le> 1" "tokens_sent t = tokens_sent g @ ts"
        "gen_loop ops peer (Suc n) off g = t \<or> gen_loop ops peer (Suc n) off g = gen_loop ops peer n (off + 1) t"
  proof (cases "case r of Inl _ \<Rightarrow> None | Inr _ \<Rightarrow> As_Slice b")
    case None
    then show ?thesis by (intro stop) (auto simp: rv Let_def split: sum.splits)
  next
    case (Some d)
    then obtain off' where r: "r = Inr off'" "As_Slice b = Some d" by (cases r) auto
    show ?thesis
    proof (cases "mo_sample ops d")
      case Inl
      then show ?thesis by (intro stop) (simp add: rv r Let_def)
    next
      case smp: (Inr t)
      let ?e = "case mo_decode ops t of Inr x \<Rightarrow> emit x ?g | Inl _ \<Rightarrow> ?g"
      have e: "\<exists>ts. length ts \<le> 1 \<and> tokens_sent ?e = tokens_sent g @ ts"
        by (cases "mo_decode ops t") (auto simp: emit_def)
      then obtain ts where ts: "length ts \<le> 1" "tokens_sent ?e = tokens_sent g @ ts" by blast
      consider (eos) "t = mo_eos ops" | (bad) "t \<noteq> mo_eos ops" "gen_loop ops peer (Suc n) off g = ?e"
        | (go) d' g' where "t \<noteq> mo_eos ops" "ml_send peer (of_nat off) d' ?e = Inr g'"
            "gen_loop ops peer (Suc n) off g = gen_loop ops peer n (off + 1) g'"
      proof (cases "t = mo_eos ops")
        case False
        then show ?thesis
        proof (cases "mo_frame ops [t]")
          case Inl
          then show ?thesis using bad False by (simp add: rv r smp Let_def)
        next
          case (Inr d')
          then show ?thesis using bad go False
            by (cases "ml_send peer (of_nat off) d' ?e") (simp_all add: rv r smp Let_def)
        qed
      qed blast
      then show ?thesis
      proof cases
        case eos
        then show ?thesis by (intro stop) (simp add: rv r smp Let_def)
      next
        case bad
        then show ?thesis using tok ts by blast
      next
        case go
        then show ?thesis using tok [OF ts(1)] ts(2) ml_send_tokens [OF go(2)] by metis
      qed
    qed
  qed
  then show ?case
  proof cases
    case stop
    then show ?thesis by (intro exI [of _ "[]"]) simp
  next
    case tok
    from Suc.IH [of "off + 1" t] obtain us where "tokens_sent (gen_loop ops peer n (off + 1) t) = tokens_sent t @ us"
      "length us \<le> n" by blast
    then show ?thesis using tok by (elim disjE) (intro exI [of _ ts] exI [of _ "ts @ us"], simp)+
  qed
qed simp

lemma handle_request_greedy:
  assumes "answering answer peer" "total_ops ops smp frm dec"
    and "room (ml_out g) = None" "ml_in g = []" "mo_encode ops messages = Inr ids"
    and "greedy smp (\<lambda>t. frm [t]) (mo_eos ops) answer (min (unat max_tokens) 2048) (length ids)
           (sent (ml_out g) @ tensor_frame (0, frm ids)) = (ts, e, h)"
  shows "\<exists>b. handle_request ops peer messages max_tokens g =
    (True, g\<lparr>ml_out := (ml_out g)\<lparr>sent := h\<rparr>, ml_in := (if e then [] else tensor_frame (answer h)), ml_buf := b,
             tokens_sent := tokens_sent g @ map dec ts @ [SENTINEL]\<rparr>)"
proof -
  let ?h = "sent (ml_out g) @ tensor_frame (0, frm ids)"
  let ?g = "g\<lparr>ml_out := (ml_out g)\<lparr>sent := ?h\<rparr>, ml_in := peer ?h\<rparr>"
  have peer: "peer x = tensor_frame (answer x)" for x using assms(1) by (simp add: answering_def)
  have s: "ml_send peer 0 (frm ids) g = Inr ?g"
    using ml_send_ok [OF assms(3), of peer 0 "frm ids"] assms(4) by simp
  obtain b where "gen_loop ops peer (min (unat max_tokens) 2048) (length ids) ?g =
      ?g\<lparr>ml_out := (ml_out ?g)\<lparr>sent := h\<rparr>, ml_in := (if e then [] else tensor_frame (answer h)), ml_buf := b,
        tokens_sent := tokens_sent ?g @ map dec ts\<rparr>"
    using gen_loop_greedy [OF assms(1,2), of ?g "min (unat max_tokens) 2048" "length ids" ts e h] assms(3,6)
    by (auto simp: peer)
  moreover have "mo_frame ops ids = Inr (frm ids)" using assms(2) by (simp add: total_ops_def)
  ultimately have "handle_request ops peer messages max_tokens g =
      (True, g\<lparr>ml_out := (ml_out g)\<lparr>sent := h\<rparr>, ml_in := (if e then [] else tensor_frame (answer h)), ml_buf := b,
             tokens_sent := tokens_sent g @ map dec ts @ [SENTINEL]\<rparr>)"
    using assms(5) by (simp add: handle_request_def s emit_def Let_def)
  then show ?thesis by blast
qed

text \<open>A frame that is still unread when a request comes in decides the request's first text.\<close>

lemma stale_first_text:
  assumes "local_ok stale" "total_ops ops smp frm dec" "mo_encode ops messages = Inr ids"
    and "room (ml_out g) = None" "ml_in g = tensor_frame stale" "max_tokens \<noteq> 0"
    and "smp (snd stale) \<noteq> mo_eos ops"
  shows "\<exists>us. tokens_sent (snd (handle_request ops peer messages max_tokens g))
                = tokens_sent g @ dec (smp (snd stale)) # us"
proof -
  let ?h = "sent (ml_out g) @ tensor_frame (0, frm ids)"
  let ?g = "g\<lparr>ml_out := (ml_out g)\<lparr>sent := ?h\<rparr>, ml_in := ml_in g @ peer ?h\<rparr>"
  have s: "ml_send peer 0 (frm ids) g = Inr ?g" using ml_send_ok [OF assms(4)] by simp
  have "unat max_tokens \<noteq> 0" using assms(6) by (simp add: unat_eq_zero)
  then obtain n where n: "min (unat max_tokens) 2048 = Suc n" by (cases "min (unat max_tokens) 2048") auto
  obtain b where r: "local_recv_frame (ml_in ?g) (ml_buf ?g) = (Inr (fst stale), b, peer ?h)"
    and sl: "As_Slice b = Some (snd stale)"
    using local_recv_tensor_frame [OF assms(1), of "peer ?h" "ml_buf ?g"] assms(5) by auto
  let ?t = "smp (snd stale)"
  let ?e = "?g\<lparr>ml_in := peer ?h, ml_buf := b, tokens_sent := tokens_sent g @ [dec ?t]\<rparr>"
  have ops: "mo_sample ops (snd stale) = Inr ?t" "mo_decode ops ?t = Inr (dec ?t)" "mo_frame ops [?t] = Inr (frm [?t])"
    "mo_frame ops ids = Inr (frm ids)"
    using assms(2) by (simp_all add: total_ops_def)
  obtain g2 where g2: "ml_send peer (of_nat (length ids)) (frm [?t]) ?e = Inr g2"
    using ml_send_ok [of ?e] assms(4) by simp
  have "tokens_sent g2 = tokens_sent g @ [dec ?t]" using ml_send_tokens [OF g2] by simp
  moreover have "gen_loop ops peer (Suc n) (length ids) ?g = gen_loop ops peer n (length ids + 1) g2"
    using g2 assms(7) r sl ops by (simp add: Let_def emit_def)
  moreover obtain us where "tokens_sent (gen_loop ops peer n (length ids + 1) g2) = tokens_sent g2 @ us"
    using gen_loop_tokens by blast
  ultimately show ?thesis
    using assms(3) ops(4) by (simp add: handle_request_def s n emit_def Let_def)
qed

lemma take_notices_last: "take_notices (ns @ [(k, rx, tx)]) sv =
   (take_notices ns sv)\<lparr>sv_tokens := AList.update k tx (sv_tokens (take_notices ns sv)), sv_slot := k, sv_prompt_rx := rx\<rparr>"
  by (induction ns sv rule: take_notices.induct) simp_all

section \<open>Properties\<close>


text \<open>Allocation: an unknown session is reported as such; a full session gives
  \<open>SlotExhausted\<close> and keeps its slots; otherwise the lowest vacant slot is taken with fresh
  channels, the occupied count goes up by one, the session's task is notified, and no other session
  changes.\<close>

theorem allocate_slot_outcome:
  assumes "allocate_slot i m = (r, m')"
  shows "case map_of (sessions m) i of
      None \<Rightarrow> r = Inl (SessionNotFound (show_nat (unat i))) \<and> m' = m
    | Some s \<Rightarrow>
        if occupied_count s = length (ses_slots s)
        then r = Inl (SlotExhausted (show_nat (unat i))) \<and> sessions m' = sessions m
        else \<exists>h s'. r = Inr h \<and> sh_session_id h = i \<and> get_slot (sh_slot_id h) s = None \<and>
               (\<forall>k < sh_slot_id h. get_slot k s \<noteq> None) \<and>
               map_of (sessions m') = (map_of (sessions m))(i \<mapsto> s') \<and>
               get_slot (sh_slot_id h) s' = Some \<lparr>sl_id = sh_slot_id h, sl_token_tx = sh_token_rx h\<rparr> \<and>
               occupied_count s' = occupied_count s + 1 \<and>
               ses_notices s' = ses_notices s @ [(sh_slot_id h, sh_prompt_tx h, sh_token_rx h)]"
proof (cases "map_of (sessions m) i")
  case None
  then show ?thesis using assms by (simp add: allocate_slot_def)
next
  case (Some s)
  show ?thesis
  proof (cases "allocate (next_channel m + 1) s")
    case None
    then show ?thesis using assms Some allocate_slot_full [OF Some None]
      by (auto simp: allocate_None)
  next
    case al: (Some x)
    obtain k s' where x: "x = (k, s')" by fastforce
    note al = al [unfolded x]
    let ?s = "s'\<lparr>ses_notices := ses_notices s' @ [(k, next_channel m, next_channel m + 1)]\<rparr>"
    have ne: "occupied_count s \<noteq> length (ses_slots s)" using al allocate_None [of _ s] by fastforce
    have below: "get_slot l s \<noteq> None" if "l < k" for l
      using that allocate_SomeD(1,3) [OF al] by (auto simp: get_slot_def is_occupied_def split: SlotState.splits)
    have "get_slot k s = None" "ses_notices s' = ses_notices s"
      using allocate_SomeD(2,4) [OF al] by (simp_all add: get_slot_def)
    moreover have "map_of (sessions m') = (map_of (sessions m))(i \<mapsto> ?s)"
      using assms allocate_slot_free [OF Some al] by (auto simp: update_conv)
    ultimately show ?thesis
      using assms ne below get_slot_allocate [OF al, of k] allocate_count [OF al]
      unfolding allocate_slot_free [OF Some al] prod.inject Some option.case if_not_P [OF ne]
      by (intro exI [of _ "\<lparr>sh_session_id = i, sh_slot_id = k, sh_prompt_tx = next_channel m, sh_token_rx = next_channel m + 1\<rparr>"]
          exI [of _ ?s]) auto
  qed
qed

definition demo_sessions :: SessionManager where
  "demo_sessions = snd (allocate_slot 1 (snd (create_session ''qwen3'' (SessionManager_new 2))))"

lemma demo_sessions_reach: "reach (\<lambda>m. m = SessionManager_new 2) manager_step demo_sessions"
  unfolding demo_sessions_def
  by (rule reach.intros(2) [OF reach.intros(2) [OF reach.intros(1)]], rule refl,
      rule ms_create [where model = "''qwen3''"])
    (simp_all add: SessionManager_new_def ms_allocate)

lemma demo_sessions_eval:
  "map_of (sessions demo_sessions) 1 = Some
     \<lparr>ses_id = 1, ses_model_id = ''qwen3'', ses_max_slots = 2,
      ses_slots = [Occupied \<lparr>sl_id = 0, sl_token_tx = 1\<rparr>, Vacant],
      ses_eos_token_id = 1, ses_notices = [(0, 0, 1)]\<rparr>"
  by (simp add: demo_sessions_def create_session_def publish_session_event_def SessionManager_new_def
      Session_new_def allocate_slot_def allocate_def Let_def numeral_2_eq_2)


theorem allocate_slot_outcome_witness:
  "\<exists>h. fst (allocate_slot 1 demo_sessions) = Inr h \<and> sh_slot_id h = 1"
proof -
  have c: "occupied_count (the (map_of (sessions demo_sessions) 1)) = 1"
    by (simp add: demo_sessions_eval occupied_count_def is_occupied_def)
  obtain r m' where a: "allocate_slot 1 demo_sessions = (r, m')" by fastforce
  from allocate_slot_outcome [OF a] c obtain h where h: "r = Inr h"
    "get_slot (sh_slot_id h) (the (map_of (sessions demo_sessions) 1)) = None"
    "\<forall>k < sh_slot_id h. get_slot k (the (map_of (sessions demo_sessions) 1)) \<noteq> None"
    by (auto simp: demo_sessions_eval)
  have g: "get_slot 0 (the (map_of (sessions demo_sessions) 1)) \<noteq> None"
    "get_slot 1 (the (map_of (sessions demo_sessions) 1)) = None"
    by (simp_all add: demo_sessions_eval get_slot_def)
  have "sh_slot_id h \<noteq> 0" using h(2) g(1) by metis
  moreover have "\<not> 1 < sh_slot_id h" using h(3) g(2) by metis
  ultimately show ?thesis using a h(1) by simp
qed


text \<open>A model that counts up from the last token it was shown, and ends at 5.\<close>

definition demo_ops :: "u32 list ml_ops" where
  "demo_ops = \<lparr>mo_encode = Inr, mo_frame = \<lambda>ts. Inr (map ucast ts),
     mo_sample = \<lambda>d. Inr (case d of [] \<Rightarrow> 0 | x # _ \<Rightarrow> ucast x + 1), mo_decode = \<lambda>t. Inr (show_nat (unat t)),
     mo_eos = 5\<rparr>"

definition demo_answer :: "bytes \<Rightarrow> u64 \<times> bytes" where
  "demo_answer h = (0, [if h = [] then 0 else List.last h])"

definition demo_gen :: gen_state where
  "demo_gen = \<lparr>ml_out = fresh_out, ml_in = [], ml_buf = Tensor_Buffer_New 16777216, tokens_sent = []\<rparr>"

lemma demo_answering: "answering demo_answer (\<lambda>h. tensor_frame (demo_answer h))"
  by (simp add: answering_def demo_answer_def local_ok_def)

lemma demo_total: "total_ops demo_ops (\<lambda>d. case d of [] \<Rightarrow> 0 | x # _ \<Rightarrow> ucast x + 1) (map ucast) (\<lambda>t. show_nat (unat t))"
  by (simp add: total_ops_def demo_ops_def)

lemma demo_answer_frame [simp]: "demo_answer (h @ tensor_frame (off, [x])) = (0, [x])"
  by (simp add: demo_answer_def tensor_frame_def)

lemma demo_greedy:
  "\<exists>h'. greedy (\<lambda>d. case d of [] \<Rightarrow> 0 | x # _ \<Rightarrow> ucast x + 1) (\<lambda>t. map ucast [t]) 5 demo_answer
     (Suc (Suc (Suc n))) off (h @ tensor_frame (0, [2])) = ([3, 4], True, h')"
  "\<exists>h'. greedy (\<lambda>d. case d of [] \<Rightarrow> 0 | x # _ \<Rightarrow> ucast x + 1) (\<lambda>t. map ucast [t]) 5 demo_answer
     (Suc 0) off (h @ tensor_frame (0, [2])) = ([3], False, h' @ tensor_frame (of_nat off, [3]))"
  by (simp_all add: Let_def del: append_assoc)

text \<open>The conversation of the demonstration request: one prompt token, 2.\<close>

lemma demo_limits: "min (unat (3 :: u32)) 2048 = Suc (Suc (Suc 0))" "min (unat (1 :: u32)) 2048 = Suc 0"
  by simp_all

lemma demo_show: "show_nat 3 = ''3''" "show_nat 4 = ''4''"
  by (code_simp+)

lemma demo_request:
  "sent (ml_out demo_gen) = []" "room (ml_out demo_gen) = None" "ml_in demo_gen = []"
  "tokens_sent demo_gen = []" "mo_encode demo_ops [2] = Inr [2]" "mo_eos demo_ops = 5"
  by (simp_all add: demo_gen_def fresh_out_def demo_ops_def)


text \<open>When a request stops at its token limit, the next request is answered from the wrong
  conversation: whatever its messages are, its first text is what the model had answered to the
  last token of the previous request.\<close>

theorem token_limit_desync:
  assumes "answering answer peer" "total_ops ops smp frm dec"
    and "room (ml_out g) = None" "ml_in g = []" "mo_encode ops messages = Inr ids"
    and "greedy smp (\<lambda>t. frm [t]) (mo_eos ops) answer (min (unat max_tokens) 2048) (length ids)
           (sent (ml_out g) @ tensor_frame (0, frm ids)) = (ts, False, h)"
    and "mo_encode ops messages' = Inr ids'" "max_tokens' \<noteq> 0" "smp (snd (answer h)) \<noteq> mo_eos ops"
  shows "\<exists>us. tokens_sent (snd (handle_request ops peer messages' max_tokens'
                 (snd (handle_request ops peer messages max_tokens g))))
           = tokens_sent g @ map dec ts @ SENTINEL # dec (smp (snd (answer h))) # us"
proof -
  from handle_request_greedy [OF assms(1-6)] obtain b where r: "handle_request ops peer messages max_tokens g =
    (True, g\<lparr>ml_out := (ml_out g)\<lparr>sent := h\<rparr>, ml_in := tensor_frame (answer h), ml_buf := b,
             tokens_sent := tokens_sent g @ map dec ts @ [SENTINEL]\<rparr>)" by auto
  have ok: "local_ok (answer h)" using assms(1) by (simp add: answering_def)
  show ?thesis unfolding r
    using stale_first_text [OF ok assms(2,7) _ _ assms(8,9), of
      "g\<lparr>ml_out := (ml_out g)\<lparr>sent := h\<rparr>, ml_in := tensor_frame (answer h), ml_buf := b,
         tokens_sent := tokens_sent g @ map dec ts @ [SENTINEL]\<rparr>" peer] assms(3) by simp
qed

theorem token_limit_desync_witness:
  "\<exists>us. tokens_sent (snd (handle_request demo_ops (\<lambda>h. tensor_frame (demo_answer h)) [0] 9
                 (snd (handle_request demo_ops (\<lambda>h. tensor_frame (demo_answer h)) [2] 1 demo_gen))))
           = tokens_sent demo_gen @ [''3''] @ SENTINEL # ''4'' # us"
proof -
  obtain h where g: "greedy (\<lambda>d. case d of [] \<Rightarrow> 0 | x # _ \<Rightarrow> ucast x + 1) (\<lambda>t. map ucast [t]) (mo_eos demo_ops) demo_answer
     (min (unat (1 :: u32)) 2048) (length [2 :: u32]) (sent (ml_out demo_gen) @ tensor_frame (0, map ucast [2 :: u32]))
       = ([3], False, h @ tensor_frame (1, [3]))"
    using demo_greedy(2) [of 1 "[]"] unfolding demo_limits by (auto simp: demo_request simp del: greedy.simps)
  have e: "mo_encode demo_ops [0] = Inr [0]" "(9 :: u32) \<noteq> 0" by (simp_all add: demo_ops_def)
  from token_limit_desync [OF demo_answering demo_total demo_request(2,3,5) g e]
  show ?thesis by (simp add: demo_request demo_show)
qed

text \<open>On every path, errors included, a request adds at most \<open>min max_tokens 2048\<close> texts and ends
  them with exactly one terminator, or adds nothing at all: then the request could not be encoded,
  or the model thread is gone and the task ends.\<close>

theorem request_texts_bounded:
  assumes "handle_request ops peer messages max_tokens g = (go, g')"
  shows "(\<exists>ts. tokens_sent g' = tokens_sent g @ ts @ [SENTINEL] \<and> length ts \<le> min (unat max_tokens) 2048 \<and> go) \<or>
         g' = g \<and> (\<not> go \<or> is_ok (rbind (mo_encode ops messages) (mo_frame ops)) = False)"
proof (cases "rbind (mo_encode ops messages) (mo_frame ops)")
  case Inl
  then show ?thesis using assms
    by (cases "mo_encode ops messages"; cases "mo_frame ops (projr (mo_encode ops messages))")
      (auto simp: handle_request_def is_ok_def)
next
  case (Inr d)
  then obtain ids where o: "mo_encode ops messages = Inr ids" "mo_frame ops ids = Inr d"
    by (cases "mo_encode ops messages") auto
  show ?thesis
  proof (cases "ml_send peer 0 d g")
    case Inl
    then show ?thesis using assms by (auto simp: handle_request_def o)
  next
    case s: (Inr g1)
    obtain ts where "tokens_sent (gen_loop ops peer (min (unat max_tokens) 2048) (length ids) g1) = tokens_sent g1 @ ts"
      "length ts \<le> min (unat max_tokens) 2048" using gen_loop_tokens by blast
    then show ?thesis using assms ml_send_tokens [OF s] by (auto simp: handle_request_def o s Let_def emit_def)
  qed
qed

theorem request_texts_bounded_witness:
  "\<exists>ts. tokens_sent (snd (handle_request demo_ops (\<lambda>h. tensor_frame (demo_answer h)) [2] 7 demo_gen))
          = ts @ [SENTINEL]"
proof -
  obtain go g' where r: "handle_request demo_ops (\<lambda>h. tensor_frame (demo_answer h)) [2] 7 demo_gen = (go, g')"
    by fastforce
  have go: "go" using r ml_send_ok [OF demo_request(2)]
    by (auto simp: handle_request_def demo_request(5) Let_def) (simp add: demo_ops_def ml_send_ok [OF demo_request(2)] split: prod.splits)
  then show ?thesis using request_texts_bounded [OF r] r
    by (auto simp: demo_request is_ok_def) (simp add: demo_ops_def)
qed

text \<open>A session serves only the slot allocated last: after two allocations the task listens on the
  second client's prompt channel, and the first client's prompts are never read.\<close>

theorem last_slot_served:
  assumes "map_of (sessions m) i = Some s" "ses_notices s = nt # ns"
    and "allocate_slot i m = (Inr h, m')" "map_of (sessions m') i = Some s'"
  shows "sv_prompt_rx (take_notices (tl (ses_notices s')) (first_slot (hd (ses_notices s')))) = sh_prompt_tx h \<and>
         sv_slot (take_notices (tl (ses_notices s')) (first_slot (hd (ses_notices s')))) = sh_slot_id h"
proof (cases "allocate (next_channel m + 1) s")
  case None
  then show ?thesis using assms(3) allocate_slot_full [OF assms(1) None] by simp
next
  case al: (Some x)
  obtain k s1 where x: "x = (k, s1)" by fastforce
  have "ses_notices s1 = nt # ns" using allocate_SomeD(4) [OF al [unfolded x]] assms(2) by simp
  then show ?thesis using allocate_slot_free [OF assms(1) al [unfolded x]] assms(3,4)
    by (auto simp: store_simps take_notices_last)
qed

lemma demo_sessions_channels: "next_channel demo_sessions = 2"
  by (simp add: demo_sessions_def create_session_def publish_session_event_def SessionManager_new_def
      Session_new_def allocate_slot_def allocate_def Let_def numeral_2_eq_2)

theorem last_slot_served_witness:
  "\<exists>(h :: SlotHandle) (s' :: Session). sh_slot_id h = 1 \<and> length (ses_notices s') = 2 \<and>
     sv_prompt_rx (take_notices (tl (ses_notices s')) (first_slot (hd (ses_notices s')))) = sh_prompt_tx h"
proof -
  have al: "allocate (next_channel demo_sessions + 1) (the (map_of (sessions demo_sessions) 1)) =
    Some (1, (the (map_of (sessions demo_sessions) 1))\<lparr>ses_slots := [Occupied \<lparr>sl_id = 0, sl_token_tx = 1\<rparr>, Occupied \<lparr>sl_id = 1, sl_token_tx = 3\<rparr>]\<rparr>)"
    by (simp add: demo_sessions_eval demo_sessions_channels allocate_def)
  obtain h m' where a: "allocate_slot 1 demo_sessions = (Inr h, m')" "sh_slot_id h = 1"
    "map_of (sessions m') 1 = Some ((the (map_of (sessions demo_sessions) 1))\<lparr>
       ses_slots := [Occupied \<lparr>sl_id = 0, sl_token_tx = 1\<rparr>, Occupied \<lparr>sl_id = 1, sl_token_tx = 3\<rparr>],
       ses_notices := [(0, 0, 1), (1, 2, 3)]\<rparr>)"
    using allocate_slot_free [OF _ al, of 1] by (simp add: demo_sessions_eval demo_sessions_channels store_simps)
  note served = last_slot_served [OF demo_sessions_eval _ a(1) a(3), of "(0, 0, 1)" "[]"]
  show ?thesis
    by (intro exI [of _ h] exI [of _ "(the (map_of (sessions demo_sessions) 1))\<lparr>
       ses_slots := [Occupied \<lparr>sl_id = 0, sl_token_tx = 1\<rparr>, Occupied \<lparr>sl_id = 1, sl_token_tx = 3\<rparr>],
       ses_notices := [(0, 0, 1), (1, 2, 3)]\<rparr>"]) (use a(2) served in simp)
qed

end
