(* ===== verification/Registry.thy ===== *)
theory Registry
  imports Peers
begin

text \<open>
  The registry of Lua programs (\<open>Src/VM/registry.rs\<close>): the recursive scan of the two script
  directories, the built-in and the user table, and the lookups. The directory is a tree in the
  order \<open>read_dir\<close> lists it; reading a file and running its text in a fresh interpreter are
  parameters, the latter giving the string globals of the script.
\<close>

section \<open>Programs and their directories\<close>

record ProgramEntry =
  pe_path :: string
  pe_command :: string
  pe_description :: string

record ProgramRegistry =
  rg_builtin :: "(string \<times> ProgramEntry) list"
  rg_user :: "(string \<times> ProgramEntry) list"

text \<open>A directory that cannot be read has no entries; the scan skips it with a warning.\<close>

datatype dir_entry =
    Script_File (df_path: string)
  | Sub_Dir (dd_path: string) (dd_entries: "dir_entry list option")

text \<open>The interpreter: the contents of a file, and the globals a script leaves that are strings;
  \<open>None\<close> when the text does not run.\<close>

record script_host =
  sh_read :: "string \<Rightarrow> string option"
  sh_eval :: "string \<Rightarrow> (string \<Rightarrow> string option) option"

definition parse_script :: "script_host \<Rightarrow> string \<Rightarrow> ProgramEntry option" where
  "parse_script host path =
     (case sh_read host path of
        None \<Rightarrow> None
      | Some script \<Rightarrow>
          (case sh_eval host script of
             None \<Rightarrow> None
           | Some globals \<Rightarrow>
               (case globals ''COMMAND'' of
                  None \<Rightarrow> None
                | Some command \<Rightarrow>
                    let description = unwrap_or [] (globals ''DESCRIPTION'')
                    in Some \<lparr>pe_path = path, pe_command = command, pe_description = description\<rparr>)))"

text \<open>\<open>Path::extension\<close> of the last component: what follows its last dot, when a dot stands after
  its first character.\<close>

definition last_component :: "string \<Rightarrow> string" where
  "last_component path = rev (takeWhile (\<lambda>c. c \<noteq> CHR ''/'') (rev path))"

definition extension :: "string \<Rightarrow> string option" where
  "extension path =
     (let name = last_component path;
          stem = butlast (rev (dropWhile (\<lambda>c. c \<noteq> CHR ''.'') (rev name)))
      in if name = ''..'' \<or> stem = [] then None
         else Some (rev (takeWhile (\<lambda>c. c \<noteq> CHR ''.'') (rev name))))"

fun collect_entry :: "script_host \<Rightarrow> dir_entry \<Rightarrow> (string \<times> ProgramEntry) list \<Rightarrow> (string \<times> ProgramEntry) list"
and collect_scripts :: "script_host \<Rightarrow> dir_entry list \<Rightarrow> (string \<times> ProgramEntry) list \<Rightarrow> (string \<times> ProgramEntry) list" where
  "collect_entry host (Sub_Dir path None) table = table"
| "collect_entry host (Sub_Dir path (Some entries)) table = collect_scripts host entries table"
| "collect_entry host (Script_File path) table =
     (if extension path = Some ''lua'' then
        (case parse_script host path of
           Some entry \<Rightarrow> AList.update (pe_command entry) entry table
         | None \<Rightarrow> table)
      else table)"
| "collect_scripts host [] table = table"
| "collect_scripts host (e # es) table = collect_scripts host es (collect_entry host e table)"

definition scan_dir :: "script_host \<Rightarrow> dir_entry list option \<Rightarrow> (string \<times> ProgramEntry) list" where
  "scan_dir host dir = (case dir of None \<Rightarrow> [] | Some entries \<Rightarrow> collect_scripts host entries [])"

section \<open>The registry\<close>

definition ProgramRegistry_new :: "script_host \<Rightarrow> dir_entry list option \<Rightarrow> dir_entry list option \<Rightarrow> ProgramRegistry" where
  "ProgramRegistry_new host builtin_dir user_dir =
     \<lparr>rg_builtin = scan_dir host builtin_dir, rg_user = scan_dir host user_dir\<rparr>"

definition ProgramRegistry_default :: ProgramRegistry where
  "ProgramRegistry_default = \<lparr>rg_builtin = [], rg_user = []\<rparr>"

definition reload_user :: "script_host \<Rightarrow> dir_entry list option \<Rightarrow> ProgramRegistry \<Rightarrow> ProgramRegistry" where
  "reload_user host user_dir rg = rg\<lparr>rg_user := scan_dir host user_dir\<rparr>"

fun add_names :: "string list \<Rightarrow> string list \<Rightarrow> string list" where
  "add_names [] names = names"
| "add_names (k # ks) names = add_names ks (if k \<notin> set names then names @ [k] else names)"

definition command_names :: "ProgramRegistry \<Rightarrow> string list" where
  "command_names rg = add_names (map fst (rg_user rg)) (map fst (rg_builtin rg))"

definition rg_get_user :: "string \<Rightarrow> ProgramRegistry \<Rightarrow> ProgramEntry option" where
  "rg_get_user command rg = map_of (rg_user rg) command"

definition rg_get :: "string \<Rightarrow> ProgramRegistry \<Rightarrow> ProgramEntry option" where
  "rg_get command rg =
     (case map_of (rg_user rg) command of Some e \<Rightarrow> Some e | None \<Rightarrow> map_of (rg_builtin rg) command)"

definition builtin_entries :: "ProgramRegistry \<Rightarrow> ProgramEntry list" where
  "builtin_entries rg = map snd (rg_builtin rg)"

definition user_entries :: "ProgramRegistry \<Rightarrow> ProgramEntry list" where
  "user_entries rg = map snd (rg_user rg)"

section \<open>What a scan finds\<close>

text \<open>The specification of a scan: the scripts below a directory in traversal order.\<close>

fun entry_paths :: "dir_entry \<Rightarrow> string list"
and dir_paths :: "dir_entry list \<Rightarrow> string list" where
  "entry_paths (Sub_Dir path None) = []"
| "entry_paths (Sub_Dir path (Some entries)) = dir_paths entries"
| "entry_paths (Script_File path) = (if extension path = Some ''lua'' then [path] else [])"
| "dir_paths [] = []"
| "dir_paths (e # es) = entry_paths e @ dir_paths es"

definition scripts_of :: "script_host \<Rightarrow> dir_entry list option \<Rightarrow> ProgramEntry list" where
  "scripts_of host dir = List.map_filter (parse_script host) (case dir of None \<Rightarrow> [] | Some es \<Rightarrow> dir_paths es)"

definition put_all :: "ProgramEntry list \<Rightarrow> (string \<times> ProgramEntry) list \<Rightarrow> (string \<times> ProgramEntry) list" where
  "put_all = fold (\<lambda>e. AList.update (pe_command e) e)"

lemma put_all_simps [simp]:
  "put_all [] t = t" "put_all (e # es) t = put_all es (AList.update (pe_command e) e t)"
  "put_all (es @ es') t = put_all es' (put_all es t)"
  by (simp_all add: put_all_def)

lemma map_filter_append [simp]: "List.map_filter f (xs @ ys) = List.map_filter f xs @ List.map_filter f ys"
  by (simp add: List.map_filter_def)

lemma collect_put_all:
  "collect_entry host e t = put_all (List.map_filter (parse_script host) (entry_paths e)) t"
  "collect_scripts host es t = put_all (List.map_filter (parse_script host) (dir_paths es)) t"
proof (induction host e t and host es t rule: collect_entry_collect_scripts.induct)
  case (3 host path table)
  show ?case by (simp add: List.map_filter_def split: option.split)
qed simp_all

lemma scan_dir_put_all: "scan_dir host dir = put_all (scripts_of host dir) []"
  by (simp add: scan_dir_def scripts_of_def collect_put_all List.map_filter_def split: option.split)

lemma find_append: "find q (xs @ ys) = (case find q xs of Some x \<Rightarrow> Some x | None \<Rightarrow> find q ys)"
  by (induction xs) simp_all

lemma map_of_put_all:
  "map_of (put_all es t) k = (case find (\<lambda>e. pe_command e = k) (rev es) of Some e \<Rightarrow> Some e | None \<Rightarrow> map_of t k)"
proof (induction es arbitrary: t)
  case (Cons e es)
  then show ?case by (auto simp: find_append store_simps split: option.splits)
qed simp

lemma put_all_keys_distinct: "distinct (map fst t) \<Longrightarrow> distinct (map fst (put_all es t))"
  by (induction es arbitrary: t) (simp_all add: distinct_update)

lemma put_all_keys: "fst ` set (put_all es t) = pe_command ` set es \<union> fst ` set t"
  by (induction es arbitrary: t) (auto simp: dom_update [unfolded dom_map_of_conv_image_fst] insert_commute)

lemma set_add_names: "set (add_names ks names) = set ks \<union> set names"
  by (induction ks names rule: add_names.induct) auto

lemma distinct_add_names: "distinct names \<Longrightarrow> distinct (add_names ks names)"
  by (induction ks names rule: add_names.induct) auto

section \<open>Properties\<close>

text \<open>A command name always means the user's script when there is one, and the last script of the
  directory in traversal order when several claim the name; \<open>get_user\<close> never answers with a built-in
  script; every entry found under a name carries that name, its file has the extension \<open>lua\<close> and its
  text defines the name; a reload changes neither built-in entries nor what they answer for.\<close>

theorem registry_lookup:
  "let rg = ProgramRegistry_new host bdir udir in
     rg_get_user k rg = find (\<lambda>e. pe_command e = k) (rev (scripts_of host udir)) \<and>
     rg_get k rg = find (\<lambda>e. pe_command e = k) (rev (scripts_of host bdir @ scripts_of host udir)) \<and>
     rg_get k (reload_user host udir' rg)
       = find (\<lambda>e. pe_command e = k) (rev (scripts_of host bdir @ scripts_of host udir')) \<and>
     distinct (command_names rg) \<and> (k \<in> set (command_names rg) \<longleftrightarrow> rg_get k rg \<noteq> None)"
proof -
  define rg where "rg = ProgramRegistry_new host bdir udir"
  have names: "set (command_names rg) = pe_command ` (set (scripts_of host bdir) \<union> set (scripts_of host udir))"
    by (simp add: rg_def command_names_def ProgramRegistry_new_def set_add_names scan_dir_put_all put_all_keys
        image_Un Un_commute)
  have d: "distinct (command_names rg)"
    unfolding command_names_def rg_def ProgramRegistry_new_def
    by (simp add: distinct_add_names scan_dir_put_all put_all_keys_distinct)
  have get: "rg_get k (\<lparr>rg_builtin = scan_dir host bdir, rg_user = scan_dir host u\<rparr>)
      = find (\<lambda>e. pe_command e = k) (rev (scripts_of host bdir @ scripts_of host u))" for u
    by (simp add: rg_get_def scan_dir_put_all map_of_put_all find_append split: option.splits)
  have "k \<in> set (command_names rg) \<longleftrightarrow> rg_get k rg \<noteq> None"
    unfolding names by (auto simp: rg_def ProgramRegistry_new_def get find_None_iff)
  with d get show ?thesis
    by (simp add: rg_def ProgramRegistry_new_def reload_user_def rg_get_user_def scan_dir_put_all map_of_put_all
        Let_def split: option.split)
qed

text \<open>Every script of a table is one of the directory's \<open>.lua\<close> files and was given its own name.\<close>

lemma parse_script_path: "parse_script host path = Some e \<Longrightarrow> pe_path e = path"
  by (auto simp: parse_script_def Let_def split: option.splits)

lemma scripts_of_sound:
  "e \<in> set (scripts_of host dir) \<Longrightarrow>
     \<exists>es path. dir = Some es \<and> path \<in> set (dir_paths es) \<and> parse_script host path = Some e \<and> pe_path e = path"
  by (cases dir) (auto simp: scripts_of_def List.map_filter_def parse_script_path)

end
