(* ===== verification/Texts.thy ===== *)
theory Texts
  imports Bitmap
begin

text \<open>
  The message texts of the program. Most are Chinese; a string is its UTF-8 bytes, so each fragment
  of a \<open>format!\<close> literal is written out as bytes. Also the formatting the standard library does for
  them (padding, fixed-width hexadecimal) and the JSON values put on the event bus.
\<close>

section \<open>Formatting\<close>

definition utf8 :: "nat list \<Rightarrow> string" where
  "utf8 = map char_of"

text \<open>\<open>{:<n}\<close> and \<open>{:>n}\<close> pad by characters, that is by bytes that do not continue a sequence.\<close>

definition char_count :: "string \<Rightarrow> nat" where
  "char_count s = length (filter (\<lambda>c. \<not> cont_byte (of_char c)) s)"

definition pad_right :: "nat \<Rightarrow> string \<Rightarrow> string" where
  "pad_right n s = s @ replicate (n - char_count s) (CHR '' '')"

definition pad_left :: "nat \<Rightarrow> string \<Rightarrow> string" where
  "pad_left n s = replicate (n - char_count s) (CHR '' '') @ s"

text \<open>\<open>{:08x}\<close> of a \<open>u32\<close>.\<close>

definition show_hex8 :: "u32 \<Rightarrow> string" where
  "show_hex8 w = concat (map hex_byte (rev (map (\<lambda>i. of_nat (unat w div 256 ^ i mod 256)) [0..<4])))"

definition bracketed :: "string \<Rightarrow> string" where
  "bracketed s = ''['' @ s"

fun join_lines :: "string list \<Rightarrow> string" where
  "join_lines ls = join_with [CHR 0x0A] ls"

section \<open>JSON values\<close>

text \<open>The values of \<open>serde_json\<close>; the payload of a bus event is the value whose text is published.\<close>

datatype json =
    J_Null
  | J_Bool bool
  | J_Num nat
  | J_Raw string
  | J_Str string
  | J_Arr "json list"
  | J_Obj "(string \<times> json) list"

text \<open>\<open>cmd_output\<close>, declared alike in the core and in its user branch.\<close>

definition cmd_output :: "string \<Rightarrow> bool \<Rightarrow> json" where
  "cmd_output txt completed =
     J_Obj [(''type'', J_Str ''cmd_result''), (''text'', J_Str txt), (''completed'', J_Bool completed)]"

section \<open>Bus events\<close>

datatype NotifyLevel = Lv_Info | Lv_Warn | Lv_Error

section \<open>Message fragments\<close>

definition tx_unknown_command :: string where
  "tx_unknown_command = utf8 [230, 156, 170, 231, 159, 165, 229, 145, 189, 228, 187, 164] @ '': ''"

definition tx_job_no :: string where
  "tx_job_no = ''Job #''"

definition tx_cancel_sent :: string where
  "tx_cancel_sent = '' '' @ utf8 [229, 143, 150, 230, 182, 136, 228, 191, 161, 229, 143, 183, 229, 183, 178, 229, 143,
     145, 233, 128, 129]"

definition tx_no_peers :: string where
  "tx_no_peers = utf8 [229, 189, 147, 229, 137, 141, 230, 151, 160, 229, 183, 178, 231, 159, 165, 232, 138, 130,
     231, 130, 185]"

definition tx_models :: string where
  "tx_models = utf8 [10] @ ''  '' @ utf8 [230, 168, 161, 229, 158, 139] @ '' (''"

definition tx_error :: string where
  "tx_error = utf8 [233, 148, 153, 232, 175, 175] @ '': ''"

definition tx_named :: string where
  "tx_named = utf8 [229, 144, 141, 231, 167, 176, 229, 183, 178, 232, 174, 190, 231, 189, 174, 228, 184,
     186] @ '' ''"

definition tx_not_persisted :: string where
  "tx_not_persisted = utf8 [239, 188, 140, 228, 189, 134, 230, 140, 129, 228, 185, 133, 229, 140, 150, 229, 164, 177,
     232, 180, 165] @ '': ''"

definition tx_node_named :: string where
  "tx_node_named = utf8 [232, 138, 130, 231, 130, 185, 229, 144, 141, 231, 167, 176, 229, 183, 178, 232, 174, 190,
     231, 189, 174, 228, 184, 186] @ '': ''"

definition tx_name_failed :: string where
  "tx_name_failed = utf8 [232, 174, 190, 231, 189, 174, 229, 144, 141, 231, 167, 176, 229, 164, 177, 232, 180,
     165] @ '': ''"

definition tx_reloaded :: string where
  "tx_reloaded = ''reload '' @ utf8 [229, 174, 140, 230, 136, 144] @ '': '' @ utf8 [233, 135, 141, 230, 150, 176,
     230, 137, 171, 230, 143, 143] @ '' user '' @ utf8 [232, 132, 154, 230, 156,
     172] @ '' ('' @ utf8 [230, 128, 187, 229, 145, 189, 228, 187, 164, 230, 149, 176] @ '': ''"

definition tx_arrow :: string where
  "tx_arrow = '' '' @ utf8 [226, 134, 146] @ '' ''"

definition tx_device_set :: string where
  "tx_device_set = utf8 [232, 174, 190, 229, 164, 135, 229, 183, 178, 229, 136, 135, 230, 141, 162, 228, 184,
     186] @ '': ''"

definition tx_storage_empty :: string where
  "tx_storage_empty = utf8 [229, 173, 152, 229, 130, 168, 228, 184, 186, 231, 169, 186, 239, 188, 136, 230, 151, 160,
     230, 150, 135, 228, 187, 182, 239, 188, 137]"

definition tx_in_all :: string where
  "tx_in_all = utf8 [229, 133, 177] @ '' ''"

definition tx_files :: string where
  "tx_files = '' '' @ utf8 [228, 184, 170, 230, 150, 135, 228, 187, 182] @ '':'' @ utf8 [10]"

definition tx_succeeded :: string where
  "tx_succeeded = '' '' @ utf8 [230, 136, 144, 229, 138, 159]"

definition tx_failed :: string where
  "tx_failed = '' '' @ utf8 [229, 164, 177, 232, 180, 165] @ '': ''"

definition tx_bad_addr :: string where
  "tx_bad_addr = utf8 [230, 151, 160, 230, 149, 136] @ '' Multiaddr: ''"

definition tx_no_send :: string where
  "tx_no_send = ''send '' @ utf8 [232, 132, 154, 230, 156, 172, 230, 156, 170, 230, 137, 190, 229, 136, 176]"

definition tx_profile_todo :: string where
  "tx_profile_todo = ''Profile: '' @ utf8 [229, 176, 154, 230, 156, 170, 229, 174, 158, 231, 142, 176]"

definition tx_builtin_head :: string where
  "tx_builtin_head = ''['' @ utf8 [229, 134, 133, 231, 189, 174, 229, 145, 189, 228, 187, 164] @ '']''"

definition tx_user_head :: string where
  "tx_user_head = ''['' @ utf8 [231, 148, 168, 230, 136, 183, 229, 145, 189, 228, 187, 164] @ '']''"

definition tx_none :: string where
  "tx_none = ''  ('' @ utf8 [230, 151, 160] @ '')''"

definition tx_ml_script :: string where
  "tx_ml_script = ''ML Thread: '' @ utf8 [232, 132, 154, 230, 156, 172] @ '' '' @ utf8 [39]"

definition tx_not_found :: string where
  "tx_not_found = utf8 [39] @ '' '' @ utf8 [230, 156, 170, 230, 137, 190, 229, 136, 176]"

definition tx_unknown_node :: string where
  "tx_unknown_node = utf8 [230, 156, 170, 231, 159, 165, 232, 138, 130, 231, 130, 185] @ '': ''"

definition tx_remote_done :: string where
  "tx_remote_done = ''] '' @ utf8 [232, 191, 156, 231, 168, 139, 230, 137, 167, 232, 161, 140, 229, 174, 140, 230, 136,
     144] @ '': ''"

definition tx_remote_failed :: string where
  "tx_remote_failed = ''] '' @ utf8 [232, 191, 156, 231, 168, 139, 230, 137, 167, 232, 161, 140, 229, 164, 177, 232, 180,
     165] @ '': ''"

definition tx_rt_failed :: string where
  "tx_rt_failed = ''] '' @ utf8 [229, 136, 155, 229, 187, 186] @ '' tokio runtime '' @ utf8 [229, 164, 177, 232, 180,
     165] @ '': ''"

definition tx_read_failed :: string where
  "tx_read_failed = ''] '' @ utf8 [232, 175, 187, 229, 143, 150, 232, 132, 154, 230, 156, 172, 229, 164, 177, 232, 180,
     165] @ '': ''"

definition tx_lua_failed :: string where
  "tx_lua_failed = ''] '' @ utf8 [229, 136, 155, 229, 187, 186] @ '' Lua '' @ utf8 [229, 174, 158, 228, 190, 139, 229,
     164, 177, 232, 180, 165] @ '': ''"

definition tx_reg_base :: string where
  "tx_reg_base = ''] '' @ utf8 [230, 179, 168, 229, 134, 140, 229, 159, 186, 231, 161, 128, 232, 131, 189, 229, 138,
     155, 229, 164, 177, 232, 180, 165] @ '': ''"

definition tx_reg_log :: string where
  "tx_reg_log = ''] '' @ utf8 [230, 179, 168, 229, 134, 140, 230, 151, 165, 229, 191, 151, 232, 131, 189, 229, 138,
     155, 229, 164, 177, 232, 180, 165] @ '': ''"

definition tx_reg_net :: string where
  "tx_reg_net = ''] '' @ utf8 [230, 179, 168, 229, 134, 140] @ '' Network '' @ utf8 [232, 131, 189, 229, 138, 155,
     229, 164, 177, 232, 180, 165] @ '': ''"

definition tx_reg_storage :: string where
  "tx_reg_storage = ''] '' @ utf8 [230, 179, 168, 229, 134, 140] @ '' Storage '' @ utf8 [232, 131, 189, 229, 138, 155,
     229, 164, 177, 232, 180, 165] @ '': ''"

definition tx_reg_ml :: string where
  "tx_reg_ml = ''] '' @ utf8 [230, 179, 168, 229, 134, 140] @ '' ML '' @ utf8 [232, 131, 189, 229, 138, 155, 229,
     164, 177, 232, 180, 165] @ '': ''"

definition tx_reg_local :: string where
  "tx_reg_local = ''] '' @ utf8 [230, 179, 168, 229, 134, 140] @ '' LocalStream '' @ utf8 [232, 131, 189, 229, 138,
     155, 229, 164, 177, 232, 180, 165] @ '': ''"

definition tx_syntax :: string where
  "tx_syntax = ''] '' @ utf8 [232, 132, 154, 230, 156, 172, 232, 175, 173, 230, 179, 149, 233, 148, 153, 232, 175,
     175] @ '': ''"

definition tx_table :: string where
  "tx_table = ''] '' @ utf8 [229, 136, 155, 229, 187, 186, 229, 143, 130, 230, 149, 176, 232, 161, 168, 229, 164,
     177, 232, 180, 165] @ '': ''"

definition tx_set_param :: string where
  "tx_set_param = ''] '' @ utf8 [232, 174, 190, 231, 189, 174, 229, 143, 130, 230, 149, 176] @ '' ''"

definition tx_no_execute :: string where
  "tx_no_execute = ''] '' @ utf8 [232, 132, 154, 230, 156, 172, 231, 188, 186, 229, 176,
     145] @ '' execute '' @ utf8 [229, 135, 189, 230, 149, 176]"

definition tx_executed :: string where
  "tx_executed = ''] '' @ utf8 [230, 137, 167, 232, 161, 140, 229, 174, 140, 230, 136, 144]"

definition tx_exec_failed :: string where
  "tx_exec_failed = ''] '' @ utf8 [230, 137, 167, 232, 161, 140, 229, 164, 177, 232, 180, 165] @ '': ''"

definition tx_flushed :: string where
  "tx_flushed = ''flush '' @ utf8 [229, 174, 140, 230, 136, 144] @ '': '' @ utf8 [230, 150, 176, 229, 162,
     158] @ '' ''"

definition tx_removed :: string where
  "tx_removed = '' '' @ utf8 [228, 184, 170] @ '', '' @ utf8 [231, 167, 187, 233, 153, 164] @ '' ''"

definition tx_items :: string where
  "tx_items = '' '' @ utf8 [228, 184, 170]"

definition tx_flush_failed :: string where
  "tx_flush_failed = ''flush '' @ utf8 [229, 164, 177, 232, 180, 165] @ '': ''"

definition tx_fail_unknown :: string where
  "tx_fail_unknown = ''FAIL|'' @ utf8 [230, 156, 170, 231, 159, 165, 229, 145, 189, 228, 187, 164] @ '': ''"

definition tx_fail_protocol :: string where
  "tx_fail_protocol = ''FAIL|'' @ utf8 [230, 156, 170, 229, 174, 158, 231, 142, 176, 231, 154, 132, 229, 141, 143, 232,
     174, 174] @ '': ''"

definition tx_fail_parse :: string where
  "tx_fail_parse = ''FAIL|'' @ utf8 [229, 141, 143, 232, 174, 174, 232, 167, 163, 230, 158, 144] @ '': ''"

definition tx_file_todo :: string where
  "tx_file_todo = ''[route_inbound] File '' @ utf8 [229, 133, 165, 231, 171, 153, 230, 154, 130, 230, 156, 170, 229,
     174, 158, 231, 142, 176] @ '' (peer: ''"

definition tx_file_received :: string where
  "tx_file_received = utf8 [230, 142, 165, 230, 148, 182, 230, 150, 135, 228, 187, 182, 229, 174, 140, 230, 136,
     144] @ '': ''"

definition tx_bad_format :: string where
  "tx_bad_format = '' '' @ utf8 [230, 160, 188, 229, 188, 143, 233, 148, 153, 232, 175, 175] @ '': '' @ utf8 [233,
     156, 128, 232, 166, 129] @ '' ''"

definition tx_fields :: string where
  "tx_fields = '' '' @ utf8 [228, 184, 170, 229, 173, 151, 230, 174, 181] @ '', '' @ utf8 [229, 174, 158, 233,
     153, 133] @ '' ''"

definition tx_format :: string where
  "tx_format = ''. '' @ utf8 [230, 160, 188, 229, 188, 143] @ '': ''"

definition tx_parse_failed :: string where
  "tx_parse_failed = '' '' @ utf8 [232, 167, 163, 230, 158, 144, 229, 164, 177, 232, 180, 165] @ '': ''"

definition tx_unknown_prefix :: string where
  "tx_unknown_prefix = utf8 [230, 156, 170, 231, 159, 165, 229, 145, 189, 228, 187, 164, 229, 137, 141, 231, 188,
     128] @ '': '' @ utf8 [39]"

definition tx_not_utf8 :: string where
  "tx_not_utf8 = ''payload '' @ utf8 [233, 157, 158] @ '' UTF-8: ''"

text \<open>The table of the built-in commands: usage and description.\<close>

definition BUILTIN_COMMANDS :: "(string \<times> string) list" where
  "BUILTIN_COMMANDS =
     [(''api <session_id>'', utf8 [229, 144, 175, 229, 138, 168] @ '' OpenAI '' @ utf8 [229, 133, 188, 229, 174,
       185] @ '' API Server''),
      (''run <model>'', utf8 [229, 144, 175, 229, 138, 168, 230, 156, 172, 229, 156, 176, 230, 142, 168, 231, 144, 134]),
      (''pipeline <model>'', utf8 [229, 144, 175, 229, 138, 168, 229, 136, 134, 229, 184, 131, 229, 188, 143, 230, 181, 129,
       230, 176, 180, 231, 186, 191, 230, 142, 168, 231, 144, 134]),
      (''cancel <job_id>'', utf8 [229, 143, 150, 230, 182, 136, 230, 140, 135, 229, 174, 154, 228, 189, 156, 228, 184, 154]),
      (''dp / display-peer'', utf8 [230, 159, 165, 231, 156, 139, 232, 138, 130, 231, 130, 185, 229, 136, 151, 232, 161, 168]),
      (''set-device cpu|cuda|cuda:N'', utf8 [229, 136, 135, 230, 141, 162, 232, 174, 161, 231, 174, 151, 232, 174, 190, 229, 164, 135]),
      (''ls'', utf8 [229, 136, 151, 229, 135, 186, 229, 173, 152, 229, 130, 168, 230, 150, 135, 228, 187, 182]),
      (''flush'', utf8 [229, 136, 183, 230, 150, 176, 229, 173, 152, 229, 130, 168, 231, 180, 162, 229, 188, 149]),
      (''reload'', utf8 [233, 135, 141, 230, 150, 176, 229, 138, 160, 232, 189, 189, 231, 148, 168, 230, 136,
       183] @ '' Lua '' @ utf8 [232, 132, 154, 230, 156, 172]),
      (''set-name <name>'', utf8 [232, 174, 190, 231, 189, 174, 230, 156, 172, 229, 156, 176, 232, 138, 130, 231, 130, 185,
       229, 144, 141, 231, 167, 176]),
      (''distribute <model> <peer:0-15> ...'', utf8 [229, 136, 134, 229, 143, 145, 230, 168, 161, 229, 158, 139, 229, 136, 134, 231, 137, 135]),
      (''send <file> <name>'', utf8 [229, 144, 145, 232, 138, 130, 231, 130, 185, 229, 143, 145, 233, 128, 129, 230, 150, 135,
       228, 187, 182, 239, 188, 136, 230, 148, 175, 230, 140, 129] @ '' name '' @ utf8 [230, 136,
       150] @ '' peer_id'' @ utf8 [239, 188, 137]),
      (''profile <model>'', utf8 [229, 144, 175, 229, 138, 168] @ '' Profile''),
      (''exec <cmd> [k=v ...]'', utf8 [230, 137, 167, 232, 161, 140, 231, 148, 168, 230, 136, 183] @ '' Lua '' @ utf8 [232, 132,
       154, 230, 156, 172]),
      (''clear'', utf8 [230, 184, 133, 231, 169, 186, 230, 151, 165, 229, 191, 151]),
      (''quit / exit'', utf8 [233, 128, 128, 229, 135, 186, 231, 168, 139, 229, 186, 143]),
      (''help'', utf8 [230, 152, 190, 231, 164, 186, 230, 173, 164, 229, 184, 174, 229, 138, 169])]"

end
