(* ===== verification/Orchestrator.thy ===== *)
theory Orchestrator
  imports Registry Texts Commands Storage Sessions Network_Service
begin

text \<open>
  The orchestrator core (\<open>Src/Orchestrator/core.rs\<close> with its branches under \<open>core/\<close>): the job
  registry, the four event branches and the shutdown of the main loop. What a branch does is
  recorded in the core state: events it publishes, responses it sends, and the tasks it spawns,
  which run later and are in \<open>Orchestrator_Tasks\<close>. Log output is left out.
\<close>

section \<open>Data\<close>

text \<open>A JSON payload is its value; the state events of the network are those of \<open>Node\<close>.\<close>

datatype bus_event =
    Bv_Notify NotifyLevel string
  | Bv_State json
  | Bv_Node state_event
  | Bv_Output json

datatype JobKind = Jk_Generic | Jk_ReceiveFile

datatype JobResult = Jr_Success | Jr_Cancelled | Jr_Failed string

datatype LifecycleEvent = Lc_Done job_id JobResult

record JobHandle =
  jh_kind :: JobKind
  jh_cancelled :: bool
  jh_inference_id :: "u64 option"

datatype task =
    Tk_Script string params string
  | Tk_Flush
  | Tk_Dial string
  | Tk_Session string
  | Tk_Api u64 string
  | Tk_File peer_id conn
  | Tk_Session_Bridge peer_id u64 conn

record core =
  registry :: "(job_id \<times> JobHandle) list"
  shutting_down :: bool
  programs :: ProgramRegistry
  device_preference :: string
  core_peers :: peer_map
  core_storage :: storage
  core_sessions :: SessionManager
  core_bus :: "bus_event list"
  core_responses :: "(u64 \<times> DataType \<times> bytes) list"
  core_requests :: "(peer_id \<times> DataType \<times> bytes) list"
  core_tasks :: "task list"
  quit_replies :: nat

text \<open>
  What the core relies on outside its own code: the script directories and their interpreter,
  \<open>serde_json\<close>, the reply of the network to a request, the configuration file, and the parts of
  text formatting that need the tables of the standard library (quoting a string for debugging,
  upper case, one decimal of a quotient, a UTF-8 error).
\<close>

record core_env =
  ce_host :: script_host
  ce_user_dir :: "dir_entry list option"
  ce_params_to_json :: "params \<Rightarrow> string option"
  ce_parse_json :: "string \<Rightarrow> json option"
  ce_show_json :: "json \<Rightarrow> string"
  ce_send_data :: "peer_id \<Rightarrow> DataType \<Rightarrow> bytes \<Rightarrow> Network_Error + Network_Data"
  ce_save_name :: "string \<Rightarrow> string option"
  ce_debug_str :: "string \<Rightarrow> string"
  ce_uppercase :: "string \<Rightarrow> string"
  ce_ratio :: "u64 \<Rightarrow> u64 \<Rightarrow> string"
  ce_utf8_error :: "bytes \<Rightarrow> string"

definition core_publish :: "bus_event \<Rightarrow> core \<Rightarrow> core" where
  "core_publish ev c = c\<lparr>core_bus := core_bus c @ [ev]\<rparr>"

definition put_output :: "string \<Rightarrow> core \<Rightarrow> core" where
  "put_output txt c = core_publish (Bv_Output (cmd_output txt True)) c"

definition spawn :: "task \<Rightarrow> core \<Rightarrow> core" where
  "spawn t c = c\<lparr>core_tasks := core_tasks c @ [t]\<rparr>"

definition send_response :: "u64 \<Rightarrow> DataType \<Rightarrow> string \<Rightarrow> core \<Rightarrow> core" where
  "send_response request_id ty txt c =
     c\<lparr>core_responses := core_responses c @ [(request_id, ty, as_bytes txt)]\<rparr>"

definition Core_new ::
  "script_host \<Rightarrow> dir_entry list option \<Rightarrow> dir_entry list option \<Rightarrow> peer_map \<Rightarrow> storage \<Rightarrow> core" where
  "Core_new host builtin_dir user_dir peers st =
     \<lparr>registry = [], shutting_down = False, programs = ProgramRegistry_new host builtin_dir user_dir,
      device_preference = [], core_peers = peers, core_storage = st, core_sessions = SessionManager_new 4,
      core_bus = [], core_responses = [], core_requests = [], core_tasks = [], quit_replies = 0\<rparr>"

section \<open>Jobs\<close>

definition register_job :: "job_id \<Rightarrow> JobKind \<Rightarrow> core \<Rightarrow> core" where
  "register_job j kind c =
     c\<lparr>registry := AList.update j \<lparr>jh_kind = kind, jh_cancelled = False, jh_inference_id = None\<rparr> (registry c)\<rparr>"

definition cancel_handle :: "JobHandle \<Rightarrow> JobHandle" where
  "cancel_handle h = h\<lparr>jh_cancelled := True\<rparr>"

definition cancel_job :: "job_id \<Rightarrow> core \<Rightarrow> core" where
  "cancel_job j c =
     (case map_of (registry c) j of
        Some h \<Rightarrow> c\<lparr>registry := AList.update j (cancel_handle h) (registry c)\<rparr>
      | None \<Rightarrow> c)"

definition shutdown :: "core \<Rightarrow> core" where
  "shutdown c = c\<lparr>shutting_down := True, registry := map (\<lambda>(j, h). (j, cancel_handle h)) (registry c)\<rparr>"

text \<open>The derived debug text of a job result.\<close>

definition debug_job_result :: "core_env \<Rightarrow> JobResult \<Rightarrow> string" where
  "debug_job_result env r =
     (case r of Jr_Success \<Rightarrow> ''Success'' | Jr_Cancelled \<Rightarrow> ''Cancelled''
      | Jr_Failed e \<Rightarrow> ''Failed('' @ ce_debug_str env e @ '')'')"

definition route_lifecycle :: "core_env \<Rightarrow> LifecycleEvent \<Rightarrow> core \<Rightarrow> core" where
  "route_lifecycle env ev c =
     (case ev of Lc_Done j result \<Rightarrow>
        let c = core_publish (Bv_State (J_Obj [(''type'', J_Str ''job_completed''), (''job_id'', J_Num (unat j)),
                   (''result'', J_Str (debug_job_result env result))])) c
        in c\<lparr>registry := AList.delete j (registry c)\<rparr>)"

text \<open>The job executor only reports success.\<close>

definition executor_run :: "job_id \<Rightarrow> LifecycleEvent" where
  "executor_run j = Lc_Done j Jr_Success"

text \<open>\<open>JOB_ID_COUNTER.fetch_add(1)\<close>: the id and the new counter, which starts at 1.\<close>

definition generate_id :: "u64 \<Rightarrow> u64 \<times> u64" where
  "generate_id n = (n, n + 1)"

section \<open>Inbound requests\<close>

definition show_parse_int_error :: "parse_int_error \<Rightarrow> string" where
  "show_parse_int_error e =
     (case e of Int_Empty \<Rightarrow> ''cannot parse integer from empty string''
      | Invalid_Digit \<Rightarrow> ''invalid digit found in string''
      | Pos_Overflow \<Rightarrow> ''number too large to fit in target type'')"

definition command_format :: "string \<Rightarrow> nat \<times> string" where
  "command_format name =
     (if name = ''ESTABLISH_TENSOR_STREAM'' then (3, ''ESTABLISH_TENSOR_STREAM|inference_id|target_peer_id'')
      else if name = ''JOIN_PIPELINE'' then (6, ''JOIN_PIPELINE|inference_id|model_file_id|device|layer_start|layer_end'')
      else if name = ''PROFILE'' then (4, ''PROFILE|model_id|layer_count|device'')
      else (3, ''EXEC|command|params_json''))"

definition show_command_error :: "string \<Rightarrow> command_error \<Rightarrow> string" where
  "show_command_error utf8_error e =
     (case e of
        Ce_Not_Utf8 \<Rightarrow> tx_not_utf8 @ utf8_error
      | Ce_Field_Count name n \<Rightarrow>
          name @ tx_bad_format @ show_nat (fst (command_format name)) @ tx_fields @ show_nat n @ tx_format
          @ snd (command_format name)
      | Ce_Number what e \<Rightarrow> what @ tx_parse_failed @ show_parse_int_error e
      | Ce_Unknown p \<Rightarrow> tx_unknown_prefix @ p @ [CHR 0x27])"

text \<open>The derived debug text of a protocol message.\<close>

definition debug_protocol :: "core_env \<Rightarrow> NetworkProtocol \<Rightarrow> string" where
  "debug_protocol env p =
     (case p of
        Establish_Tensor_Stream i t \<Rightarrow>
          ''Establish_Tensor_Stream { inference_id: '' @ show_u64 i @ '', target_peer_id: '' @ ce_debug_str env t @ '' }''
      | Join_Pipeline i m d s e \<Rightarrow>
          ''Join_Pipeline { inference_id: '' @ show_u64 i @ '', model_file_id: '' @ ce_debug_str env m
          @ '', device: '' @ ce_debug_str env d @ '', layer_start: '' @ show_u64 s @ '', layer_end: '' @ show_u64 e @ '' }''
      | Profile_Request m n d \<Rightarrow>
          ''Profile_Request { model_id: '' @ ce_debug_str env m @ '', layer_count: '' @ show_u32 n
          @ '', device: '' @ ce_debug_str env d @ '' }''
      | ExecRemote a b \<Rightarrow>
          ''ExecRemote { command: '' @ ce_debug_str env a @ '', params_json: '' @ ce_debug_str env b @ '' }'')"

definition value_text :: "core_env \<Rightarrow> json \<Rightarrow> string" where
  "value_text env v = (case v of J_Str s \<Rightarrow> s | _ \<Rightarrow> ce_show_json env v)"

text \<open>The parameter map of a remote execution: anything but an object gives no parameters.\<close>

definition remote_params :: "core_env \<Rightarrow> string \<Rightarrow> params" where
  "remote_params env pj =
     (case ce_parse_json env pj of
        Some (J_Obj obj) \<Rightarrow> fold (\<lambda>(k, v). AList.update k (value_text env v)) obj []
      | _ \<Rightarrow> [])"

definition route_inbound :: "core_env \<Rightarrow> InboundRequest \<Rightarrow> core \<Rightarrow> core" where
  "route_inbound env req c =
     (case ir_data_type req of
        DT_Command \<Rightarrow>
          (case Parse_Network_Command (ir_payload req) of
             Inr (ExecRemote command pj) \<Rightarrow>
               let ps = remote_params env pj in
               (case rg_get_user command (programs c) of
                  Some entry \<Rightarrow>
                    send_response (ir_request_id req) DT_Command ''OK''
                      (spawn (Tk_Script (pe_path entry) ps (''rexec:'' @ ir_peer req @ '':'' @ command)) c)
                | None \<Rightarrow> send_response (ir_request_id req) DT_Command (tx_fail_unknown @ command) c)
           | Inr other \<Rightarrow>
               send_response (ir_request_id req) DT_Command (tx_fail_protocol @ debug_protocol env other) c
           | Inl e \<Rightarrow>
               send_response (ir_request_id req) DT_Command
                 (tx_fail_parse @ show_command_error (ce_utf8_error env (ir_payload req)) e) c)
      | DT_File \<Rightarrow> core_publish (Bv_Notify Lv_Info (tx_file_todo @ ir_peer req @ '')'')) c
      | _ \<Rightarrow> c)"

section \<open>Inbound streams\<close>

definition route_stream :: "Network_Inbound_Event \<Rightarrow> core \<Rightarrow> core" where
  "route_stream ev c =
     (case ev of
        FileStreamArrived peer stream \<Rightarrow> spawn (Tk_File peer stream) c
      | SessionStreamArrived peer session_id stream \<Rightarrow> spawn (Tk_Session_Bridge peer session_id stream) c)"

section \<open>User commands\<close>

text \<open>\<open>{:?}\<close> of an optional latency.\<close>

definition debug_latency :: "u64 option \<Rightarrow> string" where
  "debug_latency l = (case l of None \<Rightarrow> ''None'' | Some v \<Rightarrow> ''Some('' @ show_u64 v @ '')'')"

definition peer_line :: "PeerInfo \<Rightarrow> string" where
  "peer_line p =
     (let line = display_name p @ '' [latency='' @ debug_latency (latency_ms (pi_profile p)) @ ''ms]'' in
      if pi_supported_models p = [] then line
      else line @ tx_models @ show_nat (length (pi_supported_models p)) @ ''):''
        @ concat (map (\<lambda>m. [CHR 0x0A] @ ''    '' @ sm_file_name m @ '' (id='' @ show_hex8 (sm_id m) @ '') [layers: ''
            @ layer_range (sm_layer_bitmap m) @ '']'') (pi_supported_models p)))"

definition display_peers :: "PeerInfo list \<Rightarrow> string" where
  "display_peers peers = (if peers = [] then tx_no_peers else join_lines (map peer_line peers))"

definition size_text :: "core_env \<Rightarrow> u64 \<Rightarrow> string" where
  "size_text env n =
     (if n \<ge> 1073741824 then ce_ratio env n 1073741824 @ '' GB''
      else if n \<ge> 1048576 then ce_ratio env n 1048576 @ '' MB''
      else if n \<ge> 1024 then ce_ratio env n 1024 @ '' KB''
      else show_u64 n @ '' B'')"

definition file_line :: "core_env \<Rightarrow> FileEntry \<Rightarrow> string" where
  "file_line env e =
     ''  '' @ pad_right 40 (fe_file_name e) @ '' '' @ pad_left 8 (size_text env (fe_size e)) @
     (case (fe_architecture e, fe_num_layers e, fe_model_id e) of
        (Some arch, Some layers, Some mid) \<Rightarrow>
          ''  ['' @ arch @ '' '' @ show_u32 layers @ '' layers, id='' @ show_hex8 mid @ '']''
      | _ \<Rightarrow> []) @ [CHR 0x0A]"

definition j_opt :: "('a \<Rightarrow> json) \<Rightarrow> 'a option \<Rightarrow> json" where
  "j_opt f x = (case x of None \<Rightarrow> J_Null | Some a \<Rightarrow> f a)"

definition file_item :: "FileEntry \<Rightarrow> json" where
  "file_item e =
     J_Obj [(''file_name'', J_Str (fe_file_name e)), (''size'', J_Num (unat (fe_size e))),
       (''architecture'', j_opt J_Str (fe_architecture e)),
       (''num_layers'', j_opt (\<lambda>n. J_Num (unat n)) (fe_num_layers e)),
       (''model_id'', j_opt (\<lambda>n. J_Num (unat n)) (fe_model_id e)),
       (''layer_bitmap'', j_opt (\<lambda>bm. J_Str (concat (map hex_byte bm))) (fe_layer_bitmap e))]"

definition list_files :: "core_env \<Rightarrow> FileEntry list \<Rightarrow> string \<times> json list" where
  "list_files env entries =
     (if entries = [] then (tx_storage_empty, [])
      else (tx_in_all @ show_nat (length entries) @ tx_files @ concat (map (file_line env) entries),
            map file_item entries))"

definition help_line :: "string \<times> string \<Rightarrow> string" where
  "help_line e = ''  '' @ pad_right 38 (fst e) @ '' '' @ snd e"

definition help_text :: "ProgramRegistry \<Rightarrow> string" where
  "help_text rg =
     (let entry = (\<lambda>e. (pe_command e, pe_description e));
          builtin = BUILTIN_COMMANDS @ map entry (builtin_entries rg);
          user = map entry (user_entries rg)
      in join_lines ([tx_builtin_head] @ map help_line builtin @ [[]] @ [tx_user_head] @
           (if user = [] then [tx_none] else map help_line user)))"

text \<open>\<open>params.get\<close> and \<open>params.insert\<close>: the value of \<open>peer\<close> becomes the peer id when it is a known
  name.\<close>

definition resolve_peer :: "peer_map \<Rightarrow> params \<Rightarrow> params" where
  "resolve_peer peers ps =
     (case map_of ps ''peer'' of
        None \<Rightarrow> ps
      | Some v \<Rightarrow>
          (case Get_Peer_By_Name v peers of
             Inr info \<Rightarrow> AList.update ''peer'' (pi_peer_id info) ps
           | Inl _ \<Rightarrow> ps))"

definition show_pm_error :: "Peer_Management_Error \<Rightarrow> string" where
  "show_pm_error e = (case e of PeerNotFound p \<Rightarrow> ''Peer not found: '' @ p)"

definition route_execute :: "string \<Rightarrow> params \<Rightarrow> core \<Rightarrow> core" where
  "route_execute command ps c =
     (case rg_get_user command (programs c) of
        None \<Rightarrow> put_output (tx_unknown_command @ command) c
      | Some entry \<Rightarrow> spawn (Tk_Script (pe_path entry) (resolve_peer (core_peers c) ps) command) c)"

definition route_set_name :: "core_env \<Rightarrow> string \<Rightarrow> core \<Rightarrow> core" where
  "route_set_name env name c =
     (case set_local_name name (core_peers c) of
        Inr peers \<Rightarrow>
          let c = c\<lparr>core_peers := peers\<rparr> in
          (case ce_save_name env name of
             Some e \<Rightarrow> put_output (tx_named @ name @ tx_not_persisted @ e) c
           | None \<Rightarrow> put_output (tx_node_named @ name) c)
      | Inl e \<Rightarrow> put_output (tx_name_failed @ show_pm_error e) c)"

definition route_reload :: "core_env \<Rightarrow> core \<Rightarrow> core" where
  "route_reload env c =
     (let before = length (command_names (programs c));
         c = c\<lparr>programs := reload_user (ce_host env) (ce_user_dir env) (programs c)\<rparr>;
         after = length (command_names (programs c))
     in put_output (tx_reloaded @ show_nat before @ tx_arrow @ show_nat after @ '')'') c)"

definition route_list :: "core_env \<Rightarrow> core \<Rightarrow> core" where
  "route_list env c =
     (case list_files env (Storage_List (core_storage c)) of (txt, entries) \<Rightarrow>
        core_publish (Bv_Output (J_Obj [(''type'', J_Str ''cmd_result''), (''text'', J_Str txt),
          (''completed'', J_Bool True), (''entries'', J_Arr entries)])) c)"

definition route_send :: "string \<Rightarrow> string \<Rightarrow> core \<Rightarrow> core" where
  "route_send file_path peer c =
     (case rg_get ''send'' (programs c) of
        None \<Rightarrow> put_output tx_no_send c
      | Some entry \<Rightarrow>
          let target_id = (case Get_Peer_By_Name peer (core_peers c) of
                             Inr info \<Rightarrow> pi_peer_id info | Inl _ \<Rightarrow> peer)
          in spawn (Tk_Script (pe_path entry) [(''file'', file_path), (''peer'', target_id)]
               (''send '' @ file_path @ '' -> '' @ peer)) c)"

definition route_session_inference :: "string \<Rightarrow> u64 \<Rightarrow> string \<Rightarrow> core \<Rightarrow> core" where
  "route_session_inference command session_id model_path c =
     (case rg_get command (programs c) of
        None \<Rightarrow> core_publish (Bv_Notify Lv_Error (tx_ml_script @ command @ tx_not_found)) c
      | Some entry \<Rightarrow>
          spawn (Tk_Script (pe_path entry) [(''session_id'', show_u64 session_id), (''model_path'', model_path)]
            (''inference:'' @ command @ '' session '' @ show_u64 session_id)) c)"

definition route_api :: "u64 \<Rightarrow> core \<Rightarrow> core" where
  "route_api session_id c =
     (let model = (case find (\<lambda>s. si_session_id s = session_id) (list_sessions (core_sessions c)) of
                       Some s \<Rightarrow> si_model_id s | None \<Rightarrow> ''unknown'')
     in spawn (Tk_Api session_id model) c)"

definition route_exec_remote :: "core_env \<Rightarrow> string \<Rightarrow> string \<Rightarrow> params \<Rightarrow> core \<Rightarrow> core" where
  "route_exec_remote env peer command ps c =
     (case Get_Peer_By_Name peer (core_peers c) of
        Inl _ \<Rightarrow> put_output (tx_unknown_node @ peer) c
      | Inr info \<Rightarrow>
          let pj = unwrap_or ''{}'' (ce_params_to_json env ps);
              pl = Serialize_Network_Command (ExecRemote command pj);
              c = c\<lparr>core_requests := core_requests c @ [(pi_peer_id info, DT_Command, pl)]\<rparr>
          in (case ce_send_data env (pi_peer_id info) DT_Command pl of
                Inr response \<Rightarrow> put_output (bracketed peer @ tx_remote_done @ from_utf8_lossy (payload response)) c
              | Inl e \<Rightarrow> put_output (bracketed peer @ tx_remote_failed @ show_network_error e) c))"

definition route_user :: "core_env \<Rightarrow> UserCommand \<Rightarrow> core \<Rightarrow> core" where
  "route_user env cmd c =
     (case cmd of
        Uc_Execute command ps \<Rightarrow> route_execute command ps c
      | Uc_Run script model_path \<Rightarrow> put_output ''Run: not yet implemented'' c
      | Uc_Cancel j \<Rightarrow> put_output (tx_job_no @ show_u64 j @ tx_cancel_sent) (cancel_job j c)
      | Uc_Quit \<Rightarrow> let c = shutdown c in c\<lparr>quit_replies := quit_replies c + 1\<rparr>
      | Uc_DisplayPeer \<Rightarrow> put_output (display_peers (get_all_peers (core_peers c))) c
      | Uc_SetName name \<Rightarrow> route_set_name env name c
      | Uc_Reload \<Rightarrow> route_reload env c
      | Uc_SetDevice dev \<Rightarrow>
          put_output (tx_device_set @ ce_uppercase env dev) (c\<lparr>device_preference := dev\<rparr>)
      | Uc_DistributeModel model_path peers \<Rightarrow> put_output ''DistributeModel: not yet implemented'' c
      | Uc_List \<Rightarrow> route_list env c
      | Uc_Flush \<Rightarrow> spawn Tk_Flush c
      | Uc_Dial addr \<Rightarrow> spawn (Tk_Dial addr) c
      | Uc_Send file_path peer \<Rightarrow> route_send file_path peer c
      | Uc_Profile model \<Rightarrow> put_output tx_profile_todo c
      | Uc_Help \<Rightarrow>
          core_publish (Bv_Output (J_Obj [(''type'', J_Str ''help''), (''text'', J_Str (help_text (programs c)))])) c
      | Uc_Session model \<Rightarrow> spawn (Tk_Session model) c
      | Uc_SessionInference command session_id model_path \<Rightarrow> route_session_inference command session_id model_path c
      | Uc_Api session_id \<Rightarrow> route_api session_id c
      | Uc_ExecRemote peer command ps \<Rightarrow> route_exec_remote env peer command ps c)"

lemmas route_user_unfold =
  route_user_def route_execute_def route_set_name_def route_reload_def route_list_def route_send_def
  route_session_inference_def route_api_def route_exec_remote_def

section \<open>The main loop\<close>

datatype core_event =
    Ce_User UserCommand
  | Ce_Inbound InboundRequest
  | Ce_Stream Network_Inbound_Event
  | Ce_Lifecycle LifecycleEvent
  | Ce_Grace_Expired

definition enabled :: "core_event \<Rightarrow> core \<Rightarrow> bool" where
  "enabled ev c =
     (case ev of
        Ce_User _ \<Rightarrow> \<not> shutting_down c
      | Ce_Inbound _ \<Rightarrow> \<not> shutting_down c
      | Ce_Stream _ \<Rightarrow> \<not> shutting_down c
      | Ce_Lifecycle _ \<Rightarrow> True
      | Ce_Grace_Expired \<Rightarrow> shutting_down c)"

text \<open>One iteration for the event that \<open>select!\<close> picks: whether the loop goes on, and the state.\<close>

definition core_turn :: "core_env \<Rightarrow> core_event \<Rightarrow> core \<Rightarrow> bool \<times> core" where
  "core_turn env ev c =
     (case ev of
        Ce_User cmd \<Rightarrow> (True, route_user env cmd c)
      | Ce_Inbound req \<Rightarrow> (True, route_inbound env req c)
      | Ce_Stream e \<Rightarrow> (True, route_stream e c)
      | Ce_Lifecycle e \<Rightarrow> (True, route_lifecycle env e c)
      | Ce_Grace_Expired \<Rightarrow> (False, c))"

text \<open>The loop over the events in the order they become ready. An event whose branch is disabled stays
  in its channel; the third component lists those.\<close>

fun core_run :: "core_env \<Rightarrow> core_event list \<Rightarrow> core \<Rightarrow> bool \<times> core \<times> core_event list" where
  "core_run env [] c = (shutting_down c \<and> registry c = [], c, [])"
| "core_run env (ev # evs) c =
     (if shutting_down c \<and> registry c = [] then (True, c, ev # evs)
      else if enabled ev c then
        (case core_turn env ev c of
           (True, c) \<Rightarrow> core_run env evs c
         | (False, c) \<Rightarrow> (True, c, evs))
      else (case core_run env evs c of (stopped, c, left) \<Rightarrow> (stopped, c, ev # left)))"

section \<open>Lemmas\<close>

lemma core_fields [simp]:
  "core_bus (core_publish e c) = core_bus c @ [e]" "core_tasks (core_publish e c) = core_tasks c"
  "core_responses (core_publish e c) = core_responses c" "registry (core_publish e c) = registry c"
  "shutting_down (core_publish e c) = shutting_down c" "quit_replies (core_publish e c) = quit_replies c"
  "core_bus (spawn t c) = core_bus c" "core_tasks (spawn t c) = core_tasks c @ [t]"
  "core_responses (spawn t c) = core_responses c" "registry (spawn t c) = registry c"
  "shutting_down (spawn t c) = shutting_down c" "quit_replies (spawn t c) = quit_replies c"
  "core_bus (send_response i ty s c) = core_bus c" "core_tasks (send_response i ty s c) = core_tasks c"
  "core_responses (send_response i ty s c) = core_responses c @ [(i, ty, as_bytes s)]"
  "registry (send_response i ty s c) = registry c" "shutting_down (send_response i ty s c) = shutting_down c"
  "quit_replies (send_response i ty s c) = quit_replies c"
  by (simp_all add: core_publish_def spawn_def send_response_def)

lemma put_output_fields [simp]:
  "core_bus (put_output s c) = core_bus c @ [Bv_Output (cmd_output s True)]" "core_tasks (put_output s c) = core_tasks c"
  "core_responses (put_output s c) = core_responses c" "registry (put_output s c) = registry c"
  "shutting_down (put_output s c) = shutting_down c" "quit_replies (put_output s c) = quit_replies c"
  by (simp_all add: put_output_def)

lemma job_fields [simp]:
  "core_bus (cancel_job j c) = core_bus c" "core_tasks (cancel_job j c) = core_tasks c"
  "core_responses (cancel_job j c) = core_responses c" "shutting_down (cancel_job j c) = shutting_down c"
  "quit_replies (cancel_job j c) = quit_replies c"
  "core_bus (shutdown c) = core_bus c" "core_tasks (shutdown c) = core_tasks c"
  "core_responses (shutdown c) = core_responses c" "shutting_down (shutdown c)"
  "quit_replies (shutdown c) = quit_replies c"
  by (simp_all add: cancel_job_def shutdown_def split: option.split)

text \<open>A user command adds one event, one task or one quit reply.\<close>

definition adds_one :: "core \<Rightarrow> core \<Rightarrow> bool" where
  "adds_one c c' \<longleftrightarrow>
     core_responses c' = core_responses c \<and>
     ((\<exists>ev. core_bus c' = core_bus c @ [ev] \<and> core_tasks c' = core_tasks c \<and> quit_replies c' = quit_replies c) \<or>
      (\<exists>t. core_bus c' = core_bus c \<and> core_tasks c' = core_tasks c @ [t] \<and> quit_replies c' = quit_replies c) \<or>
      (core_bus c' = core_bus c \<and> core_tasks c' = core_tasks c \<and> quit_replies c' = quit_replies c + 1))"

lemma adds_one_cases:
  "core_responses c' = core_responses c \<Longrightarrow> core_bus c' = core_bus c @ [ev] \<Longrightarrow> core_tasks c' = core_tasks c \<Longrightarrow>
     quit_replies c' = quit_replies c \<Longrightarrow> adds_one c c'"
  "core_responses c' = core_responses c \<Longrightarrow> core_bus c' = core_bus c \<Longrightarrow> core_tasks c' = core_tasks c @ [t] \<Longrightarrow>
     quit_replies c' = quit_replies c \<Longrightarrow> adds_one c c'"
  by (auto simp: adds_one_def)

lemma adds_one_user: "adds_one c (route_user env cmd c)"
  by (cases cmd)
    (auto simp: route_user_unfold Let_def split: option.split sum.split prod.split
      intro: adds_one_cases, simp_all add: adds_one_def Let_def)

lemma registry_user:
  "registry c = [] \<Longrightarrow> registry (route_user env cmd c) = []"
  "shutting_down (route_user env cmd c) \<longleftrightarrow> shutting_down c \<or> cmd = Uc_Quit"
  by (cases cmd; simp add: route_user_unfold Let_def cancel_job_def shutdown_def split: option.split sum.split prod.split)+

lemma quit_replies_user:
  "quit_replies (route_user env cmd c) = (if cmd = Uc_Quit then quit_replies c + 1 else quit_replies c)"
  by (cases cmd; simp add: route_user_unfold Let_def split: option.split sum.split prod.split)

lemma inbound_fields [simp]:
  "registry (route_inbound env req c) = registry c" "shutting_down (route_inbound env req c) = shutting_down c"
  "quit_replies (route_inbound env req c) = quit_replies c"
  by (simp_all add: route_inbound_def Let_def split: DataType.split sum.split NetworkProtocol.split option.split)

lemma stream_fields [simp]:
  "registry (route_stream e c) = registry c" "shutting_down (route_stream e c) = shutting_down c"
  "core_bus (route_stream e c) = core_bus c" "core_responses (route_stream e c) = core_responses c"
  "quit_replies (route_stream e c) = quit_replies c"
  by (simp_all add: route_stream_def split: Network_Inbound_Event.split)

lemma lifecycle_fields [simp]:
  "registry (route_lifecycle env (Lc_Done j r) c) = AList.delete j (registry c)"
  "shutting_down (route_lifecycle env e c) = shutting_down c" "core_tasks (route_lifecycle env e c) = core_tasks c"
  "core_responses (route_lifecycle env e c) = core_responses c" "quit_replies (route_lifecycle env e c) = quit_replies c"
  by (cases e; simp add: route_lifecycle_def Let_def)+

lemma lifecycle_empty: "registry c = [] \<Longrightarrow> registry (route_lifecycle env e c) = []"
  by (cases e) simp

text \<open>Whose request is executed: the program a request names and its parameters.\<close>

definition exec_target :: "InboundRequest \<Rightarrow> core \<Rightarrow> (ProgramEntry \<times> string \<times> string) option" where
  "exec_target req c =
     (if ir_data_type req = DT_Command then
        (case Parse_Network_Command (ir_payload req) of
           Inr (ExecRemote command pj) \<Rightarrow> map_option (\<lambda>e. (e, command, pj)) (rg_get_user command (programs c))
         | _ \<Rightarrow> None)
      else None)"

text \<open>The events a command ends with: a completed result, the help text or an error notice.\<close>

definition final_event :: "bus_event \<Rightarrow> bool" where
  "final_event ev \<longleftrightarrow>
     (case ev of
        Bv_Output (J_Obj fs) \<Rightarrow>
          map_of fs ''completed'' = Some (J_Bool True) \<or> map_of fs ''type'' = Some (J_Str ''help'')
      | Bv_Notify level m \<Rightarrow> level = Lv_Error
      | _ \<Rightarrow> False)"

lemma final_event_output [simp]: "final_event (Bv_Output (cmd_output s True))"
  by (simp add: final_event_def cmd_output_def)

definition lifecycle_ids :: "core_event list \<Rightarrow> job_id set" where
  "lifecycle_ids evs = {j. \<exists>r. Ce_Lifecycle (Lc_Done j r) \<in> set evs}"

lemma lifecycle_ids_simps [simp]:
  "lifecycle_ids [] = {}" "lifecycle_ids (Ce_Lifecycle (Lc_Done j r) # evs) = insert j (lifecycle_ids evs)"
  "lifecycle_ids (Ce_User u # evs) = lifecycle_ids evs" "lifecycle_ids (Ce_Inbound q # evs) = lifecycle_ids evs"
  "lifecycle_ids (Ce_Stream s # evs) = lifecycle_ids evs" "lifecycle_ids (Ce_Grace_Expired # evs) = lifecycle_ids evs"
  by (auto simp: lifecycle_ids_def)

lemma keys_empty: "fst ` set al \<subseteq> {} \<longleftrightarrow> al = []"
  by auto

lemma drain_run:
  assumes "shutting_down c" "Ce_Grace_Expired \<notin> set evs"
  shows "\<exists>c' left. core_run env evs c = (fst ` set (registry c) \<subseteq> lifecycle_ids evs, c', left) \<and>
     core_tasks c' = core_tasks c \<and> core_responses c' = core_responses c \<and>
     filter (\<lambda>e. \<not> enabled e c) left = filter (\<lambda>e. \<not> enabled e c) evs"
  using assms
proof (induction env evs c rule: core_run.induct)
  case (1 env c)
  then show ?case by auto
next
  case (2 env ev evs c)
  show ?case
  proof (cases "registry c = []")
    case False
    show ?thesis
    proof (cases "enabled ev c")
      case True
      then obtain j r where ev: "ev = Ce_Lifecycle (Lc_Done j r)"
        using "2.prems" by (cases ev) (auto simp: enabled_def elim: LifecycleEvent.exhaust)
      let ?c = "route_lifecycle env (Lc_Done j r) c"
      have "\<exists>c' left. core_run env evs ?c = (fst ` set (registry ?c) \<subseteq> lifecycle_ids evs, c', left) \<and>
          core_tasks c' = core_tasks ?c \<and> core_responses c' = core_responses ?c \<and>
          filter (\<lambda>e. \<not> enabled e ?c) left = filter (\<lambda>e. \<not> enabled e ?c) evs"
        by (rule "2.IH") (use "2.prems" False True in \<open>auto simp: ev core_turn_def\<close>)
      moreover have "enabled e ?c = enabled e c" for e by (simp add: enabled_def split: core_event.split)
      moreover have "fst ` set (AList.delete j (registry c)) \<subseteq> S \<longleftrightarrow> fst ` set (registry c) \<subseteq> insert j S" for S
        by (auto simp: store_simps)
      ultimately show ?thesis using False True "2.prems" by (auto simp: ev core_turn_def)
    next
      case dis: False
      have "lifecycle_ids (ev # evs) = lifecycle_ids evs"
        using dis "2.prems" by (cases ev) (auto simp: enabled_def)
      then show ?thesis using "2.IH"(2) [OF _ dis] "2.prems" False dis by fastforce
    qed
  qed (use "2.prems" in auto)
qed

lemma quiet_run:
  assumes "\<not> shutting_down c" "registry c = []" "Ce_Grace_Expired \<notin> set evs" "Ce_User Uc_Quit \<notin> set evs"
  shows "\<exists>c'. core_run env (evs @ Ce_User Uc_Quit # rest) c = (True, c', rest) \<and> quit_replies c' = quit_replies c + 1"
  using assms
proof (induction evs arbitrary: c)
  case Nil
  then show ?case
    by (cases rest) (auto simp: enabled_def core_turn_def route_user_unfold Let_def shutdown_def)
next
  case (Cons ev evs)
  obtain c1 where turn: "core_turn env ev c = (True, c1)" and c1: "\<not> shutting_down c1" "registry c1 = []"
      "quit_replies c1 = quit_replies c" and en: "enabled ev c"
    using Cons.prems
    by (cases ev) (auto simp: core_turn_def enabled_def registry_user quit_replies_user lifecycle_empty)
  show ?case using Cons.IH [of c1] Cons.prems c1 by (simp add: turn en)
qed

section \<open>Properties\<close>




definition demo_core :: core where
  "demo_core = register_job 4 Jk_Generic (Core_new \<lparr>sh_read = (\<lambda>_. None), sh_eval = (\<lambda>_. None)\<rparr> None None []
     (Storage_New ''w'' [] []))"


text \<open>The running program registers no job, so a quit command ends the loop at once: whatever was
  handled before, the tasks it started are not waited for, and what follows stays unread.\<close>

theorem quit_does_not_wait:
  assumes "Ce_Grace_Expired \<notin> set evs" "Ce_User Uc_Quit \<notin> set evs"
  shows "\<exists>c'. core_run env (evs @ Ce_User Uc_Quit # rest) (Core_new host builtin_dir user_dir peers st) = (True, c', rest) \<and>
           quit_replies c' = 1"
  using quiet_run [of "Core_new host builtin_dir user_dir peers st" evs env rest] assms
  by (simp add: Core_new_def)

theorem quit_does_not_wait_witness:
  "\<exists>c'. core_run undefined ([Ce_User Uc_Flush] @ Ce_User Uc_Quit # [Ce_User Uc_Help])
       (Core_new \<lparr>sh_read = (\<lambda>_. None), sh_eval = (\<lambda>_. None)\<rparr> None None [] (Storage_New ''w'' [] []))
     = (True, c', [Ce_User Uc_Help]) \<and> quit_replies c' = 1"
  by (rule quit_does_not_wait) simp_all

text \<open>The reload answers for the user directory as it is now.\<close>

lemma reload_effect:
  "programs (route_user env Uc_Reload c) = reload_user (ce_host env) (ce_user_dir env) (programs c)"
  by (simp add: route_user_unfold Let_def put_output_def core_publish_def)

text \<open>What a node sends for a remote execution.\<close>

lemma rexec_request:
  assumes "Get_Peer_By_Name peer (core_peers a) = Inr info" "ce_params_to_json env ps = Some pj"
  shows "core_requests (route_user env (Uc_ExecRemote peer command ps) a)
    = core_requests a @ [(pi_peer_id info, DT_Command, Serialize_Network_Command (ExecRemote command pj))]"
  using assms by (simp add: route_user_unfold Let_def unwrap_or_def put_output_def core_publish_def split: sum.split)

lemma fold_update_distinct:
  assumes "distinct (map fst kvs @ map fst acc)"
  shows "fold (\<lambda>(k, v). AList.update k (f v)) kvs acc = acc @ map (\<lambda>(k, v). (k, f v)) kvs"
  using assms
proof (induction kvs arbitrary: acc)
  case (Cons kv kvs)
  obtain k v where kv: "kv = (k, v)" by fastforce
  have u: "AList.update k (f v) acc = acc @ [(k, f v)]"
    using Cons.prems by (auto simp: kv intro!: update_absent simp: map_of_eq_None_iff)
  show ?case using Cons.prems by (simp add: kv u Cons.IH)
qed simp


text \<open>With a bar in the encoded parameters the peer starts nothing and answers with a complaint about
  the number of fields.\<close>

theorem remote_execution_with_bar:
  assumes "Get_Peer_By_Name peer (core_peers a) = Inr info"
    and "is_str command" "bar_free command" "is_str pj" "\<not> bar_free pj"
    and "ce_params_to_json env ps = Some pj"
  shows "\<exists>pl. core_requests (route_user env (Uc_ExecRemote peer command ps) a)
           = core_requests a @ [(pi_peer_id info, DT_Command, pl)] \<and>
         (let b' = route_inbound env' \<lparr>ir_request_id = i, ir_peer = sender, ir_data_type = DT_Command, ir_payload = pl\<rparr> b
          in core_tasks b' = core_tasks b \<and>
             core_responses b' = core_responses b @ [(i, DT_Command, as_bytes (tx_fail_parse @ ''EXEC'' @ tx_bad_format
               @ show_nat 3 @ tx_fields @ show_nat (3 + count_list pj (CHR ''|'')) @ tx_format @ ''EXEC|command|params_json''))])"
  using exec_with_bar_rejected [OF assms(2,4,3,5)]
  by (simp add: rexec_request [OF assms(1,6)] route_inbound_def show_command_error_def command_format_def
      del: show_nat.simps)

definition demo_env :: "(params \<Rightarrow> string) \<Rightarrow> json \<Rightarrow> core_env" where
  "demo_env enc j =
     \<lparr>ce_host = \<lparr>sh_read = (\<lambda>_. None), sh_eval = (\<lambda>_. None)\<rparr>, ce_user_dir = None, ce_params_to_json = (\<lambda>p. Some (enc p)),
      ce_parse_json = (\<lambda>_. Some j), ce_show_json = (\<lambda>_. []), ce_send_data = (\<lambda>_ _ _. Inl (Rejected [])),
      ce_save_name = (\<lambda>_. None), ce_debug_str = (\<lambda>s. s), ce_uppercase = (\<lambda>s. s), ce_ratio = (\<lambda>_ _. []),
      ce_utf8_error = (\<lambda>_. [])\<rparr>"

definition demo_node :: "string list \<Rightarrow> core" where
  "demo_node cmds =
     (Core_new \<lparr>sh_read = (\<lambda>_. None), sh_eval = (\<lambda>_. None)\<rparr> None None [(''Qm01'', PeerInfo_new_local 0 ''Qm01'' ''n'')]
        (Storage_New ''w'' [] []))
       \<lparr>programs := \<lparr>rg_builtin = [], rg_user = map (\<lambda>k. (k, \<lparr>pe_path = k @ ''.lua'', pe_command = k, pe_description = []\<rparr>)) cmds\<rparr>\<rparr>"

lemma demo_node_peer: "Get_Peer_By_Name ''n#Qm01'' (core_peers (demo_node cmds)) = Inr (PeerInfo_new_local 0 ''Qm01'' ''n'')"
  by (simp add: Get_Peer_By_Name_def get_peer_by_name_def demo_node_def Core_new_def display_name_def PeerInfo_new_local_def
      Let_def ok_or_def)


end
