(* ===== verification/Orchestrator_Tasks.thy ===== *)
theory Orchestrator_Tasks
  imports Orchestrator
begin

text \<open>
  The tasks the core spawns (\<open>Src/Orchestrator/core.rs\<close>, \<open>core/branch_user.rs\<close>,
  \<open>core/branch_stream.rs\<close>): running a program, flushing, dialling, creating a session, the HTTP
  server, receiving a file and bridging a session stream. A task is a function on the parts of the
  shared state it touches; a task that waits for something nobody sends has no result.
\<close>

section \<open>Running a program\<close>

datatype capability_set = Cap_Base | Cap_Logging | Cap_Network | Cap_Storage | Cap_Ml | Cap_Local_Stream

text \<open>The interpreter and the operating system as a program run meets them: \<open>None\<close> is success, \<open>Some\<close>
  the text of an error.\<close>

record lua_run =
  lr_runtime :: "string option"
  lr_read :: "string \<Rightarrow> string + string"
  lr_context :: "string option"
  lr_register :: "capability_set \<Rightarrow> string option"
  lr_eval :: "string \<Rightarrow> string option"
  lr_table :: "string option"
  lr_set :: "string \<Rightarrow> string \<Rightarrow> string option"
  lr_execute :: bool
  lr_call :: "string \<Rightarrow> params \<Rightarrow> string option"

definition failure_text :: "capability_set \<Rightarrow> string" where
  "failure_text cap =
     (case cap of Cap_Base \<Rightarrow> tx_reg_base | Cap_Logging \<Rightarrow> tx_reg_log | Cap_Network \<Rightarrow> tx_reg_net
      | Cap_Storage \<Rightarrow> tx_reg_storage | Cap_Ml \<Rightarrow> tx_reg_ml | Cap_Local_Stream \<Rightarrow> tx_reg_local)"

text \<open>The capability sets are registered in this order; the first failure ends the run.\<close>

definition capability_order :: "capability_set list" where
  "capability_order = [Cap_Base, Cap_Logging, Cap_Network, Cap_Storage, Cap_Ml, Cap_Local_Stream]"

fun register_all :: "lua_run \<Rightarrow> capability_set list \<Rightarrow> string option" where
  "register_all lr [] = None"
| "register_all lr (cap # caps) =
     (case lr_register lr cap of Some e \<Rightarrow> Some (failure_text cap @ e) | None \<Rightarrow> register_all lr caps)"

fun set_params :: "lua_run \<Rightarrow> params \<Rightarrow> string option" where
  "set_params lr [] = None"
| "set_params lr ((k, v) # ps) =
     (case lr_set lr k v of Some e \<Rightarrow> Some (tx_set_param @ k @ tx_failed @ e) | None \<Rightarrow> set_params lr ps)"

definition fail_with :: "string \<Rightarrow> string option \<Rightarrow> string + unit" where
  "fail_with msg e = (case e of None \<Rightarrow> Inr () | Some t \<Rightarrow> Inl (msg @ t))"

text \<open>The text after the bracketed label, for success and for each way to fail.\<close>

definition script_body :: "lua_run \<Rightarrow> string \<Rightarrow> params \<Rightarrow> string + unit" where
  "script_body lr path ps =
     rbind (map_err (\<lambda>e. tx_read_failed @ e) (lr_read lr path)) (\<lambda>script.
     rbind (fail_with tx_lua_failed (lr_context lr)) (\<lambda>_.
     rbind (fail_with [] (register_all lr capability_order)) (\<lambda>_.
     rbind (fail_with tx_syntax (lr_eval lr script)) (\<lambda>_.
     rbind (fail_with tx_table (lr_table lr)) (\<lambda>_.
     rbind (fail_with [] (set_params lr ps)) (\<lambda>_.
     if \<not> lr_execute lr then Inl tx_no_execute
     else fail_with tx_exec_failed (lr_call lr script ps)))))))"

definition spawn_lua_script :: "lua_run \<Rightarrow> string \<Rightarrow> params \<Rightarrow> string \<Rightarrow> bus_event list" where
  "spawn_lua_script lr path ps label =
     (case lr_runtime lr of
        Some e \<Rightarrow> [Bv_Notify Lv_Error (bracketed label @ tx_rt_failed @ e)]
      | None \<Rightarrow>
          [Bv_Output (cmd_output
             (bracketed label @ (case script_body lr path ps of Inr _ \<Rightarrow> tx_executed | Inl e \<Rightarrow> e)) True)])"

section \<open>Flush, dial and the HTTP server\<close>

definition show_storage_error :: "StorageError \<Rightarrow> string" where
  "show_storage_error e =
     (case e of St_NotFound m \<Rightarrow> ''NotFound: '' @ m | St_InUse m \<Rightarrow> ''InUse: '' @ m | St_Io m \<Rightarrow> ''Io: '' @ m)"

text \<open>The text, the new storage and directory, the requests sent to peers and the events published.\<close>

definition do_flush ::
  "json_codec \<Rightarrow> analyzer \<Rightarrow> string list \<Rightarrow> nat \<Rightarrow> storage \<Rightarrow> peer_map \<Rightarrow>
   string \<times> storage \<times> peer_map \<times> (peer_id \<times> DataType \<times> bytes) list \<times> bus_event list" where
  "do_flush jc analyze listing now st peers =
     (case Storage_Flush analyze listing now st peers of
        Inr ((added, removed), st, peers, evs) \<Rightarrow>
          (case broadcast_local_info jc peers of
             (reqs, evs') \<Rightarrow>
               (tx_flushed @ show_nat added @ tx_removed @ show_nat removed @ tx_items, st, peers, reqs,
                map Bv_Node (evs @ evs')))
      | Inl e \<Rightarrow> (tx_flush_failed @ show_storage_error e, st, peers, [], []))"

text \<open>The flush command and the initial flush publish the text as a completed output.\<close>

definition run_flush ::
  "json_codec \<Rightarrow> analyzer \<Rightarrow> string list \<Rightarrow> nat \<Rightarrow> storage \<Rightarrow> peer_map \<Rightarrow>
   storage \<times> peer_map \<times> (peer_id \<times> DataType \<times> bytes) list \<times> bus_event list" where
  "run_flush jc analyze listing now st peers =
     (case do_flush jc analyze listing now st peers of
        (txt, st, peers, reqs, evs) \<Rightarrow> (st, peers, reqs, evs @ [Bv_Output (cmd_output txt True)]))"

text \<open>\<open>parsed\<close>: the address parser's result; \<open>dialled\<close>: what the capability's \<open>dial\<close> gives.\<close>

definition run_dial :: "string + multiaddr \<Rightarrow> (multiaddr \<Rightarrow> Network_Error + unit) \<Rightarrow> string \<Rightarrow> bus_event list" where
  "run_dial parsed dialled addr =
     (case parsed of
        Inr ma \<Rightarrow>
          (case dialled ma of
             Inr _ \<Rightarrow> [Bv_Notify Lv_Info (''dial '' @ addr @ tx_succeeded)]
           | Inl e \<Rightarrow> [Bv_Notify Lv_Error (''dial '' @ addr @ tx_failed @ show_network_error e)])
      | Inl e \<Rightarrow> [Bv_Notify Lv_Error (tx_bad_addr @ e)])"

definition run_api :: "string + u16 \<Rightarrow> u64 \<Rightarrow> string \<Rightarrow> bus_event list" where
  "run_api started session_id model =
     (case started of
        Inr port \<Rightarrow>
          [Bv_Notify Lv_Info (''API server started for session '' @ show_u64 session_id @ '' on http://127.0.0.1:''
             @ show_nat (unat port) @ '' (model: '' @ model @ '')'')]
      | Inl e \<Rightarrow>
          [Bv_Notify Lv_Error (''API server failed for session '' @ show_u64 session_id @ '': '' @ e)])"

section \<open>Creating a session\<close>

definition session_summary :: "SessionInfo \<Rightarrow> SessionSummary" where
  "session_summary s =
     \<lparr>ss_session_id = si_session_id s, ss_model_id = si_model_id s, ss_occupied_slots = si_occupied_slots s,
      ss_total_slots = si_total_slots s\<rparr>"

definition run_session ::
  "json_codec \<Rightarrow> nat \<Rightarrow> string \<Rightarrow> SessionManager \<Rightarrow> peer_map \<Rightarrow>
   SessionManager \<times> peer_map \<times> (peer_id \<times> DataType \<times> bytes) list \<times> bus_event list" where
  "run_session jc now model m peers =
     (case create_session model m of
        (sid, m) \<Rightarrow>
          let peers = (case Get_Local_Peer peers of
                         Inr local \<Rightarrow>
                           keep_on_error (update_sessions now (pi_peer_id local) (map session_summary (list_sessions m))) peers
                       | Inl _ \<Rightarrow> peers)
          in (case broadcast_local_info jc peers of
                (reqs, evs) \<Rightarrow>
                  (m, peers, reqs,
                   map Bv_Node evs @ [Bv_Notify Lv_Info (''Session '' @ show_u64 sid @ '' created (model: '' @ model @ '')'')])))"

section \<open>Receiving a file\<close>

text \<open>
  The task reads the header, takes the write guard, receives and drops the guard. \<open>target\<close> is what
  creating the file gives. The result is missing while the guard is held by somebody else.
\<close>

record file_task =
  ft_io_text :: "io_error \<Rightarrow> string"
  ft_sched :: "nat \<Rightarrow> nat"
  ft_target :: "io_error + out_stream"
  ft_index_free :: bool

definition put_file :: "string \<Rightarrow> bytes \<Rightarrow> storage \<Rightarrow> storage" where
  "put_file name contents st = st\<lparr>disk := AList.update name contents (disk st)\<rparr>"

definition run_file_receive :: "file_task \<Rightarrow> peer_id \<Rightarrow> bytes \<Rightarrow> storage \<Rightarrow> (storage \<times> bus_event list) option" where
  "run_file_receive ft peer inp st =
     (case Read_File_Stream_Header inp of
        Inl e \<Rightarrow> Some (st, [])
      | Inr ((file_name, file_size, checksum), inp) \<Rightarrow>
          (case Acquire_Write file_name st of
             Inl e \<Rightarrow> Some (st, [])
           | Inr (dest_path, g, None) \<Rightarrow> None
           | Inr (dest_path, g, Some st) \<Rightarrow>
               (case cap_receive_file_data (ft_io_text ft) (ft_sched ft) (Some file_name) file_size inp (ft_target ft) of
                  (r, written) \<Rightarrow>
                    let st = (case ft_target ft of Inr _ \<Rightarrow> put_file file_name written st | Inl _ \<Rightarrow> st);
                        st = drop_guard (ft_index_free ft) g st
                    in Some (st, case r of
                                   Inl e \<Rightarrow> []
                                 | Inr _ \<Rightarrow> [Bv_Notify Lv_Info (tx_file_received @ file_name @ '' ('' @ show_u64 file_size
                                              @ '' bytes) from '' @ peer)]))))"

section \<open>Bridging a session stream\<close>

text \<open>
  One turn writes the tokens of the channel up to the terminator. The result also tells whether the
  turn ended; a turn whose tokens run out while the channel is open goes on waiting.
\<close>

fun forward_tokens :: "bool \<Rightarrow> string list \<Rightarrow> out_stream \<Rightarrow> bool \<times> string list \<times> out_stream" where
  "forward_tokens chan_closed [] out = (chan_closed, [], out)"
| "forward_tokens chan_closed (t # ts) out =
     (if t = SENTINEL then
        (True, ts, case write_session_frame [] out of Inr out \<Rightarrow> out | Inl _ \<Rightarrow> out)
      else (case write_session_frame t out of
              Inr out \<Rightarrow> forward_tokens chan_closed ts out
            | Inl _ \<Rightarrow> (True, ts, out)))"

text \<open>\<open>serve\<close> is the session behind the slot: what a request makes it put into the token channel and
  whether the channel is then closed, or \<open>None\<close> when the prompt channel is closed.\<close>

type_synonym 's server = "string \<Rightarrow> u32 \<Rightarrow> 's \<Rightarrow> (string list \<times> bool \<times> 's) option"

lemma read_session_frame_shorter: "read_session_frame inp = Inr (txt, rest) \<Longrightarrow> length rest < length inp"
  by (auto simp: read_session_frame_def read_exact_def rbind_eq_Inr split: if_splits)

function bridge_loop ::
  "'s server \<Rightarrow> 's \<Rightarrow> string list \<Rightarrow> bytes \<Rightarrow> out_stream \<Rightarrow> 's \<times> out_stream" where
  "bridge_loop serve s queue inp out =
     (case read_session_frame inp of
        Inl e \<Rightarrow> (s, out)
      | Inr (prompt, rest) \<Rightarrow>
          (case serve prompt 256 s of
             None \<Rightarrow> (s, out)
           | Some (toks, chan_closed, s) \<Rightarrow>
               (case forward_tokens chan_closed (queue @ toks) out of
                  (True, queue, out) \<Rightarrow> bridge_loop serve s queue rest out
                | (False, queue, out) \<Rightarrow> (s, out))))"
  by pat_completeness auto
termination
  by (relation "measure (\<lambda>(serve, s, queue, inp, out). length inp)") (auto dest: read_session_frame_shorter)

declare bridge_loop.simps [simp del]

text \<open>The allocation failure ends the task; a successful one starts the bridge on the slot's channels.\<close>

definition run_session_bridge ::
  "(SlotHandle \<Rightarrow> 's server) \<Rightarrow> u64 \<Rightarrow> bytes \<Rightarrow> out_stream \<Rightarrow> 's \<Rightarrow> SessionManager \<Rightarrow> SessionManager \<times> 's \<times> out_stream" where
  "run_session_bridge serve session_id inp out s m =
     (case allocate_slot session_id m of
        (Inl e, m) \<Rightarrow> (m, s, out)
      | (Inr h, m) \<Rightarrow> (case bridge_loop (serve h) s [] inp out of (s, out) \<Rightarrow> (m, s, out)))"

section \<open>Lemmas on the file task\<close>

lemma Ensure_Entry_frame:
  "Ensure_Entry k st = (l, st') \<Longrightarrow> guards st' = guards st \<and> disk st' = disk st \<and> waiting st' = waiting st \<and>
     base_dir st' = base_dir st"
  by (auto simp: Ensure_Entry_def insert_entry_def split: option.splits)

lemma Acquire_Write_steps:
  assumes "Acquire_Write name st = Inr (path, g, granted)"
  shows "Resolve_Path name st = Inr path" "gd_file g = name"
    and "granted = Some st1 \<Longrightarrow> guards st1 = g # guards st \<and> disk st1 = disk st \<and> waiting st1 = waiting st \<and>
           base_dir st1 = base_dir st"
proof -
  obtain l st0 where en: "Ensure_Entry name st = (l, st0)" by fastforce
  note fr = Ensure_Entry_frame [OF en]
  have p: "Resolve_Path name st = Inr path" and g: "g = \<lparr>gd_file = name, gd_lock = l, gd_write = True\<rparr>"
    and gr: "granted = grant g (st0\<lparr>waiting := g # waiting st0\<rparr>)"
    using assms by (auto simp: Acquire_Write_def begin_write_def en rbind_eq_Inr Let_def)
  show "Resolve_Path name st = Inr path" "gd_file g = name" by (simp_all add: p g)
  show "granted = Some st1 \<Longrightarrow> guards st1 = g # guards st \<and> disk st1 = disk st \<and> waiting st1 = waiting st \<and>
      base_dir st1 = base_dir st"
    using fr by (auto simp: gr grant_def split: if_splits)
qed

lemma Acquire_Write_free:
  assumes inv: "storage_inv True st" and path: "Resolve_Path name st = Inr path"
    and free: "\<forall>h \<in> set (guards st). gd_file h \<noteq> name"
  shows "\<exists>g st1 e. Acquire_Write name st = Inr (path, g, Some st1) \<and> gd_write g \<and> gd_file g = name \<and>
           map_of (files st1) name = Some e"
proof -
  obtain l st0 where en: "Ensure_Entry name st = (l, st0)" by fastforce
  from lookup_lock_grows(2) [OF en] obtain e where gr: "grows st st0"
    and e: "map_of (files st0) name = Some e" "fe_lock e = l" by blast
  have st0: "guards st0 = guards st" "storage_inv True st0" using gr grows_inv [OF inv gr] by (auto simp: grows_def)
  have "gd_lock h \<noteq> l" if "h \<in> set (guards st)" for h
  proof -
    obtain eh where "map_of (files st0) (gd_file h) = Some eh" "fe_lock eh = gd_lock h"
      using guard_entry [OF st0(2), of h] \<open>h \<in> set (guards st)\<close> st0(1) by auto
    then show ?thesis
      using lock_determines_file [of st0 "gd_file h" eh name e] st0(2) e \<open>h \<in> set (guards st)\<close> free by (auto simp: storage_inv_def)
  qed
  then have "Acquire_Write name st = Inr (path, \<lparr>gd_file = name, gd_lock = l, gd_write = True\<rparr>,
      Some (st0\<lparr>guards := \<lparr>gd_file = name, gd_lock = l, gd_write = True\<rparr> # guards st0\<rparr>))"
    by (simp add: Acquire_Write_def begin_write_def en path grant_def lock_free_def st0(1) Let_def)
  then show ?thesis using e(1) by simp
qed

lemma drop_guard_frame:
  "guards (drop_guard b g st) = remove1 g (guards st)" "disk (drop_guard b g st) = disk st"
  "base_dir (drop_guard b g st) = base_dir st"
  by (auto simp: drop_guard_def set_size_def Let_def split: option.split)

lemma put_file_frame [simp]:
  "guards (put_file k c st) = guards st" "base_dir (put_file k c st) = base_dir st"
  "disk (put_file k c st) = AList.update k c (disk st)" "files (put_file k c st) = files st"
  by (simp_all add: put_file_def)

text \<open>When the write guard goes, the index learns the size of the file.\<close>

lemma drop_guard_size:
  assumes "gd_write g" "gd_file g = k" "map_of (files st) k = Some e" "map_of (disk st) k = Some c"
  shows "map_option fe_size (map_of (files (drop_guard True g st)) k) = Some (of_nat (length c))"
  using assms by (simp add: drop_guard_def is_file_def set_size_def disk_len_def Let_def store_simps)

lemma receive_total:
  "\<exists>r. Receive_File_Data sched nm file_size stream (Inr dest) = Inr r"
  by (rule Receive_File_Data_total)

text \<open>What arrives when nothing breaks on the disk: as many announced bytes as the stream has.\<close>

lemma cap_receive_prefix:
  assumes "cap_receive_file_data txt sched nm file_size stream (Inr fresh_out) = (r, written)"
  shows "written = take (unat file_size) stream \<and> (is_ok r \<longleftrightarrow> unat file_size \<le> length stream)"
proof -
  obtain q where q: "Receive_File_Data sched nm file_size stream (Inr fresh_out) = Inr q"
    using Receive_File_Data_total by blast
  obtain got new where "received_by file_size file_size stream fresh_out [] q got new"
    using Receive_File_Data_ok [OF q] unfolding received_ok_def by blast
  note g = this [unfolded received_by_def]
  have c: "rr_result q = Inr () \<or> rr_result q = Inl Unexpected_Eof" using g by (auto simp: fresh_out_def)
  then have "got = take (unat file_size) stream" using g by (auto simp: prefix_def)
  moreover have "is_ok (rr_result q) \<longleftrightarrow> unat file_size \<le> length stream"
    using c g prefix_length_le [of got stream] by (auto simp: is_ok_def)
  moreover have "written = sent (rr_file q)" "is_ok r \<longleftrightarrow> is_ok (rr_result q)"
    using assms by (auto simp: cap_receive_file_data_def q is_ok_def map_err_def split: sum.splits)
  ultimately show ?thesis using g by (simp add: fresh_out_def)
qed

lemma Header_reads:
  "header_ok (name, sz, cs) \<Longrightarrow> Read_File_Stream_Header (header_bytes (name, sz, cs) @ s) = Inr ((name, sz, cs), s)"
  by (rule Read_Header_bytes)

lemma cap_send_file_bytes:
  "cap_send_file txt sched path (Inr contents) (Inr fresh_out) =
     Inr \<lparr>sent = header_bytes (path_file_name path, of_nat (length contents), []) @ contents, room = None\<rparr>"
  by (simp add: cap_send_file_def open_file_stream_def Write_Header_eq cap_send_file_data_def Send_File_Data_result
      write_all_def fresh_out_def Let_def)

text \<open>The task when the guard is free: the disk holds what arrived, the index its size.\<close>

lemma file_task_effect:
  assumes inv: "storage_inv True st" and path: "Resolve_Path name st = Inr p"
    and free: "\<forall>h \<in> set (guards st). gd_file h \<noteq> name" and hdr: "header_ok (name, sz, cs)"
    and ft: "ft_target ft = Inr fresh_out" "ft_index_free ft"
  shows "\<exists>st'. run_file_receive ft peer (header_bytes (name, sz, cs) @ body) st =
       Some (st', if unat sz \<le> length body
                  then [Bv_Notify Lv_Info (tx_file_received @ name @ '' ('' @ show_u64 sz @ '' bytes) from '' @ peer)] else []) \<and>
     map_of (disk st') = (map_of (disk st))(name \<mapsto> take (unat sz) body) \<and> guards st' = guards st \<and>
     map_option fe_size (map_of (files st') name) = Some (of_nat (min (unat sz) (length body)))"
proof -
  obtain g st1 e where acq: "Acquire_Write name st = Inr (p, g, Some st1)" "gd_write g" "gd_file g = name"
    "map_of (files st1) name = Some e" using Acquire_Write_free [OF inv path free] by blast
  note fr = Acquire_Write_steps(3) [OF acq(1) refl]
  obtain r w where rw: "cap_receive_file_data (ft_io_text ft) (ft_sched ft) (Some name) sz body (Inr fresh_out) = (r, w)"
    by fastforce
  note w = cap_receive_prefix [OF rw]
  let ?st = "drop_guard True g (put_file name w st1)"
  have "map_option fe_size (map_of (files ?st) name) = Some (of_nat (length w))"
    using acq by (intro drop_guard_size) (simp_all add: store_simps)
  then have size: "map_option fe_size (map_of (files ?st) name) = Some (of_nat (min (unat sz) (length body)))"
    using w by (simp add: min.commute)
  have d: "map_of (disk ?st) = (map_of (disk st))(name \<mapsto> take (unat sz) body)" and gs: "guards ?st = guards st"
    using fr w by (auto simp: drop_guard_frame store_simps fun_eq_iff)
  have "run_file_receive ft peer (header_bytes (name, sz, cs) @ body) st = Some (?st, case r of
      Inl e \<Rightarrow> [] | Inr _ \<Rightarrow> [Bv_Notify Lv_Info (tx_file_received @ name @ '' ('' @ show_u64 sz @ '' bytes) from '' @ peer)])"
    by (simp add: run_file_receive_def Header_reads [OF hdr] acq(1) ft rw)
  then show ?thesis using size d gs w by (intro exI [of _ ?st]) (auto simp: is_ok_def split: sum.splits)
qed

text \<open>Whatever a peer sends, the task touches at most the file its header names, and only a name that
  the storage resolves.\<close>

lemma file_task_frame:
  assumes "run_file_receive ft peer inp st = Some (st', evs)"
  shows "guards st' = guards st \<and> base_dir st' = base_dir st \<and>
    (disk st' = disk st \<or>
     (\<exists>name p w. Resolve_Path name st = Inr p \<and> disk st' = AList.update name w (disk st)))"
proof (cases "Read_File_Stream_Header inp")
  case (Inr h)
  obtain name sz cs rest where h: "h = ((name, sz, cs), rest)" by (metis prod.collapse)
  show ?thesis
  proof (cases "Acquire_Write name st")
    case (Inr q)
    then obtain p g granted where q: "Acquire_Write name st = Inr (p, g, granted)" by (metis prod.collapse)
    then obtain st1 where st1: "granted = Some st1"
      using assms \<open>Read_File_Stream_Header inp = Inr h\<close> by (cases granted) (auto simp: run_file_receive_def h)
    note fr = Acquire_Write_steps [OF q]
    obtain r w where rw: "cap_receive_file_data (ft_io_text ft) (ft_sched ft) (Some name) sz rest (ft_target ft) = (r, w)"
      by fastforce
    have "st' = drop_guard (ft_index_free ft) g (case ft_target ft of Inr _ \<Rightarrow> put_file name w st1 | Inl _ \<Rightarrow> st1)"
      using assms by (simp add: run_file_receive_def \<open>Read_File_Stream_Header inp = Inr h\<close> h q st1 rw)
    then show ?thesis using fr(1) fr(3) [OF st1] by (auto simp: drop_guard_frame split: sum.splits)
  qed (use assms \<open>Read_File_Stream_Header inp = Inr h\<close> in \<open>auto simp: run_file_receive_def h\<close>)
qed (use assms in \<open>auto simp: run_file_receive_def\<close>)

section \<open>Properties of the tasks\<close>

text \<open>C9: A file sent to a node is stored there: what \<open>send_file\<close> puts on the stream makes the receiving
  task write exactly the sender's bytes under the sender's file name, whatever the reads return,
  give the write guard back, leave every other file alone, record the size in the index and announce
  the file; all this as long as the name is one the storage accepts and nobody holds the file.\<close>

theorem sent_file_is_stored:
  assumes "storage_inv True st" "Resolve_Path (path_file_name path) st = Inr p"
    and "\<forall>h \<in> set (guards st). gd_file h \<noteq> path_file_name path"
    and "header_ok (path_file_name path, of_nat (length contents), [])" "length contents < 18446744073709551616"
    and "ft_target ft = Inr fresh_out" "ft_index_free ft"
  shows "\<exists>out st'. cap_send_file txt sched path (Inr contents) (Inr fresh_out) = Inr out \<and>
     run_file_receive ft peer (sent out) st =
       Some (st', [Bv_Notify Lv_Info (tx_file_received @ path_file_name path @ '' ('' @ show_u64 (of_nat (length contents))
                     @ '' bytes) from '' @ peer)]) \<and>
     map_of (disk st') = (map_of (disk st))(path_file_name path \<mapsto> contents) \<and> guards st' = guards st \<and>
     map_option fe_size (map_of (files st') (path_file_name path)) = Some (of_nat (length contents))"
  using file_task_effect [OF assms(1-4,6,7), of peer contents] unat_len_u64 [OF assms(5)]
  by (simp add: cap_send_file_bytes)

definition demo_task :: file_task where
  "demo_task = \<lparr>ft_io_text = (\<lambda>_. []), ft_sched = (\<lambda>_. 2), ft_target = Inr fresh_out, ft_index_free = True\<rparr>"

theorem sent_file_is_stored_witness:
  "\<exists>out st'. cap_send_file (\<lambda>_. []) (\<lambda>_. 3) ''d/m.bin'' (Inr [1, 2, 3]) (Inr fresh_out) = Inr out \<and>
     run_file_receive demo_task ''A'' (sent out) (Storage_New ''w'' [] []) =
       Some (st', [Bv_Notify Lv_Info (tx_file_received @ ''m.bin'' @ '' ('' @ show_u64 (of_nat 3) @ '' bytes) from '' @ ''A'')]) \<and>
     map_of (disk st') = (map_of (disk (Storage_New ''w'' [] [])))(''m.bin'' \<mapsto> [1, 2, 3])"
proof -
  have n: "path_file_name ''d/m.bin'' = ''m.bin''" by (simp add: path_file_name_def)
  have "\<not> sublist ''..'' ''m.bin''" by (simp add: sublist_Cons_right)
  then have "Resolve_Path ''m.bin'' (Storage_New ''w'' [] []) = Inr ''w/m.bin''"
    by (simp add: Resolve_Path_def Storage_New_def)
  moreover have "storage_inv True (Storage_New ''w'' [] [])" by (rule storage_inv_New) simp
  moreover have "guards (Storage_New ''w'' [] []) = []" by (simp add: Storage_New_def)
  moreover have "header_ok (''m.bin'', of_nat (length [1, 2, 3 :: u8]), [])" by (simp add: header_ok_def is_str_alt)
  ultimately show ?thesis
    using sent_file_is_stored [of "Storage_New ''w'' [] []" "''d/m.bin''" "''w/m.bin''" "[1, 2, 3]" demo_task
        "\<lambda>_. []" "\<lambda>_. 3" "''A''"]
    unfolding n by (simp add: demo_task_def) blast
qed

text \<open>C25: A peer cannot reach outside the storage directory: whatever bytes it sends as a file, the only
  disk entry that can change is a single one, whose name is not empty or hidden and has no slash,
  backslash or double dot; the guards are as before and nothing but a notice is published.\<close>

theorem peer_file_confined:
  assumes "run_file_receive ft peer inp st = Some (st', evs)" "map_of (disk st') k \<noteq> map_of (disk st) k"
  shows "k \<noteq> [] \<and> CHR ''/'' \<notin> set k \<and> CHR 0x5C \<notin> set k \<and> \<not> sublist ''..'' k \<and> \<not> prefix ''.'' k \<and>
     guards st' = guards st \<and> (\<forall>j. j \<noteq> k \<longrightarrow> map_of (disk st') j = map_of (disk st) j)"
proof -
  obtain name p w where n: "Resolve_Path name st = Inr p" "disk st' = AList.update name w (disk st)"
    using file_task_frame [OF assms(1)] assms(2) by auto
  then have "k = name" using assms(2) by (auto simp: store_simps split: if_splits)
  with n show ?thesis
    using file_task_frame [OF assms(1)] by (auto simp: Resolve_Path_def store_simps split: if_splits)
qed

theorem peer_file_confined_witness:
  "\<exists>st' evs. run_file_receive demo_task ''A'' (header_bytes (''a'', 1, []) @ [7]) (Storage_New ''w'' [] []) = Some (st', evs) \<and>
     map_of (disk st') ''a'' = Some [7] \<and> CHR ''/'' \<notin> set ''a'' \<and> guards st' = guards (Storage_New ''w'' [] [])"
proof -
  have st: "guards (Storage_New ''w'' [] []) = []" "disk (Storage_New ''w'' [] []) = []" by (simp_all add: Storage_New_def)
  have "\<exists>st'. run_file_receive demo_task ''A'' (header_bytes (''a'', 1, []) @ [7]) (Storage_New ''w'' [] []) =
       Some (st', if unat (1 :: u64) \<le> length [7 :: u8]
          then [Bv_Notify Lv_Info (tx_file_received @ ''a'' @ '' ('' @ show_u64 1 @ '' bytes) from '' @ ''A'')] else []) \<and>
     map_of (disk st') = (map_of (disk (Storage_New ''w'' [] [])))(''a'' \<mapsto> take (unat (1 :: u64)) [7]) \<and>
     guards st' = guards (Storage_New ''w'' [] []) \<and>
     map_option fe_size (map_of (files st') ''a'') = Some (of_nat (min (unat (1 :: u64)) (length [7 :: u8])))"
    by (rule file_task_effect [OF storage_inv_New])
      (simp_all add: Resolve_Path_def Storage_New_def header_ok_def is_str_alt demo_task_def, (rule refl)?)
  then obtain st' evs where r: "run_file_receive demo_task ''A'' (header_bytes (''a'', 1, []) @ [7]) (Storage_New ''w'' [] []) = Some (st', evs)"
    and d: "map_of (disk st') ''a'' = Some [7]" by auto
  from peer_file_confined [OF r, of "''a''"] d show ?thesis using r by (auto simp: st)
qed

text \<open>A transfer that breaks off is not announced, but it is not undone either: the file stays on the
  disk with the bytes that arrived, and the index records it with that size.\<close>

theorem broken_transfer_stays:
  assumes "storage_inv True st" "Resolve_Path name st = Inr p" "\<forall>h \<in> set (guards st). gd_file h \<noteq> name"
    and "header_ok (name, sz, cs)" "ft_target ft = Inr fresh_out" "ft_index_free ft" "length body < unat sz"
  shows "\<exists>st'. run_file_receive ft peer (header_bytes (name, sz, cs) @ body) st = Some (st', []) \<and>
     map_of (disk st') = (map_of (disk st))(name \<mapsto> body) \<and>
     map_option fe_size (map_of (files st') name) = Some (of_nat (length body))"
  using file_task_effect [OF assms(1-6), of peer body] assms(7) by (auto simp: min_def)

lemma local_peer_entry:
  assumes "peers_inv me peers"
  obtains local where "Get_Local_Peer peers = Inr local" "pi_peer_id local = me" "map_of peers me = Some local"
  using peers_inv_me [OF assms] peers_inv_lookup [OF assms] get_local_peer_inv [OF assms]
  by (auto simp: Get_Local_Peer_def ok_or_def)

lemma update_local_sessions:
  assumes "peers_inv me peers" "map_of peers me = Some local"
  shows "\<exists>peers1. update_sessions now me ss peers = Inr peers1 \<and>
     Get_Local_Peer peers1 = Inr (pi_update_sessions now ss local)"
proof -
  let ?p = "AList.update me (pi_update_sessions now ss local) peers"
  have "peers_inv me ?p"
    using peers_inv_lookup [OF assms] by (intro peers_inv_update [OF assms(1)]) simp_all
  then have "Get_Local_Peer ?p = Inr (pi_update_sessions now ss local)"
    by (simp add: Get_Local_Peer_def get_local_peer_inv store_simps ok_or_def)
  then show ?thesis by (simp add: update_sessions_def modify_peer_def assms(2))
qed

lemma created_session_listed:
  "create_session model m = (sid, m') \<Longrightarrow>
     \<exists>s \<in> set (list_sessions m'). si_session_id s = counter m \<and> si_model_id s = model"
proof -
  let ?s = "Session_new (counter m) model (mgr_max_slots m) 1"
  assume "create_session model m = (sid, m')"
  then have "map_of (sessions m') (counter m) = Some ?s"
    by (auto simp: create_session_def Let_def publish_session_event_def store_simps)
  then have "session_info ?s \<in> set (list_sessions m')"
    by (force simp: list_sessions_def dest: map_of_SomeD)
  then show ?thesis by (rule rev_bexI) (simp add: session_info_def Session_new_def)
qed

text \<open>C29: Creating a session makes it known: the manager lists it, the node's own directory entry lists all
  sessions of the manager, and this entry is what every other known peer is sent.\<close>

theorem new_session_advertised:
  assumes "peers_inv me peers" "run_session jc now model m peers = (m', peers', reqs, evs)"
  shows "m' = snd (create_session model m) \<and>
     (\<exists>local. Get_Local_Peer peers' = Inr local \<and> pi_peer_id local = me \<and>
        pi_sessions local = map session_summary (list_sessions m') \<and>
        reqs = map (\<lambda>p. (pi_peer_id p, DT_Info, as_bytes (build_local_info_payload jc local)))
                 (filter (\<lambda>p. pi_peer_id p \<noteq> me) (get_all_peers peers'))) \<and>
     (\<exists>s \<in> set (list_sessions m'). si_session_id s = counter m \<and> si_model_id s = model)"
proof -
  obtain sid m1 where cs: "create_session model m = (sid, m1)" by fastforce
  obtain local where l: "Get_Local_Peer peers = Inr local" "pi_peer_id local = me" "map_of peers me = Some local"
    using assms(1) by (rule local_peer_entry)
  let ?ss = "map session_summary (list_sessions m1)"
  obtain peers1 where u: "update_sessions now me ?ss peers = Inr peers1"
    and l1: "Get_Local_Peer peers1 = Inr (pi_update_sessions now ?ss local)"
    using update_local_sessions [OF assms(1) l(3)] by blast
  have m: "m' = m1" "peers' = peers1" "reqs = fst (broadcast_local_info jc peers1)"
    using assms(2) by (auto simp: run_session_def cs l(1,2) u keep_on_error_def Let_def split: prod.splits)
  let ?l = "pi_update_sessions now ?ss local"
  have "reqs = map (\<lambda>p. (pi_peer_id p, DT_Info, as_bytes (build_local_info_payload jc ?l)))
                 (filter (\<lambda>p. pi_peer_id p \<noteq> me) (get_all_peers peers1))"
    using l1 l(2) by (simp add: m(3) broadcast_local_info_def Let_def)
  moreover have "pi_sessions ?l = ?ss" "pi_peer_id ?l = me" by (simp_all add: pi_update_sessions_def l(2))
  ultimately show ?thesis
    using l1 cs created_session_listed [OF cs] unfolding m by (intro conjI exI [of _ ?l]) simp_all
qed

theorem new_session_advertised_witness:
  "\<exists>m' peers' reqs evs local. run_session \<lparr>models_to_json = (\<lambda>_. None), models_from_json = (\<lambda>_. None),
       sessions_to_json = (\<lambda>_. None), sessions_from_json = (\<lambda>_. None)\<rparr> 5 ''m'' (SessionManager_new 4) (pm_new 0 ''A'' ''n'')
     = (m', peers', reqs, evs) \<and> Get_Local_Peer peers' = Inr local \<and>
     pi_sessions local = map session_summary (list_sessions m')"
proof -
  obtain m' peers' reqs evs where r: "run_session \<lparr>models_to_json = (\<lambda>_. None), models_from_json = (\<lambda>_. None),
       sessions_to_json = (\<lambda>_. None), sessions_from_json = (\<lambda>_. None)\<rparr> 5 ''m'' (SessionManager_new 4) (pm_new 0 ''A'' ''n'')
     = (m', peers', reqs, evs)" by (metis prod.collapse)
  from new_session_advertised [OF peers_inv_new r] r show ?thesis by blast
qed

section \<open>Bridged conversations\<close>

lemma forward_turn:
  assumes "SENTINEL \<notin> set ts" "room out = None"
  shows "forward_tokens chan_closed (ts @ SENTINEL # queue) out
    = (True, queue, out\<lparr>sent := sent out @ concat (map session_frame_bytes (ts @ [[]]))\<rparr>)"
  using assms
proof (induction ts arbitrary: out)
  case Nil
  then show ?case by (simp add: session_frame.put_enc write_all_def)
next
  case (Cons t ts)
  then show ?case by (auto simp: session_frame.put_enc write_all_def)
qed

text \<open>The answers to the prompts when the session answers \<open>ans p s\<close> to prompt \<open>p\<close> in state \<open>s\<close>.\<close>

fun answers_to :: "(string \<Rightarrow> 's \<Rightarrow> string list) \<Rightarrow> (string \<Rightarrow> 's \<Rightarrow> 's) \<Rightarrow> string list \<Rightarrow> 's \<Rightarrow> string list list" where
  "answers_to ans nxt [] s = []"
| "answers_to ans nxt (p # ps) s = ans p s # answers_to ans nxt ps (nxt p s)"

definition turn_frames :: "string list list \<Rightarrow> string list" where
  "turn_frames turns = concat (map (\<lambda>ts. ts @ [[]]) turns)"

text \<open>How the other end reads answers off the stream: an empty frame ends an answer.\<close>

fun client_turns :: "string list \<Rightarrow> string list \<Rightarrow> string list list" where
  "client_turns acc [] = []"
| "client_turns acc (t # ts) = (if t = [] then acc # client_turns [] ts else client_turns (acc @ [t]) ts)"

lemma client_turns_append:
  "[] \<notin> set ts \<Longrightarrow> client_turns acc (ts @ [] # fs) = (acc @ ts) # client_turns [] fs"
  by (induction ts arbitrary: acc) auto

lemma length_client_turns: "length (client_turns acc fs) = count_list fs []"
  by (induction acc fs rule: client_turns.induct) auto

lemma client_turns_exact: "client_turns [] (turn_frames turns) = turns \<longleftrightarrow> (\<forall>ts \<in> set turns. [] \<notin> set ts)"
proof
  assume "client_turns [] (turn_frames turns) = turns"
  then have "count_list (turn_frames turns) [] = length turns" by (metis length_client_turns)
  moreover have "count_list (turn_frames turns) [] = length turns + sum_list (map (\<lambda>ts. count_list ts []) turns)"
    by (induction turns) (simp_all add: turn_frames_def)
  ultimately have "sum_list (map (\<lambda>ts. count_list ts []) turns) = 0" by simp
  then show "\<forall>ts \<in> set turns. [] \<notin> set ts" by (auto simp: count_list_0_iff)
next
  show "\<forall>ts \<in> set turns. [] \<notin> set ts \<Longrightarrow> client_turns [] (turn_frames turns) = turns"
    by (induction turns) (simp_all add: turn_frames_def client_turns_append)
qed

lemma bridge_run:
  assumes "list_all session_text_ok prompts" "room out = None"
    and "\<And>p s. serve p 256 s = Some (ans p s @ [SENTINEL], False, nxt p s)" "\<And>p s. SENTINEL \<notin> set (ans p s)"
  shows "bridge_loop serve s [] (concat (map session_frame_bytes prompts)) out
    = (fold nxt prompts s,
       out\<lparr>sent := sent out @ concat (map session_frame_bytes (turn_frames (answers_to ans nxt prompts s)))\<rparr>)"
  using assms(1,2)
proof (induction prompts arbitrary: s out)
  case Nil
  have "read_session_frame [] = Inl Unexpected_Eof" by (simp add: read_session_frame_def)
  then show ?case by (subst bridge_loop.simps) (simp add: turn_frames_def)
next
  case (Cons p ps)
  let ?rest = "concat (map session_frame_bytes ps)"
  have "read_session_frame (session_frame_bytes p @ ?rest) = Inr (p, ?rest)"
    using Cons.prems by (intro read_session_frame_bytes) simp
  then have "bridge_loop serve s [] (concat (map session_frame_bytes (p # ps))) out
      = bridge_loop serve (nxt p s) [] ?rest (out\<lparr>sent := sent out @ concat (map session_frame_bytes (ans p s @ [[]]))\<rparr>)"
    using forward_turn [of "ans p s" out False "[]"] assms(4) [of p s] Cons.prems(2)
    by (subst bridge_loop.simps) (simp add: assms(3))
  also have "\<dots> = (fold nxt ps (nxt p s), out\<lparr>sent := (sent out @ concat (map session_frame_bytes (ans p s @ [[]]))) @
      concat (map session_frame_bytes (turn_frames (answers_to ans nxt ps (nxt p s))))\<rparr>)"
    using Cons.prems by (subst Cons.IH) simp_all
  finally show ?case by (simp add: turn_frames_def)
qed

text \<open>C16: A bridged session: when the session ends each answer with its terminator, the peer that sends
  prompts over the stream receives exactly the texts of the answers, each answer closed by an empty
  frame. It can tell the answers apart by these frames exactly when no answer has an empty text in
  it: a token that decodes to nothing ends the turn early and shifts all later answers.\<close>

theorem bridged_conversation:
  assumes "list_all session_text_ok prompts"
    and "\<forall>p s. serve p 256 s = Some (ans p s @ [SENTINEL], False, nxt p s)"
    and "\<forall>p s. SENTINEL \<notin> set (ans p s) \<and> list_all session_text_ok (ans p s)"
  shows "\<exists>s' out. bridge_loop serve s [] (concat (map session_frame_bytes prompts)) fresh_out = (s', out) \<and>
     (let turns = answers_to ans nxt prompts s; frames = turn_frames turns in
        recv_all read_session_frame (length frames) (sent out) = (frames, Inr []) \<and>
        (client_turns [] frames = turns \<longleftrightarrow> (\<forall>ts \<in> set turns. [] \<notin> set ts)))"
proof -
  let ?turns = "answers_to ans nxt prompts s"
  have r: "bridge_loop serve s [] (concat (map session_frame_bytes prompts)) fresh_out
    = (fold nxt prompts s, fresh_out\<lparr>sent := [] @ concat (map session_frame_bytes (turn_frames ?turns))\<rparr>)"
    using bridge_run [of prompts fresh_out serve ans nxt s] assms by (simp add: fresh_out_def)
  have "\<forall>ts \<in> set ?turns. list_all session_text_ok ts"
    using assms(3) by (induction prompts arbitrary: s) auto
  then have "list_all session_text_ok (turn_frames ?turns)"
    by (auto simp: turn_frames_def list_all_iff session_text_ok_def is_str_alt)
  then have "recv_all read_session_frame (length (turn_frames ?turns)) (concat (map session_frame_bytes (turn_frames ?turns)))
      = (turn_frames ?turns, Inr [])"
    using session_frame.recv_conversation [of "turn_frames ?turns" "[]"] by simp
  then show ?thesis unfolding r by (auto simp: Let_def client_turns_exact)
qed

theorem bridged_conversation_witness:
  "\<exists>s' out. bridge_loop (\<lambda>p n s. Some ([''a'', ''''] @ [SENTINEL], False, s + 1)) (0 :: nat) []
       (concat (map session_frame_bytes [''x'', ''y''])) fresh_out = (s', out) \<and>
     client_turns [] (turn_frames (answers_to (\<lambda>p s. [''a'', '''']) (\<lambda>p s. s + 1) [''x'', ''y''] (0 :: nat)))
       \<noteq> answers_to (\<lambda>p s. [''a'', '''']) (\<lambda>p s. s + 1) [''x'', ''y''] (0 :: nat)"
proof -
  have "list_all session_text_ok [''x'', ''y'']" by (simp add: session_text_ok_def is_str_alt)
  moreover have "SENTINEL \<notin> set [''a'', ''''] \<and> list_all session_text_ok [''a'', '''']"
    by (simp add: SENTINEL_def session_text_ok_def is_str_alt)
  ultimately show ?thesis
    using bridged_conversation [of "[''x'', ''y'']" "\<lambda>p n s. Some ([''a'', ''''] @ [SENTINEL], False, s + 1)"
        "\<lambda>p s. [''a'', '''']" "\<lambda>p s. s + 1" "0 :: nat"]
    by (simp add: Let_def) blast
qed

section \<open>Program runs\<close>

lemma register_all_None: "register_all lr caps = None \<longleftrightarrow> (\<forall>cap \<in> set caps. lr_register lr cap = None)"
  by (induction lr caps rule: register_all.induct) (auto split: option.split)

lemma register_all_congr: "lr_register lr = lr_register lr' \<Longrightarrow> register_all lr caps = register_all lr' caps"
  by (induction caps) (auto split: option.split)

lemma all_capabilities: "cap \<in> set capability_order"
  by (cases cap) (simp_all add: capability_order_def)

lemma failing_text: "register_all lr caps = Some t \<Longrightarrow> t \<noteq> tx_executed"
proof (induction lr caps rule: register_all.induct)
  case (2 lr cap caps)
  have "failure_text cap @ e \<noteq> tx_executed" for e
    by (cases cap) (simp_all add: failure_text_def tx_executed_def tx_reg_base_def tx_reg_log_def tx_reg_net_def
      tx_reg_storage_def tx_reg_ml_def tx_reg_local_def utf8_def)
  then show ?case using 2 by (auto split: option.splits)
qed simp

text \<open>A program run reports exactly once, with a completed output unless not even its runtime could be
  made; and its text is never run with a part of the capabilities missing: when any set fails to
  register, what the program would have done makes no difference.\<close>

theorem program_run_reports:
  assumes "lr_register lr cap \<noteq> None"
  shows "spawn_lua_script (lr\<lparr>lr_eval := f, lr_execute := b, lr_call := g\<rparr>) path ps label = spawn_lua_script lr path ps label \<and>
    (\<exists>ev. spawn_lua_script lr path ps label = [ev] \<and> final_event ev) \<and>
    spawn_lua_script lr path ps label \<noteq> [Bv_Output (cmd_output (bracketed label @ tx_executed) True)]"
proof -
  obtain t where t: "register_all lr capability_order = Some t" and nt: "t \<noteq> tx_executed"
    using assms all_capabilities [of cap] failing_text [of lr capability_order]
    by (cases "register_all lr capability_order") (auto simp: register_all_None)
  have same: "register_all (lr\<lparr>lr_eval := f, lr_execute := b, lr_call := g\<rparr>) capability_order = register_all lr capability_order"
    by (rule register_all_congr) simp
  have "script_body (lr\<lparr>lr_eval := f, lr_execute := b, lr_call := g\<rparr>) path ps = script_body lr path ps"
    unfolding script_body_def same t by (simp add: fail_with_def)
  moreover have "\<exists>e. script_body lr path ps = Inl e \<and> e \<noteq> tx_executed"
    using nt unfolding script_body_def t
    by (cases "lr_read lr path"; cases "lr_context lr")
      (simp_all add: fail_with_def tx_read_failed_def tx_lua_failed_def tx_executed_def utf8_def)
  ultimately show ?thesis
    by (auto simp: spawn_lua_script_def final_event_def cmd_output_def split: option.split)
qed

definition demo_run :: lua_run where
  "demo_run = \<lparr>lr_runtime = None, lr_read = (\<lambda>p. Inr p), lr_context = None,
     lr_register = (\<lambda>cap. if cap = Cap_Ml then Some ''no device'' else None), lr_eval = (\<lambda>_. None), lr_table = None,
     lr_set = (\<lambda>_ _. None), lr_execute = True, lr_call = (\<lambda>_ _. None)\<rparr>"

theorem program_run_reports_witness:
  "spawn_lua_script (demo_run\<lparr>lr_eval := (\<lambda>_. Some ''x''), lr_execute := False, lr_call := (\<lambda>_ _. None)\<rparr>) ''p'' [] ''run''
     = spawn_lua_script demo_run ''p'' [] ''run'' \<and>
   spawn_lua_script demo_run ''p'' [] ''run'' \<noteq> [Bv_Output (cmd_output (bracketed ''run'' @ tx_executed) True)]"
proof -
  have "lr_register demo_run Cap_Ml \<noteq> None" by (simp add: demo_run_def)
  from program_run_reports [OF this] show ?thesis by blast
qed

end
