(* ===== verification/Tensor_Bytes.thy ===== *)
theory Tensor_Bytes
  imports Wire
begin

text \<open>
  Tensors as bytes: the packet format of \<open>Src/ML_Engine/gguf_tensor.rs\<close>, the format tensors have
  between scripts, sessions and peers (\<open>Src/ML_Engine/lua_tensor.rs\<close>), and the names of the devices
  they live on (\<open>Src/ML_Engine/device.rs\<close>). \<open>usize\<close> is 64 bits wide and its arithmetic wraps, as in
  a release build; a panic is an error value of its own.
\<close>

definition usize_max :: nat where "usize_max = 18446744073709551616"

section \<open>Tensor packets\<close>

datatype GGUF_Dtype =
    Gd_F32 | Gd_F16 | Gd_BF16 | Gd_Q8_0 | Gd_Q4_0 | Gd_Q4_1 | Gd_Q5_0 | Gd_Q5_1
  | Gd_Q2_K | Gd_Q3_K | Gd_Q4_K | Gd_Q5_K | Gd_Q6_K

definition As_Str :: "GGUF_Dtype \<Rightarrow> string" where
  "As_Str d =
     (case d of
        Gd_F32 \<Rightarrow> ''F32'' | Gd_F16 \<Rightarrow> ''F16'' | Gd_BF16 \<Rightarrow> ''BF16'' | Gd_Q8_0 \<Rightarrow> ''Q8_0''
      | Gd_Q4_0 \<Rightarrow> ''Q4_0'' | Gd_Q4_1 \<Rightarrow> ''Q4_1'' | Gd_Q5_0 \<Rightarrow> ''Q5_0'' | Gd_Q5_1 \<Rightarrow> ''Q5_1''
      | Gd_Q2_K \<Rightarrow> ''Q2_K'' | Gd_Q3_K \<Rightarrow> ''Q3_K'' | Gd_Q4_K \<Rightarrow> ''Q4_K'' | Gd_Q5_K \<Rightarrow> ''Q5_K''
      | Gd_Q6_K \<Rightarrow> ''Q6_K'')"

datatype GGUF_Tensor_Error =
    Insufficient_Data (needed: nat) (available: nat)
  | Invalid_Utf8
  | Unknown_Dtype string
  | Packet_Panic

definition From_Str :: "string \<Rightarrow> GGUF_Tensor_Error + GGUF_Dtype" where
  "From_Str s =
     (if s = ''F32'' then Inr Gd_F32 else if s = ''F16'' then Inr Gd_F16
      else if s = ''BF16'' then Inr Gd_BF16 else if s = ''Q8_0'' then Inr Gd_Q8_0
      else if s = ''Q4_0'' then Inr Gd_Q4_0 else if s = ''Q4_1'' then Inr Gd_Q4_1
      else if s = ''Q5_0'' then Inr Gd_Q5_0 else if s = ''Q5_1'' then Inr Gd_Q5_1
      else if s = ''Q2_K'' then Inr Gd_Q2_K else if s = ''Q3_K'' then Inr Gd_Q3_K
      else if s = ''Q4_K'' then Inr Gd_Q4_K else if s = ''Q5_K'' then Inr Gd_Q5_K
      else if s = ''Q6_K'' then Inr Gd_Q6_K else Inl (Unknown_Dtype s))"

record GGUF_Tensor_Packet =
  pk_name :: string
  pk_shape :: "u64 list"
  pk_dtype :: GGUF_Dtype
  pk_data :: bytes

text \<open>The lengths of the name, the shape and the type name are cut to 32 bits.\<close>

definition len_u32_be :: "'a list \<Rightarrow> bytes" where
  "len_u32_be xs = u32_to_be (of_nat (length xs))"

definition GGUF_Tensor_Serialize :: "GGUF_Tensor_Packet \<Rightarrow> bytes" where
  "GGUF_Tensor_Serialize p =
     (let name_bytes = as_bytes (pk_name p); dtype_bytes = as_bytes (As_Str (pk_dtype p)) in
      len_u32_be name_bytes @ name_bytes @
      len_u32_be (pk_shape p) @ concat (map u64_to_be (pk_shape p)) @
      len_u32_be dtype_bytes @ dtype_bytes @
      u64_to_be (of_nat (length (pk_data p))) @ pk_data p)"

text \<open>
  The closure \<open>read_bytes\<close>. A count that makes the sum wrap passes the test and makes the slice
  panic, since its end is before its start.
\<close>

definition read_bytes :: "bytes \<Rightarrow> nat \<Rightarrow> nat \<Rightarrow> GGUF_Tensor_Error + bytes \<times> nat" where
  "read_bytes bs offset cnt =
     (let stop = (offset + cnt) mod usize_max in
      if stop > length bs then Inl (Insufficient_Data stop (length bs))
      else if stop < offset then Inl Packet_Panic
      else Inr (take (stop - offset) (drop offset bs), stop))"

text \<open>The dimension loop. \<open>Vec::with_capacity(ndim)\<close> cannot overflow for 32 bits of \<open>ndim\<close>.\<close>

fun read_dims :: "bytes \<Rightarrow> nat \<Rightarrow> nat \<Rightarrow> GGUF_Tensor_Error + u64 list \<times> nat" where
  "read_dims bs offset 0 = Inr ([], offset)"
| "read_dims bs offset (Suc n) =
     rbind (read_bytes bs offset 8) (\<lambda>(dim_bytes, offset).
     rbind (read_dims bs offset n) (\<lambda>(dims, offset).
     Inr (u64_from_be dim_bytes # dims, offset)))"

definition GGUF_Tensor_Deserialize :: "bytes \<Rightarrow> GGUF_Tensor_Error + GGUF_Tensor_Packet" where
  "GGUF_Tensor_Deserialize bs =
     rbind (read_bytes bs 0 4) (\<lambda>(name_len, offset).
     rbind (read_bytes bs offset (unat (u32_from_be name_len))) (\<lambda>(name_bytes, offset).
     rbind (ok_or Invalid_Utf8 (from_utf8 name_bytes)) (\<lambda>pname.
     rbind (read_bytes bs offset 4) (\<lambda>(ndim, offset).
     rbind (read_dims bs offset (unat (u32_from_be ndim))) (\<lambda>(shape, offset).
     rbind (read_bytes bs offset 4) (\<lambda>(dtype_len, offset).
     rbind (read_bytes bs offset (unat (u32_from_be dtype_len))) (\<lambda>(dtype_bytes, offset).
     rbind (ok_or Invalid_Utf8 (from_utf8 dtype_bytes)) (\<lambda>dtype_str.
     rbind (From_Str dtype_str) (\<lambda>dtype.
     rbind (read_bytes bs offset 8) (\<lambda>(data_len, offset).
     rbind (read_bytes bs offset (unat (u64_from_be data_len))) (\<lambda>(data, offset).
     Inr \<lparr>pk_name = pname, pk_shape = shape, pk_dtype = dtype, pk_data = data\<rparr>)))))))))))"

lemma From_As_Str [simp]: "From_Str (As_Str d) = Inr d"
  by (cases d) (simp_all add: From_Str_def As_Str_def)

lemma is_str_As_Str [simp]: "is_str (As_Str d)"
  by (rule ascii_is_str) (cases d; simp add: As_Str_def ascii_def)

lemma length_As_Str: "length (as_bytes (As_Str d)) \<le> 4"
  by (cases d) (simp_all add: As_Str_def as_bytes_def)

text \<open>Reading the next field of a message whose first part is \<open>p\<close>.\<close>

lemma read_bytes_field:
  assumes "length (p @ f @ q) < usize_max" "length f = n"
  shows "read_bytes (p @ f @ q) (length p) n = Inr (f, length (p @ f))"
  using assms by (simp add: read_bytes_def Let_def)

lemma read_dims_field:
  "length (p @ concat (map u64_to_be ds) @ q) < usize_max \<Longrightarrow>
   read_dims (p @ concat (map u64_to_be ds) @ q) (length p) (length ds)
     = Inr (ds, length (p @ concat (map u64_to_be ds)))"
proof (induction ds arbitrary: p)
  case (Cons d ds)
  have "read_bytes (p @ u64_to_be d @ concat (map u64_to_be ds) @ q) (length p) 8 = Inr (u64_to_be d, length (p @ u64_to_be d))"
    using Cons.prems by (intro read_bytes_field) simp_all
  then show ?case using Cons.IH [of "p @ u64_to_be d"] Cons.prems by simp
qed simp

text \<open>Everything before the data length, and what reading it leaves to do.\<close>

definition packet_head :: "GGUF_Tensor_Packet \<Rightarrow> bytes" where
  "packet_head p =
     (let name_bytes = as_bytes (pk_name p); dtype_bytes = as_bytes (As_Str (pk_dtype p)) in
      len_u32_be name_bytes @ name_bytes @
      len_u32_be (pk_shape p) @ concat (map u64_to_be (pk_shape p)) @
      len_u32_be dtype_bytes @ dtype_bytes)"

definition head_ok :: "GGUF_Tensor_Packet \<Rightarrow> bool" where
  "head_ok p \<longleftrightarrow> is_str (pk_name p) \<and> length (pk_name p) < 4294967296 \<and> length (pk_shape p) < 4294967296"

lemma Serialize_head:
  "GGUF_Tensor_Serialize p = packet_head p @ u64_to_be (of_nat (length (pk_data p))) @ pk_data p"
  by (simp add: GGUF_Tensor_Serialize_def packet_head_def Let_def)

lemma len_u32_be [simp]: "length xs < 4294967296 \<Longrightarrow> unat (u32_from_be (len_u32_be xs)) = length xs"
  by (simp add: len_u32_be_def unat_of_nat)

lemma length_len_u32_be [simp]: "length (len_u32_be xs) = 4"
  by (simp add: len_u32_be_def)

lemma Deserialize_head:
  assumes "head_ok p" and len: "length (packet_head p @ r) < usize_max"
  shows "GGUF_Tensor_Deserialize (packet_head p @ r) =
     rbind (read_bytes (packet_head p @ r) (length (packet_head p)) 8) (\<lambda>(data_len, offset).
     rbind (read_bytes (packet_head p @ r) offset (unat (u64_from_be data_len))) (\<lambda>(data, offset).
     Inr \<lparr>pk_name = pk_name p, pk_shape = pk_shape p, pk_dtype = pk_dtype p, pk_data = data\<rparr>))"
proof -
  let ?n = "as_bytes (pk_name p)" and ?t = "as_bytes (As_Str (pk_dtype p))" and ?s = "concat (map u64_to_be (pk_shape p))"
  let ?b = "packet_head p @ r"
  have ok: "is_str (pk_name p)" "length ?n < 4294967296" "length (pk_shape p) < 4294967296"
    using assms(1) by (simp_all add: head_ok_def)
  have b: "?b = len_u32_be ?n @ ?n @ len_u32_be (pk_shape p) @ ?s @ len_u32_be ?t @ ?t @ r"
    by (simp add: packet_head_def Let_def)
  have field: "read_bytes ?b (length u) k = Inr (f, length (u @ f))" if "?b = u @ f @ v" "length f = k" for u f v k
    unfolding that(1) using len that by (intro read_bytes_field) simp_all
  have 1: "read_bytes ?b 0 4 = Inr (len_u32_be ?n, 4)" using field [of "[]"] b by simp
  have 2: "read_bytes ?b 4 (length ?n) = Inr (?n, length (len_u32_be ?n @ ?n))"
    using field [of "len_u32_be ?n"] b by simp
  have 3: "read_bytes ?b (length (len_u32_be ?n @ ?n)) 4
      = Inr (len_u32_be (pk_shape p), length ((len_u32_be ?n @ ?n) @ len_u32_be (pk_shape p)))"
    by (rule field) (simp_all add: b)
  let ?u = "(len_u32_be ?n @ ?n) @ len_u32_be (pk_shape p)"
  have 4: "read_dims ?b (length ?u) (length (pk_shape p)) = Inr (pk_shape p, length (?u @ ?s))"
    using read_dims_field [of ?u "pk_shape p" "len_u32_be ?t @ ?t @ r"] len by (simp add: b)
  have 5: "read_bytes ?b (length (?u @ ?s)) 4 = Inr (len_u32_be ?t, length ((?u @ ?s) @ len_u32_be ?t))"
    by (rule field) (simp_all add: b)
  let ?w = "(?u @ ?s) @ len_u32_be ?t"
  have 6: "read_bytes ?b (length ?w) (length ?t) = Inr (?t, length (?w @ ?t))"
    by (rule field) (simp_all add: b)
  have tl: "length ?t < 4294967296" using length_As_Str [of "pk_dtype p"] by linarith
  have h: "length (packet_head p) = length (?w @ ?t)" by (simp add: packet_head_def Let_def)
  show ?thesis
    unfolding h using 1 2 3 4 5 6 ok tl unfolding GGUF_Tensor_Deserialize_def by simp
qed

lemma packet_roundtrip:
  assumes "head_ok p" "length (GGUF_Tensor_Serialize p) < usize_max"
  shows "GGUF_Tensor_Deserialize (GGUF_Tensor_Serialize p) = Inr p"
proof -
  let ?l = "u64_to_be (of_nat (length (pk_data p)))"
  have "read_bytes (packet_head p @ ?l @ pk_data p) (length (packet_head p)) 8
      = Inr (?l, length (packet_head p @ ?l))"
    using assms(2) by (intro read_bytes_field) (simp_all add: Serialize_head)
  moreover have "read_bytes (packet_head p @ ?l @ pk_data p) (length (packet_head p @ ?l)) (length (pk_data p))
      = Inr (pk_data p, length ((packet_head p @ ?l) @ pk_data p))"
    using read_bytes_field [of "packet_head p @ ?l" "pk_data p" "[]"] assms(2) by (simp add: Serialize_head)
  moreover have "unat (u64_from_be ?l) = length (pk_data p)"
    using assms(2) by (simp add: Serialize_head usize_max_def unat_of_nat)
  ultimately show ?thesis
    using Deserialize_head [OF assms(1), of "?l @ pk_data p"] assms(2) by (simp add: Serialize_head)
qed

section \<open>Tensors between scripts and peers\<close>

text \<open>A tensor as the code uses it: element type, dimensions, and the elements in order, each as its
  32 bits.\<close>

datatype tensor_dtype = Td_F32 | Td_U32 | Td_Other string

record tensor =
  tn_dtype :: tensor_dtype
  tn_dims :: "u64 list"
  tn_data :: "u32 list"

datatype tensor_error =
    Te_Empty_Shape
  | Te_Reshape
  | Te_Unsupported_Dtype
  | Te_Short_Header
  | Te_Short_Dims
  | Te_Size_Mismatch nat nat
  | Te_From_Vec
  | Te_Unknown_Dtype u8
  | Te_Device string
  | Te_Panic

text \<open>A product of \<open>usize\<close> values, which wraps.\<close>

definition elem_count :: "u64 list \<Rightarrow> u64" where
  "elem_count ds = prod_list ds"

text \<open>\<open>reshape\<close> to one dimension fails unless the element counts agree.\<close>

definition tensor_to_bytes :: "tensor \<Rightarrow> tensor_error + bytes" where
  "tensor_to_bytes t =
     (let dims = tn_dims t in
      if dims = [] \<or> (\<exists>d \<in> set dims. d = 0) then Inl Te_Empty_Shape
      else if unat (elem_count dims) \<noteq> length (tn_data t) then Inl Te_Reshape
      else rbind (case tn_dtype t of Td_F32 \<Rightarrow> Inr 0 | Td_U32 \<Rightarrow> Inr 1 | Td_Other _ \<Rightarrow> Inl Te_Unsupported_Dtype) (\<lambda>dtype.
           Inr ([dtype] @ u64_to_le (of_nat (length dims)) @ concat (map u64_to_le dims) @
                concat (map u32_to_le (tn_data t)))))"

fun take_u64s :: "nat \<Rightarrow> bytes \<Rightarrow> u64 list" where
  "take_u64s 0 bs = []"
| "take_u64s (Suc n) bs = u64_from_le (take 8 bs) # take_u64s n (drop 8 bs)"

fun take_u32s :: "nat \<Rightarrow> bytes \<Rightarrow> u32 list" where
  "take_u32s 0 bs = []"
| "take_u32s (Suc n) bs = u32_from_le (take 4 bs) # take_u32s n (drop 4 bs)"

text \<open>
  \<open>from_vec\<close> is \<open>Tensor::from_vec\<close> of the tensor library. The header size and the element count are
  computed in wrapping arithmetic; \<open>Vec::with_capacity\<close> and \<open>to_vec\<close> panic when the allocation would
  exceed \<open>isize::MAX\<close> bytes, which \<open>to_vec\<close> does whenever the multiplication by 4 has wrapped.
\<close>

definition bytes_to_tensor ::
  "(tensor_dtype \<Rightarrow> u64 list \<Rightarrow> u32 list \<Rightarrow> tensor option) \<Rightarrow> bytes \<Rightarrow> tensor_error + tensor" where
  "bytes_to_tensor from_vec data =
     (if length data < 9 then Inl Te_Short_Header
      else
        let dtype = data ! 0;
            ndim = unat (u64_from_le (take 8 (drop 1 data)));
            header_size = (9 + ndim * 8) mod usize_max
        in if length data < header_size then Inl Te_Short_Dims
           else if ndim * 8 > 9223372036854775807 then Inl Te_Panic
           else
             let shape = take_u64s ndim (drop 9 data);
                 raw_data = drop header_size data;
                 elems = unat (elem_count shape);
                 expected_bytes = unat (elem_count shape * 4)
             in if length raw_data \<noteq> expected_bytes then Inl (Te_Size_Mismatch expected_bytes (length raw_data))
                else if dtype \<noteq> 0 \<and> dtype \<noteq> 1 then Inl (Te_Unknown_Dtype dtype)
                else if elems * 4 \<noteq> expected_bytes then Inl Te_Panic
                else ok_or Te_From_Vec
                       (from_vec (if dtype = 0 then Td_F32 else Td_U32) shape (take_u32s elems raw_data)))"


lemma take_u64s_concat [simp]: "take_u64s (length ds) (concat (map u64_to_le ds) @ r) = ds"
  by (induction ds) simp_all

lemma take_u32s_concat [simp]: "take_u32s (length ds) (concat (map u32_to_le ds)) = ds"
  by (induction ds) simp_all

lemma length_concat_le [simp]:
  "length (concat (map u64_to_le ds)) = 8 * length ds" "length (concat (map u32_to_le es)) = 4 * length es"
  by (induction ds, simp_all) (induction es, simp_all)

lemma length_take_u64s [simp]: "length (take_u64s n bs) = n"
  by (induction n bs rule: take_u64s.induct) simp_all

text \<open>A tensor as the library builds them: as many elements as its shape says, counted without
  wrapping, and small enough for an allocation.\<close>

definition tensor_wf :: "tensor \<Rightarrow> bool" where
  "tensor_wf t \<longleftrightarrow>
     tn_dims t \<noteq> [] \<and> (\<forall>d \<in> set (tn_dims t). d \<noteq> 0) \<and>
     unat (elem_count (tn_dims t)) = length (tn_data t) \<and>
     8 * length (tn_dims t) \<le> 9223372036854775807 \<and> 4 * length (tn_data t) \<le> 9223372036854775807"

lemma tensor_to_bytes_wf:
  assumes "tensor_wf t" "tn_dtype t = (if c = 0 then Td_F32 else Td_U32)" "c = 0 \<or> c = 1"
  shows "tensor_to_bytes t = Inr ([c] @ u64_to_le (of_nat (length (tn_dims t))) @ concat (map u64_to_le (tn_dims t)) @
                concat (map u32_to_le (tn_data t)))"
  using assms by (auto simp: tensor_to_bytes_def tensor_wf_def Let_def)

lemma bytes_to_tensor_parts:
  assumes "8 * length ds \<le> 9223372036854775807" "4 * length es \<le> 9223372036854775807"
    and "unat (elem_count ds) = length es" "c = 0 \<or> c = 1"
  shows "bytes_to_tensor from_vec ([c] @ u64_to_le (of_nat (length ds)) @ concat (map u64_to_le ds) @ concat (map u32_to_le es))
     = ok_or Te_From_Vec (from_vec (if c = 0 then Td_F32 else Td_U32) ds es)"
proof -
  have n: "unat (of_nat (length ds) :: u64) = length ds" using assms(1) by (simp add: unat_of_nat)
  have h: "(9 + length ds * 8) mod usize_max = 9 + length ds * 8" using assms(1) by (simp add: usize_max_def)
  have e: "unat (elem_count ds * 4) = 4 * length es"
    using assms(2,3) by (simp add: unat_word_ariths)
  let ?h = "c # u64_to_le (of_nat (length ds)) @ concat (map u64_to_le ds)"
  have "length ?h = 9 + length ds * 8" by simp
  then have d: "drop (9 + length ds * 8) (c # u64_to_le (of_nat (length ds)) @ concat (map u64_to_le ds) @ concat (map u32_to_le es))
      = concat (map u32_to_le es)"
    using append_eq_conv_conj [of ?h "concat (map u32_to_le es)"] by (metis append_Cons append_assoc)
  have t: "take_u32s (length es) (concat (map u32_to_le es)) = es" by simp
  have u: "drop 8 (u64_to_le w @ x) = x" for w and x :: bytes by simp
  show ?thesis using assms e
    unfolding bytes_to_tensor_def by (auto simp add: n h d t u Let_def nth_append simp del: drop_append)
qed

section \<open>Devices\<close>

datatype device = Dev_Cpu | Dev_Cuda nat

text \<open>\<open>to_lowercase\<close> on the ASCII letters; a letter outside ASCII is never part of a device name, before
  or after.\<close>

definition ascii_lower :: "string \<Rightarrow> string" where
  "ascii_lower = map (\<lambda>c. let n = (of_char c :: nat) in if 65 \<le> n \<and> n \<le> 90 then char_of (n + 32) else c)"

datatype device_error = De_Unavailable nat | De_Bad_Index string | De_Unknown string

text \<open>\<open>has_cuda i\<close>: the tensor library can open the GPU with index \<open>i\<close>.\<close>

definition new_cuda :: "(nat \<Rightarrow> bool) \<Rightarrow> nat \<Rightarrow> device_error + device" where
  "new_cuda has_cuda i = (if has_cuda i then Inr (Dev_Cuda i) else Inl (De_Unavailable i))"

definition Parse_Device_Str :: "(nat \<Rightarrow> bool) \<Rightarrow> string \<Rightarrow> device_error + device" where
  "Parse_Device_Str has_cuda s =
     (let s = ascii_lower (str_trim s) in
      if s = ''cpu'' then Inr Dev_Cpu
      else if s = ''cuda'' \<or> s = ''cuda:0'' then new_cuda has_cuda 0
      else if take 5 s = ''cuda:'' then
        rbind (map_err (\<lambda>_. De_Bad_Index s) (parse_uint 18446744073709551615 (drop 5 s))) (new_cuda has_cuda)
      else Inl (De_Unknown s))"

definition bytes_to_tensor_str ::
  "(nat \<Rightarrow> bool) \<Rightarrow> (tensor_dtype \<Rightarrow> u64 list \<Rightarrow> u32 list \<Rightarrow> tensor option) \<Rightarrow> bytes \<Rightarrow> string \<Rightarrow>
   tensor_error + device \<times> tensor" where
  "bytes_to_tensor_str has_cuda from_vec data device_str =
     rbind (map_err (\<lambda>_. Te_Device device_str) (Parse_Device_Str has_cuda device_str)) (\<lambda>dev.
     rbind (bytes_to_tensor from_vec data) (\<lambda>t. Inr (dev, t)))"

definition device_name :: "device \<Rightarrow> string" where
  "device_name d = (case d of Dev_Cpu \<Rightarrow> ''cpu'' | Dev_Cuda i \<Rightarrow> ''cuda:'' @ show_nat i)"

section \<open>Properties\<close>

text \<open>A tensor packet survives the wire, whatever its name, shape, element type and data, as long as
  the lengths of the name and the shape fit their 32 bits.\<close>

theorem tensor_packet_roundtrip:
  assumes "head_ok p" "length (GGUF_Tensor_Serialize p) < 18446744073709551616"
  shows "GGUF_Tensor_Deserialize (GGUF_Tensor_Serialize p) = Inr p"
  by (rule packet_roundtrip) (use assms in \<open>simp_all add: usize_max_def\<close>)

definition demo_packet :: GGUF_Tensor_Packet where
  "demo_packet = \<lparr>pk_name = ''blk.0'', pk_shape = [2, 1], pk_dtype = Gd_Q8_0, pk_data = [7, 8]\<rparr>"

lemma demo_packet_ok: "head_ok demo_packet" "length (packet_head demo_packet) = 37"
  by (simp_all add: head_ok_def demo_packet_def packet_head_def As_Str_def is_str_alt Let_def)

theorem tensor_packet_roundtrip_witness:
  "GGUF_Tensor_Deserialize (GGUF_Tensor_Serialize demo_packet) = Inr demo_packet"
  by (rule tensor_packet_roundtrip)
    (simp_all add: demo_packet_ok Serialize_head, simp add: demo_packet_def)

text \<open>A data length close to the top of the address range defeats the bounds test: the sum wraps,
  the test passes, and the receiver panics instead of reporting missing data.\<close>

theorem packet_length_overflow_panics:
  assumes "head_ok p" "length (packet_head p @ u64_to_be w @ r) < 18446744073709551616"
    and "18446744073709551616 \<le> length (packet_head p) + 8 + unat w"
  shows "GGUF_Tensor_Deserialize (packet_head p @ u64_to_be w @ r) = Inl Packet_Panic"
proof -
  let ?b = "packet_head p @ u64_to_be w @ r" and ?o = "length (packet_head p) + 8"
  have l: "read_bytes ?b (length (packet_head p)) 8 = Inr (u64_to_be w, length (packet_head p @ u64_to_be w))"
    using assms(2) by (intro read_bytes_field) (simp_all add: usize_max_def)
  have wrap: "(?o + unat w) mod usize_max = ?o + unat w - usize_max"
    using assms(2,3) unat_u64_less [of w] by (intro mod_nat_eqI) (simp_all add: usize_max_def)
  have "?o + unat w - usize_max < ?o" using assms(3) unat_u64_less [of w] by (simp add: usize_max_def)
  then have "read_bytes ?b ?o (unat w) = Inl Packet_Panic"
    unfolding read_bytes_def wrap Let_def by simp
  then show ?thesis
    using Deserialize_head [OF assms(1), of "u64_to_be w @ r"] l assms(2) by (simp add: usize_max_def)
qed

theorem packet_length_overflow_panics_witness:
  "GGUF_Tensor_Deserialize (packet_head demo_packet @ u64_to_be (-1) @ [1, 2]) = Inl Packet_Panic"
  by (rule packet_length_overflow_panics)
    (simp_all add: demo_packet_ok unsigned_minus_1_eq_mask mask_eq_exp_minus_1)

text \<open>A tensor sent by a script or a session arrives as the same tensor: element type, shape and
  every element's bits.\<close>

theorem tensor_bytes_roundtrip:
  assumes "tensor_wf t" "tn_dtype t = Td_F32 \<or> tn_dtype t = Td_U32"
    and "from_vec (tn_dtype t) (tn_dims t) (tn_data t) = Some t"
  shows "rbind (tensor_to_bytes t) (bytes_to_tensor from_vec) = Inr t"
proof -
  define c :: u8 where "c = (if tn_dtype t = Td_F32 then 0 else 1)"
  have c: "tn_dtype t = (if c = 0 then Td_F32 else Td_U32)" "c = 0 \<or> c = 1" using assms(2) by (auto simp: c_def)
  have "bytes_to_tensor from_vec ([c] @ u64_to_le (of_nat (length (tn_dims t))) @ concat (map u64_to_le (tn_dims t)) @
      concat (map u32_to_le (tn_data t))) = Inr t"
    using assms(1,3) c by (subst bytes_to_tensor_parts) (simp_all add: tensor_wf_def)
  then show ?thesis unfolding tensor_to_bytes_wf [OF assms(1) c] by simp
qed

theorem tensor_bytes_roundtrip_witness:
  "rbind (tensor_to_bytes \<lparr>tn_dtype = Td_F32, tn_dims = [2, 1], tn_data = [5, 6]\<rparr>)
     (bytes_to_tensor (\<lambda>dt ds es. Some \<lparr>tn_dtype = dt, tn_dims = ds, tn_data = es\<rparr>))
   = Inr \<lparr>tn_dtype = Td_F32, tn_dims = [2, 1], tn_data = [5, 6]\<rparr>"
  by (rule tensor_bytes_roundtrip) (simp_all add: tensor_wf_def elem_count_def)

text \<open>What \<open>bytes_to_tensor\<close> accepts is exactly as long as its header says, so no element is read
  past the end of the data: the dimensions fill the header, the elements fill the rest.\<close>

theorem bytes_to_tensor_accepts:
  assumes "bytes_to_tensor from_vec data = Inr t"
  shows "\<exists>ds es. length data = 9 + 8 * length ds + 4 * length es \<and> unat (elem_count ds) = length es \<and>
           from_vec (if data ! 0 = 0 then Td_F32 else Td_U32) ds es = Some t"
proof -
  define ndim where "ndim = unat (u64_from_le (take 8 (drop 1 data)))"
  define hs where "hs = (9 + ndim * 8) mod usize_max"
  define ds where "ds = take_u64s ndim (drop 9 data)"
  define raw where "raw = drop hs data"
  note defs = ndim_def [symmetric] hs_def [symmetric] ds_def [symmetric] raw_def [symmetric]
  have b: "\<not> length data < hs" "\<not> ndim * 8 > 9223372036854775807" "length raw = unat (elem_count ds * 4)"
    "unat (elem_count ds) * 4 = unat (elem_count ds * 4)"
    "from_vec (if data ! 0 = 0 then Td_F32 else Td_U32) ds (take_u32s (unat (elem_count ds)) raw) = Some t"
    using assms unfolding bytes_to_tensor_def Let_def defs by (auto simp: ok_or_def split: if_splits option.splits)
  have "hs = 9 + ndim * 8" using b(2) by (simp add: hs_def usize_max_def)
  moreover have "length raw = length data - hs" by (simp add: raw_def)
  moreover have "length (take_u32s n xs) = n" for n xs by (induction n xs rule: take_u32s.induct) simp_all
  ultimately show ?thesis using b by (intro exI [of _ ds] exI [of _ "take_u32s (unat (elem_count ds)) raw"])
    (simp add: ds_def)
qed

theorem bytes_to_tensor_accepts_witness:
  "\<exists>(ds :: u64 list) (es :: u32 list).
     length ([1] @ u64_to_le (of_nat (length [1 :: u64])) @ concat (map u64_to_le [1]) @ concat (map u32_to_le [9]))
       = 9 + 8 * length ds + 4 * length es \<and> unat (elem_count ds) = length es"
proof -
  have "bytes_to_tensor (\<lambda>dt ds es. Some \<lparr>tn_dtype = dt, tn_dims = ds, tn_data = es\<rparr>)
      ([1] @ u64_to_le (of_nat (length [1 :: u64])) @ concat (map u64_to_le [1]) @ concat (map u32_to_le [9]))
      = Inr \<lparr>tn_dtype = Td_U32, tn_dims = [1], tn_data = [9]\<rparr>"
    by (subst bytes_to_tensor_parts) (simp_all add: elem_count_def)
  from bytes_to_tensor_accepts [OF this] show ?thesis by blast
qed

text \<open>A dimension count of \<open>2 ^ 61\<close> wraps the header size to 9, passes the length test and makes the
  receiver panic, whatever follows.\<close>

lemma tensor_header_overflow_panics:
  "bytes_to_tensor from_vec (c # u64_to_le 2305843009213693952 @ r) = Inl Te_Panic"
  by (simp add: bytes_to_tensor_def Let_def usize_max_def)

text \<open>The name of a device is read back as the device.\<close>

lemma ascii_lower_show_nat [simp]: "ascii_lower (show_nat n) = show_nat n"
proof -
  have "(let k = (of_char c :: nat) in if 65 \<le> k \<and> k \<le> 90 then char_of (k + 32) else c) = c"
    if "c \<in> set (show_nat n)" for c
    using show_nat_chars [OF that] by (simp add: Let_def)
  then show ?thesis unfolding ascii_lower_def by (intro map_idI) blast
qed

lemma ascii_lower_append [simp]: "ascii_lower (s @ t) = ascii_lower s @ ascii_lower t"
  by (simp add: ascii_lower_def)

lemma Parse_Device_name:
  assumes "i \<le> 18446744073709551615" "has_cuda i"
  shows "Parse_Device_Str has_cuda (device_name (Dev_Cuda i)) = Inr (Dev_Cuda i)"
proof -
  have "list_all graphic (''cuda:'' @ show_nat i)"
    by (auto simp: list_all_iff graphic_def dest!: show_nat_chars)
  then have "str_trim (''cuda:'' @ show_nat i) = ''cuda:'' @ show_nat i" by (rule str_trim_graphic)
  moreover have "ascii_lower ''cuda:'' = ''cuda:''" by (simp add: ascii_lower_def Let_def)
  ultimately have name: "ascii_lower (str_trim (device_name (Dev_Cuda i))) = ''cuda:'' @ show_nat i"
    unfolding device_name_def by (simp only: device.case ascii_lower_append ascii_lower_show_nat)
  have "i = 0" if "show_nat i = ''0''"
    using that parse_uint_show [of i i]
    by (auto simp: parse_uint_def digit_val_def Let_def split: option.splits)
  then show ?thesis
    unfolding Parse_Device_Str_def name Let_def using assms by (auto simp: new_cuda_def)
qed

end
