(* ===== verification/GGUF.thy ===== *)
theory GGUF
  imports Bitmap Wire "HOL-Library.List_Lexorder" "HOL-Library.Char_ord"
begin

text \<open>
  The GGUF model manager (\<open>Src/ML_Engine/gguf_model_manager.rs\<close>), first part: the parsed content of a
  model file, the metadata accessors, the architecture analysis, the loading of one layer and the
  splitting of a model into a range of layers. A hash map is an association list in its iteration
  order, which is arbitrary; the theorems say where the order does not matter. The parser and the
  writer of the tensor library are parameters, as are its conversions of metadata values. Strings
  are compared byte by byte, which is the list order of the imported theories. \<open>usize\<close> is 64 bits
  wide; block counts are below \<open>2 ^ 64 - 1\<close>.
\<close>

section \<open>Content\<close>

text \<open>A metadata value; signed integers and floats are their bits.\<close>

datatype gguf_value =
    Gv_U8 u8 | Gv_I8 u8 | Gv_U16 u16 | Gv_I16 u16 | Gv_U32 u32 | Gv_I32 u32 | Gv_U64 u64 | Gv_I64 u64
  | Gv_F32 u32 | Gv_F64 u64 | Gv_Bool bool | Gv_String string | Gv_Array "gguf_value list"

datatype GgmlDType =
    Gt_F32 | Gt_F16 | Gt_Q4_0 | Gt_Q4_1 | Gt_Q5_0 | Gt_Q5_1 | Gt_Q8_0 | Gt_Q8_1
  | Gt_Q2K | Gt_Q3K | Gt_Q4K | Gt_Q5K | Gt_Q6K | Gt_Other string

record TensorInfo =
  ti_dims :: "nat list"
  ti_dtype :: GgmlDType
  ti_offset :: nat

record Content =
  metadata :: "(string \<times> gguf_value) list"
  tensor_infos :: "(string \<times> TensorInfo) list"
  tensor_data_offset :: nat

text \<open>What the code uses of the tensor library: conversions of values (floats as bits), the element
  types' block and type sizes and names, the type code of a value, and the printing of floats.\<close>

record candle =
  cd_to_u32 :: "gguf_value \<Rightarrow> u32 option"
  cd_to_u64 :: "gguf_value \<Rightarrow> u64 option"
  cd_to_string :: "gguf_value \<Rightarrow> string option"
  cd_to_f32 :: "gguf_value \<Rightarrow> u32 option"
  cd_to_f64 :: "gguf_value \<Rightarrow> u64 option"
  cd_f32_as_f64 :: "u32 \<Rightarrow> u64"
  cd_block_size :: "GgmlDType \<Rightarrow> nat"
  cd_type_size :: "GgmlDType \<Rightarrow> nat"
  cd_dtype_name :: "GgmlDType \<Rightarrow> string"
  cd_value_type :: "gguf_value \<Rightarrow> u32"
  cd_show :: "gguf_value \<Rightarrow> string"

section \<open>Metadata\<close>

definition Get_Metadata_Usize :: "candle \<Rightarrow> (string \<times> gguf_value) list \<Rightarrow> string \<Rightarrow> nat option" where
  "Get_Metadata_Usize cd md key =
     (case map_of md key of
        None \<Rightarrow> None
      | Some val \<Rightarrow>
          (case cd_to_u32 cd val of
             Some v \<Rightarrow> Some (unat v)
           | None \<Rightarrow> (case cd_to_u64 cd val of Some v \<Rightarrow> Some (unat v) | None \<Rightarrow> None)))"

definition Get_Metadata_String :: "candle \<Rightarrow> (string \<times> gguf_value) list \<Rightarrow> string \<Rightarrow> string option" where
  "Get_Metadata_String cd md key = Option.bind (map_of md key) (cd_to_string cd)"

definition Get_Metadata_F64 :: "candle \<Rightarrow> (string \<times> gguf_value) list \<Rightarrow> string \<Rightarrow> u64 option" where
  "Get_Metadata_F64 cd md key =
     (case map_of md key of
        None \<Rightarrow> None
      | Some val \<Rightarrow>
          (case cd_to_f32 cd val of
             Some v \<Rightarrow> Some (cd_f32_as_f64 cd v)
           | None \<Rightarrow> cd_to_f64 cd val))"

text \<open>Numbers are printed by the library's formatter, strings as they are, arrays as their length.\<close>

definition Value_To_Display_String :: "candle \<Rightarrow> gguf_value \<Rightarrow> string" where
  "Value_To_Display_String cd val =
     (case val of
        Gv_U8 v \<Rightarrow> show_nat (unat v)
      | Gv_U16 v \<Rightarrow> show_nat (unat v)
      | Gv_U32 v \<Rightarrow> show_nat (unat v)
      | Gv_U64 v \<Rightarrow> show_nat (unat v)
      | Gv_Bool v \<Rightarrow> (if v then ''true'' else ''false'')
      | Gv_String v \<Rightarrow> v
      | Gv_Array arr \<Rightarrow> ''[array, len='' @ show_nat (length arr) @ '']''
      | _ \<Rightarrow> cd_show cd val)"

definition Calc_Tensor_Size_Bytes :: "candle \<Rightarrow> TensorInfo \<Rightarrow> nat" where
  "Calc_Tensor_Size_Bytes cd info =
     (if cd_block_size cd (ti_dtype info) = 0 then 0
      else prod_list (ti_dims info) * cd_type_size cd (ti_dtype info) div cd_block_size cd (ti_dtype info))"

section \<open>Analysis\<close>

record Tensor_Detail =
  td_name :: string
  td_shape :: "nat list"
  td_dtype :: string
  td_size_bytes :: nat

record Layer_Info =
  li_index :: nat
  li_tensors :: "Tensor_Detail list"
  li_total_size_bytes :: nat

record Model_Arch_Info =
  architecture :: string
  num_layers :: nat
  embedding_length :: nat
  head_count :: nat
  head_count_kv :: nat
  head_dim :: nat
  feed_forward_length :: nat
  context_length :: nat
  rms_norm_eps :: u64
  rope_freq_base :: u64
  vocab_size :: nat
  eos_token_id :: u32
  chat_template :: "string option"
  layers :: "Layer_Info list"
  non_layer_tensors :: "Tensor_Detail list"
  metadata_raw :: "(string \<times> string) list"
  is_split :: bool
  split_start :: nat
  split_end :: nat
  model_id :: "u32 option"
  layer_bitmap :: "bitmap option"
  weight_format :: "string option"
  num_shards :: "nat option"

definition tensor_detail :: "candle \<Rightarrow> string \<times> TensorInfo \<Rightarrow> Tensor_Detail" where
  "tensor_detail cd t = (case t of (tensor_name, info) \<Rightarrow>
     \<lparr>td_name = tensor_name, td_shape = ti_dims info, td_dtype = cd_dtype_name cd (ti_dtype info),
      td_size_bytes = Calc_Tensor_Size_Bytes cd info\<rparr>)"

text \<open>The layer number in \<open>blk.N.component\<close>.\<close>

definition layer_of :: "string \<Rightarrow> nat option" where
  "layer_of tensor_name =
     (if prefix ''blk.'' tensor_name then
        (let parts = splitn 3 (CHR ''.'') tensor_name in
         if length parts \<ge> 2 then
           (case parse_uint 18446744073709551615 (parts ! 1) of Inr layer_idx \<Rightarrow> Some layer_idx | Inl _ \<Rightarrow> None)
         else None)
      else None)"

fun group_tensors ::
  "candle \<Rightarrow> (string \<times> TensorInfo) list \<Rightarrow> (nat \<times> Tensor_Detail list) list \<times> Tensor_Detail list \<Rightarrow>
   (nat \<times> Tensor_Detail list) list \<times> Tensor_Detail list" where
  "group_tensors cd [] (by_layer, others) = (by_layer, others)"
| "group_tensors cd (t # ts) (by_layer, others) =
     (let detail = tensor_detail cd t in
      case layer_of (fst t) of
        Some layer_idx \<Rightarrow>
          group_tensors cd ts
            (AList.update layer_idx (unwrap_or [] (map_of by_layer layer_idx) @ [detail]) by_layer, others)
      | None \<Rightarrow> group_tensors cd ts (by_layer, others @ [detail]))"

text \<open>The loop over the layer numbers; each entry is taken out of the map once.\<close>

fun build_layers :: "nat list \<Rightarrow> (nat \<times> Tensor_Detail list) list \<Rightarrow> Layer_Info list" where
  "build_layers [] by_layer = []"
| "build_layers (i # is) by_layer =
     (let tensors = sort_key td_name (unwrap_or [] (map_of by_layer i)) in
      \<lparr>li_index = i, li_tensors = tensors, li_total_size_bytes = sum_list (map td_size_bytes tensors)\<rparr>
      # build_layers is (AList.delete i by_layer))"

definition GGUF_Analyze_From_Content :: "candle \<Rightarrow> Content \<Rightarrow> Model_Arch_Info" where
  "GGUF_Analyze_From_Content cd c =
     (let md = metadata c;
          arch = unwrap_or ''unknown'' (Get_Metadata_String cd md ''general.architecture'');
          usize = (\<lambda>k. Get_Metadata_Usize cd md (arch @ k));
          n = unwrap_or 0 (usize ''.block_count'');
          emb = unwrap_or 0 (usize ''.embedding_length'');
          heads = unwrap_or 0 (usize ''.attention.head_count'');
          start_val = Get_Metadata_Usize cd md ''pleiades.split.start'';
          end_val = Get_Metadata_Usize cd md ''pleiades.split.end'';
          grouped = group_tensors cd (tensor_infos c) ([], [])
      in \<lparr>architecture = arch,
          num_layers = n,
          embedding_length = emb,
          head_count = heads,
          head_count_kv = unwrap_or 0 (usize ''.attention.head_count_kv''),
          head_dim = unwrap_or (if heads > 0 then emb div heads else 0) (usize ''.attention.key_length''),
          feed_forward_length = unwrap_or 0 (usize ''.feed_forward_length''),
          context_length = unwrap_or 2048 (usize ''.context_length''),
          rms_norm_eps = unwrap_or 0x3EB0C6F7A0B5ED8D (Get_Metadata_F64 cd md (arch @ ''.attention.layer_norm_rms_epsilon'')),
          rope_freq_base = unwrap_or 0x40C3880000000000 (Get_Metadata_F64 cd md (arch @ ''.rope.freq_base'')),
          vocab_size = unwrap_or (unwrap_or 0 (Get_Metadata_Usize cd md ''tokenizer.ggml.tokens'')) (usize ''.vocab_size''),
          eos_token_id = unwrap_or 0 (map_option of_nat (Get_Metadata_Usize cd md ''tokenizer.ggml.eos_token_id'')),
          chat_template = Get_Metadata_String cd md ''tokenizer.chat_template'',
          layers = build_layers [0..<n] (fst grouped),
          non_layer_tensors = sort_key td_name (snd grouped),
          metadata_raw = map (\<lambda>(k, v). (k, Value_To_Display_String cd v)) md,
          is_split = (start_val \<noteq> None \<and> end_val \<noteq> None),
          split_start = unwrap_or 0 start_val,
          split_end = unwrap_or 0 end_val,
          model_id = None,
          layer_bitmap = None,
          weight_format = Get_Metadata_String cd md ''pleiades.weight_format'',
          num_shards = Get_Metadata_Usize cd md ''pleiades.num_shards''\<rparr>)"

text \<open>\<open>GGUF_Analyze\<close> opens and parses the file and then has the same body. \<open>read_content\<close> is the
  library's parser on the bytes of the file.\<close>

datatype gguf_error =
    Ge_Open
  | Ge_Parse
  | Ge_Invalid_Layer nat nat
  | Ge_No_Tensors nat
  | Ge_Load string
  | Ge_Split_Range nat nat
  | Ge_Split_Exceeds nat nat
  | Ge_Nothing_Selected
  | Ge_Dtype string
  | Ge_Bitmap_Panic
  | Ge_Not_Found

definition GGUF_Analyze ::
  "candle \<Rightarrow> (bytes \<Rightarrow> Content option) \<Rightarrow> (string \<times> bytes) list \<Rightarrow> string \<Rightarrow> gguf_error + Model_Arch_Info" where
  "GGUF_Analyze cd read_content disk path =
     rbind (ok_or Ge_Open (map_of disk path)) (\<lambda>contents.
     rbind (ok_or Ge_Parse (read_content contents)) (\<lambda>c.
     Inr (GGUF_Analyze_From_Content cd c)))"

text \<open>\<open>Resolve_Model_Path\<close>: the converted file first, then the original.\<close>

definition Resolve_Model_Path :: "(string \<Rightarrow> bool) \<Rightarrow> string \<Rightarrow> string \<Rightarrow> gguf_error + string" where
  "Resolve_Model_Path file_exists workspace model_name =
     (let pgguf = workspace @ ''/'' @ model_name @ ''.pgguf''; gguf = workspace @ ''/'' @ model_name @ ''.gguf'' in
      if file_exists pgguf then Inr pgguf else if file_exists gguf then Inr gguf else Inl Ge_Not_Found)"

section \<open>Loading a layer\<close>

text \<open>Layer 0 is the embedding, layers 1 to \<open>N\<close> are the blocks 0 to \<open>N - 1\<close>, layer \<open>N + 1\<close> is the
  output. \<open>load\<close> is the library's reading of one tensor from the file.\<close>

definition block_count :: "candle \<Rightarrow> (string \<times> gguf_value) list \<Rightarrow> nat" where
  "block_count cd md =
     (let arch = unwrap_or ''unknown'' (Get_Metadata_String cd md ''general.architecture'')
      in unwrap_or 0 (Get_Metadata_Usize cd md (arch @ ''.block_count'')))"

definition blk_prefix :: "nat \<Rightarrow> string" where
  "blk_prefix blk_idx = ''blk.'' @ show_nat blk_idx @ ''.''"

definition has_tensor :: "Content \<Rightarrow> string \<Rightarrow> bool" where
  "has_tensor c n \<longleftrightarrow> map_of (tensor_infos c) n \<noteq> None"

definition tensor_keys :: "Content \<Rightarrow> string list" where
  "tensor_keys c = map fst (tensor_infos c)"

definition TOKEN_EMBD :: string where "TOKEN_EMBD = ''token_embd.weight''"
definition OUTPUT_NORM :: string where "OUTPUT_NORM = ''output_norm.weight''"
definition OUTPUT :: string where "OUTPUT = ''output.weight''"

lemma tensor_consts [simp]: "TOKEN_EMBD \<noteq> OUTPUT_NORM" "TOKEN_EMBD \<noteq> OUTPUT" "OUTPUT_NORM \<noteq> OUTPUT"
  "OUTPUT_NORM \<noteq> TOKEN_EMBD" "OUTPUT \<noteq> TOKEN_EMBD" "OUTPUT \<noteq> OUTPUT_NORM"
  by (simp_all add: TOKEN_EMBD_def OUTPUT_NORM_def OUTPUT_def)

text \<open>The tensors of a layer, as both functions below select them.\<close>

definition layer_names :: "Content \<Rightarrow> nat \<Rightarrow> nat \<Rightarrow> string list" where
  "layer_names c n layer_index =
     (if layer_index = 0 then filter (has_tensor c) [TOKEN_EMBD]
      else if layer_index \<le> n then filter (prefix (blk_prefix (layer_index - 1))) (tensor_keys c)
      else filter (has_tensor c) [OUTPUT_NORM, OUTPUT])"

fun load_all :: "(string \<Rightarrow> 'q option) \<Rightarrow> string list \<Rightarrow> (string \<times> 'q) list \<Rightarrow> gguf_error + (string \<times> 'q) list" where
  "load_all load [] acc = Inr acc"
| "load_all load (n # ns) acc =
     rbind (ok_or (Ge_Load n) (load n)) (\<lambda>q. load_all load ns (AList.update n q acc))"

record 'q GGUF_Layer_Weights =
  lw_layer_index :: nat
  lw_tensors :: "(string \<times> 'q) list"

definition GGUF_Load_Layer ::
  "candle \<Rightarrow> Content \<Rightarrow> (string \<Rightarrow> 'q option) \<Rightarrow> nat \<Rightarrow> gguf_error + 'q GGUF_Layer_Weights" where
  "GGUF_Load_Layer cd c load layer_index =
     (let n = block_count cd (metadata c) in
      if layer_index > n + 1 then Inl (Ge_Invalid_Layer layer_index (n + 1))
      else rbind (load_all load (layer_names c n layer_index) []) (\<lambda>tensors.
           if tensors = [] then Inl (Ge_No_Tensors layer_index)
           else Inr \<lparr>lw_layer_index = layer_index, lw_tensors = tensors\<rparr>))"

section \<open>Splitting\<close>

text \<open>One round of the selection loop. The output layer of a model that shares the embedding's weights
  takes the embedding along.\<close>

definition select_layer :: "Content \<Rightarrow> nat \<Rightarrow> string list \<Rightarrow> nat \<Rightarrow> string list" where
  "select_layer c n selected layer_idx =
     (if layer_idx = 0 then
        (if has_tensor c TOKEN_EMBD then selected @ [TOKEN_EMBD] else selected)
      else if layer_idx \<le> n then
        selected @ filter (prefix (blk_prefix (layer_idx - 1))) (tensor_keys c)
      else if layer_idx = n + 1 then
        (let selected = selected @ filter (has_tensor c) [OUTPUT_NORM, OUTPUT] in
         if \<not> has_tensor c OUTPUT \<and> has_tensor c TOKEN_EMBD \<and>
            TOKEN_EMBD \<notin> set selected
         then selected @ [TOKEN_EMBD] else selected)
      else selected)"

definition selected_names :: "Content \<Rightarrow> nat \<Rightarrow> nat \<Rightarrow> nat \<Rightarrow> string list" where
  "selected_names c n start stop = foldl (select_layer c n) [] [start..<stop + 1]"

definition skip_keys :: "bool \<Rightarrow> string list" where
  "skip_keys keep_tokenizer =
     ''pleiades.layer_bitmap'' # (if keep_tokenizer then [] else [''tokenizer.'', ''chat_template''])"

definition should_skip :: "bool \<Rightarrow> string \<Rightarrow> bool" where
  "should_skip keep_tokenizer key = list_ex (\<lambda>p. prefix p key) (skip_keys keep_tokenizer)"

fun split_bitmap :: "string list \<Rightarrow> bitmap \<Rightarrow> bitmap" where
  "split_bitmap [] bm = bm"
| "split_bitmap (n # ns) bm =
     split_bitmap ns
       (case layer_of n of
          Some blk_idx \<Rightarrow>
            if blk_idx < 256 then bm[blk_idx div 8 := (bm ! (blk_idx div 8)) OR push_bit (blk_idx mod 8) 1] else bm
        | None \<Rightarrow> bm)"

definition split_metadata ::
  "(string \<times> gguf_value) list \<Rightarrow> bool \<Rightarrow> bitmap \<Rightarrow> nat \<Rightarrow> nat \<Rightarrow> (string \<times> gguf_value) list" where
  "split_metadata md keep_tokenizer bm start stop =
     sort_key fst
       (filter (\<lambda>(key, _). \<not> should_skip keep_tokenizer key) md @
        [(''pleiades.layer_bitmap'', Gv_String (Bitmap_To_Hex bm)),
         (''pleiades.split.start'', Gv_U32 (of_nat start)),
         (''pleiades.split.end'', Gv_U32 (of_nat stop))])"

fun load_each :: "(string \<Rightarrow> 'q option) \<Rightarrow> string list \<Rightarrow> gguf_error + (string \<times> 'q) list" where
  "load_each load [] = Inr []"
| "load_each load (n # ns) =
     rbind (ok_or (Ge_Load n) (load n)) (\<lambda>q. rbind (load_each load ns) (\<lambda>ts. Inr ((n, q) # ts)))"

text \<open>What is handed to the library's writer: the file name, the metadata pairs and the tensors.\<close>

record 'q split_output =
  so_filename :: string
  so_metadata :: "(string \<times> gguf_value) list"
  so_tensors :: "(string \<times> 'q) list"

definition GGUF_Split_Model ::
  "candle \<Rightarrow> Content \<Rightarrow> (string \<Rightarrow> 'q option) \<Rightarrow> string \<Rightarrow> nat \<Rightarrow> nat \<Rightarrow> bool \<Rightarrow> gguf_error + 'q split_output" where
  "GGUF_Split_Model cd c load original_stem start stop keep_tokenizer =
     (let n = block_count cd (metadata c) in
      if start > stop then Inl (Ge_Split_Range start stop)
      else if stop > n + 1 then Inl (Ge_Split_Exceeds stop (n + 1))
      else
        let names = sort_key id (selected_names c n start stop) in
        if names = [] then Inl Ge_Nothing_Selected
        else rbind (load_each load names) (\<lambda>loaded.
          Inr \<lparr>so_filename = original_stem @ ''_split_'' @ show_nat start @ ''_'' @ show_nat stop @ ''.pgguf'',
               so_metadata = split_metadata (metadata c) keep_tokenizer (split_bitmap names (replicate 32 0)) start stop,
               so_tensors = loaded\<rparr>))"

section \<open>Names and layers\<close>

lemma dot_free_show: "CHR ''.'' \<notin> set (show_nat n)"
  by (auto dest!: show_nat_chars)

lemma layer_of_blk:
  assumes "k \<le> 18446744073709551615"
  shows "layer_of (blk_prefix k @ r) = Some k"
proof -
  have "splitn 3 (CHR ''.'') (''blk'' @ CHR ''.'' # (show_nat k @ CHR ''.'' # r)) = [''blk'', show_nat k, r]"
    unfolding numeral_3_eq_3 by (subst splitn_append, simp, subst splitn_append, rule dot_free_show) simp
  then have "splitn 3 (CHR ''.'') (blk_prefix k @ r) = [''blk'', show_nat k, r]"
    by (simp add: blk_prefix_def del: splitn.simps)
  moreover have "prefix ''blk.'' (blk_prefix k @ r)" by (simp add: blk_prefix_def)
  ultimately show ?thesis using assms by (simp add: layer_of_def Let_def del: splitn.simps)
qed

lemma blk_prefix_unique:
  assumes "prefix (blk_prefix j) n" "prefix (blk_prefix k) n"
  shows "j = k"
proof -
  obtain r r' where n: "n = ''blk.'' @ show_nat j @ ''.'' @ r" "n = ''blk.'' @ show_nat k @ ''.'' @ r'"
    using assms unfolding prefix_def blk_prefix_def append_assoc by blast
  then have "show_nat j @ CHR ''.'' # r = show_nat k @ CHR ''.'' # r'" by simp
  then have "takeWhile (\<lambda>c. c \<noteq> CHR ''.'') (show_nat j @ CHR ''.'' # r)
      = takeWhile (\<lambda>c. c \<noteq> CHR ''.'') (show_nat k @ CHR ''.'' # r')" by simp
  moreover have "\<forall>x \<in> set (show_nat i). x \<noteq> CHR ''.''" for i using dot_free_show [of i] by metis
  ultimately have "show_nat j = show_nat k" by (simp add: takeWhile_append)
  then show ?thesis by (metis Inr_inject nat_le_linear order_refl parse_uint_show)
qed

lemma blk_prefix_special: "\<not> prefix (blk_prefix k) TOKEN_EMBD" "\<not> prefix (blk_prefix k) OUTPUT_NORM"
  "\<not> prefix (blk_prefix k) OUTPUT"
  by (auto simp: prefix_def blk_prefix_def TOKEN_EMBD_def OUTPUT_NORM_def OUTPUT_def)

lemma layer_names_disjoint:
  assumes "l \<le> n + 1" "l' \<le> n + 1" "l \<noteq> l'" "x \<in> set (layer_names c n l)"
  shows "x \<notin> set (layer_names c n l')"
  using assms blk_prefix_unique [of "l - 1" x "l' - 1"] blk_prefix_special
  by (auto simp: layer_names_def split: if_splits)

definition tied :: "Content \<Rightarrow> bool" where
  "tied c \<longleftrightarrow> \<not> has_tensor c OUTPUT \<and> has_tensor c TOKEN_EMBD"

lemma select_layer_set:
  "l \<le> n + 1 \<Longrightarrow> set (select_layer c n sel l) = set sel \<union> set (layer_names c n l) \<union>
     (if l = n + 1 \<and> tied c then {TOKEN_EMBD} else {})"
  by (auto simp: select_layer_def layer_names_def tied_def Let_def)

lemma selected_fold_set:
  "\<forall>l \<in> set ls. l \<le> n + 1 \<Longrightarrow> set (foldl (select_layer c n) sel ls) =
     set sel \<union> (\<Union>l \<in> set ls. set (layer_names c n l)) \<union>
     (if n + 1 \<in> set ls \<and> tied c then {TOKEN_EMBD} else {})"
proof (induction ls arbitrary: sel)
  case (Cons l ls)
  then show ?case using select_layer_set [of l n c sel] by auto
qed simp

lemma selected_set:
  assumes "stop \<le> n + 1"
  shows "set (selected_names c n start stop) = (\<Union>l \<in> {start..stop}. set (layer_names c n l)) \<union>
     (if start \<le> n + 1 \<and> n + 1 \<le> stop \<and> tied c then {TOKEN_EMBD} else {})"
proof -
  have "set [start..<stop + 1] = {start..stop}" by auto
  then show ?thesis
    unfolding selected_names_def using selected_fold_set [of "[start..<stop + 1]" n c "[]"] assms
    by (simp del: upt_Suc)
qed

lemma distinct_layer_names: "distinct (tensor_keys c) \<Longrightarrow> distinct (layer_names c n l)"
  by (simp add: layer_names_def)

lemma select_layer_distinct:
  assumes "distinct sel" "l \<le> n + 1" "distinct (tensor_keys c)" "set sel \<inter> set (layer_names c n l) = {}"
  shows "distinct (select_layer c n sel l)"
  using assms distinct_layer_names [OF assms(3), of n l]
  by (auto simp: select_layer_def layer_names_def Let_def split: if_splits)

lemma selected_distinct:
  assumes "distinct (tensor_keys c)" "stop \<le> n + 2"
  shows "distinct (foldl (select_layer c n) [] [start..<stop])"
  using assms(2)
proof (induction stop)
  case (Suc stop)
  show ?case
  proof (cases "start \<le> stop")
    case True
    let ?sel = "foldl (select_layer c n) [] [start..<stop]"
    have "set ?sel = (\<Union>l \<in> {start..<stop}. set (layer_names c n l))"
      using selected_fold_set [of "[start..<stop]" n c "[]"] Suc.prems by simp
    moreover have "x \<notin> set (layer_names c n stop)" if "l \<in> {start..<stop}" "x \<in> set (layer_names c n l)" for l x
      using layer_names_disjoint [of l n stop x c] that Suc.prems by simp
    ultimately have "set ?sel \<inter> set (layer_names c n stop) = {}" by blast
    then have "distinct (select_layer c n ?sel stop)"
      using Suc assms(1) by (intro select_layer_distinct) simp_all
    then show ?thesis using True by simp
  qed simp
qed simp

section \<open>Metadata of a split file\<close>

text \<open>The library's reader puts the pairs of the file into a map one after another, so of equal keys
  the last one counts.\<close>

lemma map_of_rev_distinct: "distinct (map fst xs) \<Longrightarrow> map_of (rev xs) = map_of xs"
proof (induction xs)
  case (Cons x xs)
  then have "fst x \<notin> dom (map_of xs)" by (simp add: dom_map_of_conv_image_fst)
  with Cons show ?case by (cases x) (auto simp: map_add_def fun_eq_iff split: option.splits)
qed simp

lemma map_of_filter_key: "map_of xs k = map_of (filter (\<lambda>y. fst y = k) xs) k"
  by (induction xs) auto

lemma map_of_rev_sort: "map_of (rev (sort_key fst xs)) k = map_of (rev xs) k"
proof -
  have "filter (\<lambda>y. fst y = k) (rev (sort_key fst xs)) = filter (\<lambda>y. fst y = k) (rev xs)"
    by (simp add: rev_filter [symmetric] sort_key_stable)
  then show ?thesis by (metis map_of_filter_key)
qed

lemma map_of_filter_fst: "map_of (filter (\<lambda>(k, _). P k) xs) k = (if P k then map_of xs k else None)"
  by (induction xs) auto

lemma split_metadata_lookup:
  assumes "distinct (map fst md)"
  shows "map_of (rev (split_metadata md kt bm start stop)) k =
     (if k = ''pleiades.split.end'' then Some (Gv_U32 (of_nat stop))
      else if k = ''pleiades.split.start'' then Some (Gv_U32 (of_nat start))
      else if k = ''pleiades.layer_bitmap'' then Some (Gv_String (Bitmap_To_Hex bm))
      else if should_skip kt k then None else map_of md k)"
proof -
  have "distinct (map fst (filter (\<lambda>(key, _). \<not> should_skip kt key) md))"
    using assms by (rule distinct_map_filter)
  from map_of_rev_distinct [OF this] show ?thesis
    unfolding split_metadata_def map_of_rev_sort by (simp add: map_of_filter_fst)
qed

definition reads_back :: "'q split_output \<Rightarrow> Content \<Rightarrow> bool" where
  "reads_back out c' \<longleftrightarrow>
     (\<forall>k. map_of (metadata c') k = map_of (rev (so_metadata out)) k) \<and>
     distinct (tensor_keys c') \<and> set (tensor_keys c') = fst ` set (so_tensors out)"

lemma load_each_names: "load_each load ns = Inr ts \<Longrightarrow> map fst ts = ns"
  by (induction ns arbitrary: ts) (auto simp: rbind_eq_Inr)

section \<open>Loading from a split file\<close>

lemma load_all_ok:
  "\<forall>n \<in> set ns. load n \<noteq> None \<Longrightarrow>
   \<exists>r. load_all load ns acc = Inr r \<and> map_of r = (\<lambda>k. if k \<in> set ns then load k else map_of acc k)"
proof (induction ns arbitrary: acc)
  case (Cons n ns)
  then obtain q where q: "load n = Some q" by fastforce
  from Cons obtain r where "load_all load ns (AList.update n q acc) = Inr r"
    "map_of r = (\<lambda>k. if k \<in> set ns then load k else map_of (AList.update n q acc) k)" by fastforce
  then show ?case using q by (auto simp: store_simps fun_eq_iff)
qed simp

lemma load_all_Nil:
  assumes "\<forall>n \<in> set ns. load n \<noteq> None"
  shows "\<exists>r. load_all load ns [] = Inr r \<and> map_of r = (\<lambda>k. if k \<in> set ns then load k else None)"
  using load_all_ok [OF assms, of "[]"] by (simp only: map_of.simps)

lemma load_all_InrD: "load_all load ns acc = Inr r \<Longrightarrow> \<forall>n \<in> set ns. load n \<noteq> None"
  by (induction ns arbitrary: acc) (auto simp: rbind_eq_Inr ok_or_def split: option.splits)

lemma load_each_InrD:
  "load_each load ns = Inr ts \<Longrightarrow> map_of ts = (\<lambda>k. if k \<in> set ns then load k else None)"
proof (induction ns arbitrary: ts)
  case (Cons n ns)
  then obtain q us where "load n = Some q" "load_each load ns = Inr us" "ts = (n, q) # us"
    by (auto simp: rbind_eq_Inr ok_or_def split: option.splits)
  with Cons.IH show ?case by (auto simp: fun_eq_iff)
qed auto

lemma GGUF_Load_Layer_iff:
  "GGUF_Load_Layer cd c load l = Inr w \<longleftrightarrow>
     l \<le> block_count cd (metadata c) + 1 \<and> lw_layer_index w = l \<and> lw_tensors w \<noteq> [] \<and>
     load_all load (layer_names c (block_count cd (metadata c)) l) [] = Inr (lw_tensors w)"
  by (cases w) (auto simp: GGUF_Load_Layer_def Let_def rbind_eq_Inr)

text \<open>What a successful split consists of.\<close>

lemma GGUF_Split_ModelD:
  assumes "GGUF_Split_Model cd c load stem start stop kt = Inr out"
  defines "n \<equiv> block_count cd (metadata c)"
  shows "start \<le> stop" "stop \<le> n + 1" "selected_names c n start stop \<noteq> []"
    "load_each load (sort_key id (selected_names c n start stop)) = Inr (so_tensors out)"
    "so_metadata out = split_metadata (metadata c) kt
       (split_bitmap (sort_key id (selected_names c n start stop)) (replicate 32 0)) start stop"
    "set (map fst (so_tensors out)) = set (selected_names c n start stop)"
    "map_of (so_tensors out) = (\<lambda>k. if k \<in> set (selected_names c n start stop) then load k else None)"
proof -
  let ?names = "sort_key id (selected_names c n start stop)"
  have nil: "?names = [] \<longleftrightarrow> selected_names c n start stop = []" by (metis length_0_conv length_sort)
  note r = assms(1) [unfolded GGUF_Split_Model_def Let_def, folded n_def]
  have g: "\<not> start > stop" "\<not> stop > n + 1" "?names \<noteq> []"
    using r by (metis Inl_Inr_False)+
  from r obtain ts where ts: "load_each load ?names = Inr ts"
    "out = \<lparr>so_filename = stem @ ''_split_'' @ show_nat start @ ''_'' @ show_nat stop @ ''.pgguf'',
       so_metadata = split_metadata (metadata c) kt (split_bitmap ?names (replicate 32 0)) start stop, so_tensors = ts\<rparr>"
    unfolding if_not_P [OF g(1)] if_not_P [OF g(2)] if_not_P [OF g(3)] rbind_eq_Inr by blast
  show "start \<le> stop" "stop \<le> n + 1" "selected_names c n start stop \<noteq> []"
    "load_each load (sort_key id (selected_names c n start stop)) = Inr (so_tensors out)"
    "so_metadata out = split_metadata (metadata c) kt
       (split_bitmap (sort_key id (selected_names c n start stop)) (replicate 32 0)) start stop"
    using g nil ts by simp_all
  from load_each_names [OF this(4)] load_each_InrD [OF this(4)]
  show "set (map fst (so_tensors out)) = set (selected_names c n start stop)"
    "map_of (so_tensors out) = (\<lambda>k. if k \<in> set (selected_names c n start stop) then load k else None)"
    by simp_all
qed

definition block_key :: "candle \<Rightarrow> (string \<times> gguf_value) list \<Rightarrow> string" where
  "block_key cd md = unwrap_or ''unknown'' (Get_Metadata_String cd md ''general.architecture'') @ ''.block_count''"

lemma block_key_fresh: "block_key cd md \<noteq> ''pleiades.split.end''" "block_key cd md \<noteq> ''pleiades.split.start''"
  "block_key cd md \<noteq> ''pleiades.layer_bitmap''"
proof -
  have "suffix ''.block_count'' (block_key cd md)" by (simp add: block_key_def suffix_def)
  then show "block_key cd md \<noteq> ''pleiades.split.end''" "block_key cd md \<noteq> ''pleiades.split.start''"
    "block_key cd md \<noteq> ''pleiades.layer_bitmap''"
    by (auto simp: suffix_to_prefix)
qed

lemma split_block_count:
  assumes "distinct (map fst (metadata c))" "\<not> should_skip kt (block_key cd (metadata c))"
    and "\<And>k. map_of (metadata c') k = map_of (rev (split_metadata (metadata c) kt bm start stop)) k"
  shows "block_count cd (metadata c') = block_count cd (metadata c)"
proof -
  have look: "map_of (metadata c') k = map_of (metadata c) k"
    if "\<not> should_skip kt k" "k \<noteq> ''pleiades.split.end''" "k \<noteq> ''pleiades.split.start''" "k \<noteq> ''pleiades.layer_bitmap''" for k
    using that by (simp add: assms(3) split_metadata_lookup [OF assms(1)])
  have "\<not> should_skip kt ''general.architecture''" by (cases kt) (simp_all add: should_skip_def skip_keys_def)
  then have a: "map_of (metadata c') ''general.architecture'' = map_of (metadata c) ''general.architecture''"
    by (rule look) simp_all
  have b: "map_of (metadata c') (block_key cd (metadata c)) = map_of (metadata c) (block_key cd (metadata c))"
    using assms(2) block_key_fresh by (rule look)
  have "Get_Metadata_String cd (metadata c') ''general.architecture'' = Get_Metadata_String cd (metadata c) ''general.architecture''"
    by (simp add: Get_Metadata_String_def a)
  then show ?thesis
    unfolding block_count_def Let_def block_key_def [symmetric] Get_Metadata_Usize_def
    by (simp add: b [unfolded block_key_def] block_key_def)
qed

definition in_layer :: "nat \<Rightarrow> nat \<Rightarrow> string \<Rightarrow> bool" where
  "in_layer n l x \<longleftrightarrow>
     (if l = 0 then x = TOKEN_EMBD
      else if l \<le> n then prefix (blk_prefix (l - 1)) x else x = OUTPUT_NORM \<or> x = OUTPUT)"

lemma has_tensor_keys: "has_tensor c x \<longleftrightarrow> x \<in> set (tensor_keys c)"
  by (simp add: has_tensor_def tensor_keys_def map_of_eq_None_iff)

lemma layer_names_mem: "x \<in> set (layer_names c n l) \<longleftrightarrow> x \<in> set (tensor_keys c) \<and> in_layer n l x"
  by (auto simp: layer_names_def in_layer_def has_tensor_keys)

lemma split_keys:
  assumes "GGUF_Split_Model cd c load stem start stop kt = Inr out" "reads_back out c'"
    and "n = block_count cd (metadata c)"
  shows "x \<in> set (tensor_keys c') \<longleftrightarrow> x \<in> set (tensor_keys c) \<and>
     ((\<exists>l. start \<le> l \<and> l \<le> stop \<and> in_layer n l x) \<or> stop = n + 1 \<and> tied c \<and> x = TOKEN_EMBD)"
proof -
  note sp = GGUF_Split_ModelD [OF assms(1), folded assms(3)]
  have "x \<in> set (tensor_keys c') \<longleftrightarrow> x \<in> set (selected_names c n start stop)"
    using assms(2) sp(6) by (simp add: reads_back_def)
  also have "\<dots> \<longleftrightarrow> (\<exists>l. start \<le> l \<and> l \<le> stop \<and> x \<in> set (layer_names c n l)) \<or> stop = n + 1 \<and> tied c \<and> x = TOKEN_EMBD"
    unfolding selected_set [OF sp(2)] using sp(1,2) by auto
  also have "\<dots> \<longleftrightarrow> x \<in> set (tensor_keys c) \<and>
     ((\<exists>l. start \<le> l \<and> l \<le> stop \<and> in_layer n l x) \<or> stop = n + 1 \<and> tied c \<and> x = TOKEN_EMBD)"
    unfolding layer_names_mem tied_def has_tensor_keys by blast
  finally show ?thesis .
qed

lemma layer_names_split:
  assumes "GGUF_Split_Model cd c load stem start stop kt = Inr out" "reads_back out c'"
    and "n = block_count cd (metadata c)" "start \<le> l" "l \<le> stop"
  shows "set (layer_names c' n l) = set (layer_names c n l)"
  using assms(4,5) unfolding set_eq_iff layer_names_mem split_keys [OF assms(1-3)] by blast

lemma split_bitmap_spec:
  assumes "length bm = 32" "k < 256"
  shows "layer_bit (split_bitmap ns bm) k \<longleftrightarrow> layer_bit bm k \<or> (\<exists>n \<in> set ns. layer_of n = Some k)"
  using assms(1)
proof (induction ns bm rule: split_bitmap.induct)
  case (2 n ns bm)
  show ?case
  proof (cases "layer_of n")
    case None
    then show ?thesis using 2 by simp
  next
    case (Some i)
    then show ?thesis using 2 assms(2) layer_bit_set [of bm i k] by auto
  qed
qed simp

lemma layer_bit_zero [simp]: "k < 256 \<Longrightarrow> \<not> layer_bit (replicate 32 0) k"
  by (simp add: layer_bit_iff)

text \<open>The layer a tensor belongs to by its name; none of the special tensors has one.\<close>

lemma layer_of_special: "layer_of TOKEN_EMBD = None" "layer_of OUTPUT_NORM = None" "layer_of OUTPUT = None"
  by (simp_all add: layer_of_def TOKEN_EMBD_def OUTPUT_NORM_def OUTPUT_def)

lemma in_layer_layer_of:
  assumes "in_layer n l x" "layer_of x = Some k" "n \<le> 18446744073709551616"
  shows "l = k + 1 \<and> l \<le> n"
proof (cases "l = 0 \<or> n < l")
  case True
  then show ?thesis using assms(1,2) layer_of_special by (auto simp: in_layer_def split: if_splits)
next
  case False
  then obtain r where "x = blk_prefix (l - 1) @ r" using assms(1) by (auto simp: in_layer_def prefix_def)
  moreover have "l - 1 \<le> 18446744073709551615" using False assms(3) by linarith
  ultimately show ?thesis using assms(2) False layer_of_blk by fastforce
qed

lemma block_count_bound: "block_count cd md \<le> 18446744073709551616"
proof -
  have "unat (v :: u64) \<le> 18446744073709551616" "unat (w :: u32) \<le> 18446744073709551616" for v w
    using unat_u64_less [of v] unat_u32_less [of w] by linarith+
  then show ?thesis
    by (auto simp: block_count_def Get_Metadata_Usize_def Let_def unwrap_or_def split: option.splits)
qed

section \<open>Analysis lemmas\<close>

lemma unwrap_or_simps [simp]: "unwrap_or d None = d" "unwrap_or d (Some x) = x"
  by (simp_all add: unwrap_or_def)

lemma group_layer:
  "unwrap_or [] (map_of (fst (group_tensors cd ts (m, o'))) l)
     = unwrap_or [] (map_of m l) @ map (tensor_detail cd) (filter (\<lambda>t. layer_of (fst t) = Some l) ts)"
proof (induction ts arbitrary: m o')
  case (Cons t ts)
  show ?case
    by (cases "layer_of (fst t)") (auto simp: Cons.IH Let_def store_simps)
qed simp

lemma group_others:
  "snd (group_tensors cd ts (m, o')) = o' @ map (tensor_detail cd) (filter (\<lambda>t. layer_of (fst t) = None) ts)"
  by (induction ts arbitrary: m o') (auto simp: Let_def split: option.splits)

lemma build_layers_eq:
  "distinct is \<Longrightarrow> build_layers is m =
     map (\<lambda>i. let tensors = sort_key td_name (unwrap_or [] (map_of m i)) in
       \<lparr>li_index = i, li_tensors = tensors, li_total_size_bytes = sum_list (map td_size_bytes tensors)\<rparr>) is"
proof (induction "is" m rule: build_layers.induct)
  case (2 i "is" m)
  then show ?case by (auto simp: Let_def store_simps)
qed simp

lemma td_name_detail [simp]: "td_name (tensor_detail cd t) = fst t"
  by (simp add: tensor_detail_def case_prod_beta)

text \<open>Sorting by names makes the order of the map irrelevant.\<close>

lemma sort_details_perm:
  assumes "mset ts = mset ts'" "distinct (map fst ts)"
  shows "sort_key td_name (map (tensor_detail cd) (filter P ts)) = sort_key td_name (map (tensor_detail cd) (filter P ts'))"
proof (rule sort_key_inj_key_eq)
  have "mset (filter P ts) = mset (filter P ts')" using assms(1) by (metis mset_filter)
  then show "mset (map (tensor_detail cd) (filter P ts)) = mset (sort_key td_name (map (tensor_detail cd) (filter P ts')))"
    by (metis mset_map mset_sort)
  have "inj_on fst (set ts)" using assms(2) by (simp add: distinct_map)
  then show "inj_on td_name (set (map (tensor_detail cd) (filter P ts)))"
    unfolding inj_on_def by fastforce
qed simp

lemma split_outside_names:
  assumes "GGUF_Split_Model cd c load stem start stop kt = Inr out" "reads_back out c'"
    and "n = block_count cd (metadata c)" "1 \<le> l" "l \<le> n" "l < start \<or> stop < l"
  shows "layer_names c' n l = []"
proof -
  have "x \<notin> set (layer_names c' n l)" for x
  proof
    assume "x \<in> set (layer_names c' n l)"
    then have x: "in_layer n l x" "x \<in> set (tensor_keys c')" by (simp_all add: layer_names_mem)
    then have p: "prefix (blk_prefix (l - 1)) x" using assms(4,5) by (simp add: in_layer_def)
    then have ne: "x \<noteq> TOKEN_EMBD" "x \<noteq> OUTPUT_NORM" "x \<noteq> OUTPUT" using blk_prefix_special by auto
    with x(2) obtain l' where l': "start \<le> l'" "l' \<le> stop" "in_layer n l' x"
      unfolding split_keys [OF assms(1-3)] by blast
    with ne have "l' \<noteq> 0" "prefix (blk_prefix (l' - 1)) x" by (auto simp: in_layer_def split: if_splits)
    with blk_prefix_unique [OF p] assms(4) have "l' = l" by fastforce
    with l' assms(6) show False by linarith
  qed
  then show ?thesis by (metis last_in_set)
qed

lemma split_bitmap_range:
  assumes "stop \<le> n + 1" "n \<le> 18446744073709551616" "k < 256"
  shows "layer_bit (split_bitmap (sort_key id (selected_names c n start stop)) (replicate 32 0)) k \<longleftrightarrow>
     k < n \<and> start \<le> k + 1 \<and> k + 1 \<le> stop \<and> (\<exists>x \<in> set (tensor_keys c). prefix (blk_prefix k) x)"
    (is "?bit \<longleftrightarrow> ?range")
proof -
  have bits: "?bit \<longleftrightarrow> (\<exists>x \<in> set (selected_names c n start stop). layer_of x = Some k)"
    using assms(3) by (simp add: split_bitmap_spec)
  show ?thesis unfolding bits
  proof
    assume "\<exists>x \<in> set (selected_names c n start stop). layer_of x = Some k"
    then obtain x where x: "x \<in> set (selected_names c n start stop)" "layer_of x = Some k" by blast
    then have "x \<noteq> TOKEN_EMBD" using layer_of_special by auto
    with x(1) obtain i where i: "start \<le> i" "i \<le> stop" "x \<in> set (tensor_keys c)" "in_layer n i x"
      unfolding selected_set [OF assms(1)] by (auto simp: layer_names_mem split: if_splits)
    from in_layer_layer_of [OF i(4) x(2) assms(2)] have "i = k + 1" "i \<le> n" by simp_all
    with i show ?range by (auto simp: in_layer_def)
  next
    assume r: ?range
    then obtain x where x: "x \<in> set (tensor_keys c)" "prefix (blk_prefix k) x" by blast
    then have "x \<in> set (layer_names c n (k + 1))" using r by (simp add: layer_names_mem in_layer_def)
    then have "x \<in> set (selected_names c n start stop)" using r unfolding selected_set [OF assms(1)] by auto
    moreover have "layer_of x = Some k" using x(2) assms(3) layer_of_blk [of k] by (auto simp: prefix_def)
    ultimately show "\<exists>x \<in> set (selected_names c n start stop). layer_of x = Some k" by blast
  qed
qed

lemma length_split_bitmap [simp]: "length (split_bitmap ns bm) = length bm"
  by (induction ns bm rule: split_bitmap.induct) (simp split: option.splits)+

section \<open>Properties\<close>

lemma split_layer_same:
  assumes "distinct (map fst (metadata c))"
    and "GGUF_Split_Model cd c load stem start stop kt = Inr out" "reads_back out c'"
    and "\<not> should_skip kt (block_key cd (metadata c))"
    and "start \<le> l" "l \<le> stop" "GGUF_Load_Layer cd c load l = Inr w"
  shows "\<exists>w'. GGUF_Load_Layer cd c' (map_of (so_tensors out)) l = Inr w' \<and>
           lw_layer_index w' = l \<and> map_of (lw_tensors w') = map_of (lw_tensors w)"
proof -
  let ?n = "block_count cd (metadata c)" and ?load = "map_of (so_tensors out)"
  note sp = GGUF_Split_ModelD [OF assms(2)]
  have n: "block_count cd (metadata c') = ?n"
    using assms(3) sp(5) by (intro split_block_count [OF assms(1,4)]) (simp add: reads_back_def)
  have w: "l \<le> ?n + 1" "lw_tensors w \<noteq> []" "load_all load (layer_names c ?n l) [] = Inr (lw_tensors w)"
    using assms(7) by (simp_all add: GGUF_Load_Layer_iff)
  have names: "set (layer_names c' ?n l) = set (layer_names c ?n l)"
    by (rule layer_names_split [OF assms(2,3) refl assms(5,6)])
  have "x \<in> set (selected_names c ?n start stop)" if "x \<in> set (layer_names c ?n l)" for x
    using that assms(5,6) by (auto simp: selected_set [OF sp(2)])
  then have load: "?load x = load x" if "x \<in> set (layer_names c ?n l)" for x
    using that by (simp add: sp(7))
  from load_all_InrD [OF w(3)] have ok: "\<forall>x \<in> set (layer_names c ?n l). load x \<noteq> None" .
  with load_all_Nil [of "layer_names c ?n l" load] w(3)
  have m: "map_of (lw_tensors w) = (\<lambda>k. if k \<in> set (layer_names c ?n l) then load k else None)" by auto
  have "\<forall>x \<in> set (layer_names c' ?n l). ?load x \<noteq> None" using ok load names by simp
  from load_all_Nil [OF this] obtain r where
    r: "load_all ?load (layer_names c' ?n l) [] = Inr r"
       "map_of r = (\<lambda>k. if k \<in> set (layer_names c' ?n l) then ?load k else None)" by blast
  have same: "map_of r = map_of (lw_tensors w)" using r(2) m names load by (auto simp: fun_eq_iff)
  then have "r \<noteq> []" using w(2) by (metis dom_eq_empty_conv dom_map_of_conv_image_fst image_is_empty set_empty)
  then have "GGUF_Load_Layer cd c' ?load l = Inr \<lparr>lw_layer_index = l, lw_tensors = r\<rparr>"
    using r(1) w(1) by (simp add: GGUF_Load_Layer_iff n)
  then show ?thesis using same
    by (intro exI [of _ "\<lparr>lw_layer_index = l, lw_tensors = r\<rparr>"]) simp
qed

text \<open>A layer loaded from a split file is the layer of the original: for every layer of the range,
  whenever it can be loaded from the original it can be loaded from the split file, with the same
  tensors under the same names. The block count is kept, so the layer numbers mean the same.\<close>

theorem split_layer_loads:
  assumes "distinct (map fst (metadata c))"
    and "GGUF_Split_Model cd c load stem start stop kt = Inr out" "reads_back out c'"
    and "\<not> should_skip kt (block_key cd (metadata c))"
    and "start \<le> l" "l \<le> stop" "GGUF_Load_Layer cd c load l = Inr w"
  shows "\<exists>w'. GGUF_Load_Layer cd c' (map_of (so_tensors out)) l = Inr w' \<and>
           lw_layer_index w' = l \<and> map_of (lw_tensors w') = map_of (lw_tensors w)"
  using assms by (rule split_layer_same)

text \<open>A two-block model whose output shares the embedding's weights.\<close>

definition demo_candle :: candle where
  "demo_candle = \<lparr>
     cd_to_u32 = (\<lambda>v. case v of Gv_U32 w \<Rightarrow> Some w | _ \<Rightarrow> None),
     cd_to_u64 = (\<lambda>v. case v of Gv_U64 w \<Rightarrow> Some w | _ \<Rightarrow> None),
     cd_to_string = (\<lambda>v. case v of Gv_String s \<Rightarrow> Some s | _ \<Rightarrow> None),
     cd_to_f32 = (\<lambda>v. case v of Gv_F32 w \<Rightarrow> Some w | _ \<Rightarrow> None),
     cd_to_f64 = (\<lambda>v. case v of Gv_F64 w \<Rightarrow> Some w | _ \<Rightarrow> None),
     cd_f32_as_f64 = ucast, cd_block_size = (\<lambda>_. 1), cd_type_size = (\<lambda>_. 4),
     cd_dtype_name = (\<lambda>_. ''F32''), cd_value_type = (\<lambda>_. 4), cd_show = (\<lambda>_. ''0'')\<rparr>"

definition demo_info :: TensorInfo where
  "demo_info = \<lparr>ti_dims = [2], ti_dtype = Gt_F32, ti_offset = 0\<rparr>"

definition demo_content :: Content where
  "demo_content = \<lparr>
     metadata = [(''general.architecture'', Gv_String ''m''), (''m.block_count'', Gv_U32 2)],
     tensor_infos = map (\<lambda>n. (n, demo_info)) [TOKEN_EMBD, ''blk.0.w'', ''blk.1.w'', OUTPUT_NORM],
     tensor_data_offset = 0\<rparr>"

lemma demo_block_count: "block_count demo_candle (metadata demo_content) = 2"
  "block_key demo_candle (metadata demo_content) = ''m.block_count''"
  by (simp_all add: demo_content_def demo_candle_def block_count_def block_key_def Get_Metadata_String_def
      Get_Metadata_Usize_def)

lemma demo_prefixes: "blk_prefix 0 = ''blk.0.''" "blk_prefix (Suc 0) = ''blk.1.''"
  by code_simp+

lemma demo_layer_names: "layer_names demo_content 2 2 = [''blk.1.w'']"
  by (simp add: layer_names_def demo_prefixes demo_content_def tensor_keys_def demo_info_def
      TOKEN_EMBD_def OUTPUT_NORM_def)

lemma demo_selected: "selected_names demo_content 2 2 2 = [''blk.1.w'']"
  using demo_layer_names by (simp add: selected_names_def select_layer_def layer_names_def)

definition demo_split :: "nat split_output" where
  "demo_split = \<lparr>so_filename = ''d_split_2_2.pgguf'',
     so_metadata = split_metadata (metadata demo_content) False (split_bitmap [''blk.1.w''] (replicate 32 0)) 2 2,
     so_tensors = [(''blk.1.w'', 7)]\<rparr>"

lemma demo_split_ok:
  "GGUF_Split_Model demo_candle demo_content (\<lambda>_. Some 7) ''d'' 2 2 False = Inr demo_split"
proof -
  have "show_nat 2 = ''2''" by code_simp
  then show ?thesis by (simp add: GGUF_Split_Model_def demo_block_count demo_selected demo_split_def Let_def)
qed

definition demo_split_content :: Content where
  "demo_split_content = \<lparr>metadata = rev (so_metadata demo_split), tensor_infos = [(''blk.1.w'', demo_info)], tensor_data_offset = 0\<rparr>"

lemma demo_reads_back: "reads_back demo_split demo_split_content"
  by (simp add: reads_back_def demo_split_content_def demo_split_def tensor_keys_def)

theorem split_layer_loads_witness:
  "\<exists>w'. GGUF_Load_Layer demo_candle demo_split_content (map_of (so_tensors demo_split)) 2 = Inr w' \<and>
     lw_layer_index w' = 2 \<and> map_of (lw_tensors w') = [''blk.1.w'' \<mapsto> 7]"
proof -
  have l: "GGUF_Load_Layer demo_candle demo_content (\<lambda>_. Some 7) 2
      = Inr \<lparr>lw_layer_index = 2, lw_tensors = [(''blk.1.w'', 7)]\<rparr>"
    by (simp add: GGUF_Load_Layer_iff demo_block_count demo_layer_names)
  have d: "distinct (map fst (metadata demo_content))" by (simp add: demo_content_def)
  have k: "\<not> should_skip False (block_key demo_candle (metadata demo_content))"
    by (simp add: demo_block_count should_skip_def skip_keys_def)
  from split_layer_loads [OF d demo_split_ok demo_reads_back k le_refl le_refl l] show ?thesis by simp
qed



text \<open>The tensors of the analysis, layer by layer.\<close>

lemma analysis_layers:
  "layers (GGUF_Analyze_From_Content cd c) =
     map (\<lambda>i. let tensors = sort_key td_name (map (tensor_detail cd) (filter (\<lambda>t. layer_of (fst t) = Some i) (tensor_infos c))) in
       \<lparr>li_index = i, li_tensors = tensors, li_total_size_bytes = sum_list (map td_size_bytes tensors)\<rparr>)
     [0..<num_layers (GGUF_Analyze_From_Content cd c)]"
  by (simp add: GGUF_Analyze_From_Content_def Let_def build_layers_eq group_layer)

lemma analysis_others:
  "non_layer_tensors (GGUF_Analyze_From_Content cd c) =
     sort_key td_name (map (tensor_detail cd) (filter (\<lambda>t. layer_of (fst t) = None) (tensor_infos c)))"
  by (simp add: GGUF_Analyze_From_Content_def Let_def group_others)

lemma mset_filter_disjoint_Union:
  assumes "distinct is"
  shows "mset (concat (map (\<lambda>i. filter (\<lambda>t. f t = Some i) ts) is)) = mset (filter (\<lambda>t. \<exists>i \<in> set is. f t = Some i) ts)"
  using assms
proof (induction "is")
  case (Cons i "is")
  have "mset (filter (\<lambda>t. \<exists>j \<in> set (i # is). f t = Some j) ts) =
      mset (filter (\<lambda>t. f t = Some i) ts) + mset (filter (\<lambda>t. \<exists>j \<in> set is. f t = Some j) ts)"
    using Cons.prems by (induction ts) auto
  with Cons show ?case by simp
qed simp

lemma mset_concat_sorted:
  "mset (concat (map (\<lambda>i. sort_key k (map g (h i))) is)) = image_mset g (mset (concat (map h is)))"
  by (induction "is") simp_all

text \<open>The analysis accounts for every tensor of the file exactly once: it is in the entry of the
  layer its name says, or among the tensors outside the layers, or its layer number is not below
  the block count and it is left out. Layer entries stand at their index and are sorted by name.\<close>

theorem analysis_partitions_tensors:
  "let a = GGUF_Analyze_From_Content cd c; ts = tensor_infos c in
   mset (concat (map li_tensors (layers a))) + mset (non_layer_tensors a) +
     mset (map (tensor_detail cd) (filter (\<lambda>t. case layer_of (fst t) of Some l \<Rightarrow> num_layers a \<le> l | None \<Rightarrow> False) ts))
     = mset (map (tensor_detail cd) ts) \<and>
   map li_index (layers a) = [0..<num_layers a] \<and>
   list_all (\<lambda>l. sorted (map td_name (li_tensors l)) \<and>
                 list_all (\<lambda>d. layer_of (td_name d) = Some (li_index l)) (li_tensors l)) (layers a)"
proof -
  let ?a = "GGUF_Analyze_From_Content cd c" and ?ts = "tensor_infos c" and ?d = "tensor_detail cd"
  let ?n = "num_layers ?a"
  have "mset (concat (map li_tensors (layers ?a))) =
      image_mset ?d (mset (concat (map (\<lambda>i. filter (\<lambda>t. layer_of (fst t) = Some i) ?ts) [0..<?n])))"
    unfolding analysis_layers map_map o_def by (simp add: Let_def mset_concat_sorted)
  also have "\<dots> = image_mset ?d (mset (filter (\<lambda>t. \<exists>i \<in> {0..<?n}. layer_of (fst t) = Some i) ?ts))"
    using mset_filter_disjoint_Union [of "[0..<?n]" "\<lambda>t. layer_of (fst t)" ?ts] by simp
  finally have l: "mset (concat (map li_tensors (layers ?a))) =
      image_mset ?d (mset (filter (\<lambda>t. \<exists>i \<in> {0..<?n}. layer_of (fst t) = Some i) ?ts))" .
  have "mset (filter (\<lambda>t. \<exists>i \<in> {0..<?n}. layer_of (fst t) = Some i) ts) + mset (filter (\<lambda>t. layer_of (fst t) = None) ts) +
      mset (filter (\<lambda>t. case layer_of (fst t) of Some l \<Rightarrow> ?n \<le> l | None \<Rightarrow> False) ts) = mset ts" for ts :: "(string \<times> TensorInfo) list"
    by (induction ts) (auto split: option.splits)
  from arg_cong [OF this [of ?ts], of "image_mset ?d"] l
  have "mset (concat (map li_tensors (layers ?a))) + mset (non_layer_tensors ?a) +
     mset (map ?d (filter (\<lambda>t. case layer_of (fst t) of Some l \<Rightarrow> ?n \<le> l | None \<Rightarrow> False) ?ts)) = mset (map ?d ?ts)"
    by (simp add: analysis_others)
  moreover have "map li_index (layers ?a) = [0..<?n]" unfolding analysis_layers by (simp add: o_def Let_def)
  moreover have "list_all (\<lambda>l. sorted (map td_name (li_tensors l)) \<and>
      list_all (\<lambda>d. layer_of (td_name d) = Some (li_index l)) (li_tensors l)) (layers ?a)"
    unfolding analysis_layers by (auto simp: list_all_iff Let_def)
  ultimately show ?thesis by (simp add: Let_def)
qed

text \<open>The analysis does not depend on the iteration order of the tensor map.\<close>

theorem analysis_order_independent:
  assumes "mset ts = mset (tensor_infos c)" "distinct (map fst ts)"
  shows "GGUF_Analyze_From_Content cd (c\<lparr>tensor_infos := ts\<rparr>) = GGUF_Analyze_From_Content cd c"
proof -
  let ?c = "c\<lparr>tensor_infos := ts\<rparr>"
  have n: "num_layers (GGUF_Analyze_From_Content cd ?c) = num_layers (GGUF_Analyze_From_Content cd c)"
    by (simp add: GGUF_Analyze_From_Content_def Let_def)
  have l: "layers (GGUF_Analyze_From_Content cd ?c) = layers (GGUF_Analyze_From_Content cd c)"
    unfolding analysis_layers n using sort_details_perm [OF assms] by (simp add: Let_def)
  have o: "non_layer_tensors (GGUF_Analyze_From_Content cd ?c) = non_layer_tensors (GGUF_Analyze_From_Content cd c)"
    unfolding analysis_others using sort_details_perm [OF assms] by simp
  from l o show ?thesis by (simp add: GGUF_Analyze_From_Content_def Let_def)
qed

theorem analysis_order_independent_witness:
  "GGUF_Analyze_From_Content demo_candle (demo_content\<lparr>tensor_infos := rev (tensor_infos demo_content)\<rparr>)
     = GGUF_Analyze_From_Content demo_candle demo_content"
  by (rule analysis_order_independent)
    (simp_all add: demo_content_def TOKEN_EMBD_def OUTPUT_NORM_def)

end
