(* ===== verification/PGGUF.thy ===== *)
theory PGGUF
  imports GGUF
begin

text \<open>
  The GGUF model manager, second part: writing a converted model file (\<open>streaming_write_pgguf\<close>) and
  the conversion on first analysis (\<open>GGUF_Analyze_And_Convert\<close>), both of
  \<open>Src/ML_Engine/gguf_model_manager.rs\<close>. The output file is its bytes and a write position, so the
  second pass over the header, which seeks back and fills in the offsets, is modelled as it is
  written. Writing does not fail; \<open>usize\<close> and \<open>u64\<close> positions do not overflow.
\<close>

section \<open>Output files\<close>

record wfile =
  wf_data :: bytes
  wf_pos :: nat

definition wf_new :: wfile where "wf_new = \<lparr>wf_data = [], wf_pos = 0\<rparr>"

definition wf_write :: "bytes \<Rightarrow> wfile \<Rightarrow> wfile" where
  "wf_write d w =
     (let data = wf_data w @ replicate (wf_pos w - length (wf_data w)) 0 in
      \<lparr>wf_data = take (wf_pos w) data @ d @ drop (wf_pos w + length d) data, wf_pos = wf_pos w + length d\<rparr>)"

definition wf_seek :: "nat \<Rightarrow> wfile \<Rightarrow> wfile" where
  "wf_seek p w = w\<lparr>wf_pos := p\<rparr>"

section \<open>Values\<close>

definition normalize_value :: "gguf_value \<Rightarrow> gguf_value" where
  "normalize_value v =
     (case v of
        Gv_U8 x \<Rightarrow> Gv_U32 (ucast x)
      | Gv_I8 x \<Rightarrow> Gv_I32 (scast x)
      | Gv_U16 x \<Rightarrow> Gv_U32 (ucast x)
      | Gv_I16 x \<Rightarrow> Gv_I32 (scast x)
      | other \<Rightarrow> other)"

definition pgguf_metadata :: "(string \<times> gguf_value) list \<Rightarrow> u32 \<Rightarrow> bitmap \<Rightarrow> (string \<times> gguf_value) list" where
  "pgguf_metadata md mid bm =
     sort_key fst
       (map (\<lambda>(k, v). (k, normalize_value v)) md @
        [(''pleiades.model_id'', Gv_U32 mid), (''pleiades.layer_bitmap'', Gv_String (Bitmap_To_Hex bm))])"

definition write_gguf_string :: "string \<Rightarrow> bytes" where
  "write_gguf_string s = u64_to_le (of_nat (length s)) @ as_bytes s"

fun write_gguf_value :: "candle \<Rightarrow> gguf_value \<Rightarrow> bytes" where
  "write_gguf_value cd (Gv_U8 v) = [v]"
| "write_gguf_value cd (Gv_I8 v) = [v]"
| "write_gguf_value cd (Gv_U16 v) = u16_to_le v"
| "write_gguf_value cd (Gv_I16 v) = u16_to_le v"
| "write_gguf_value cd (Gv_U32 v) = u32_to_le v"
| "write_gguf_value cd (Gv_I32 v) = u32_to_le v"
| "write_gguf_value cd (Gv_U64 v) = u64_to_le v"
| "write_gguf_value cd (Gv_I64 v) = u64_to_le v"
| "write_gguf_value cd (Gv_F32 v) = u32_to_le v"
| "write_gguf_value cd (Gv_F64 v) = u64_to_le v"
| "write_gguf_value cd (Gv_Bool v) = [if v then 1 else 0]"
| "write_gguf_value cd (Gv_String v) = write_gguf_string v"
| "write_gguf_value cd (Gv_Array arr) =
     u32_to_le (case arr of [] \<Rightarrow> 4 | a # _ \<Rightarrow> cd_value_type cd a) @ u64_to_le (of_nat (length arr)) @
     concat (map (write_gguf_value cd) arr)"

fun gguf_value_size :: "gguf_value \<Rightarrow> nat" where
  "gguf_value_size (Gv_U8 v) = 1"
| "gguf_value_size (Gv_I8 v) = 1"
| "gguf_value_size (Gv_Bool v) = 1"
| "gguf_value_size (Gv_U16 v) = 2"
| "gguf_value_size (Gv_I16 v) = 2"
| "gguf_value_size (Gv_U32 v) = 4"
| "gguf_value_size (Gv_I32 v) = 4"
| "gguf_value_size (Gv_F32 v) = 4"
| "gguf_value_size (Gv_U64 v) = 8"
| "gguf_value_size (Gv_I64 v) = 8"
| "gguf_value_size (Gv_F64 v) = 8"
| "gguf_value_size (Gv_String s) = 8 + length s"
| "gguf_value_size (Gv_Array arr) = 12 + sum_list (map gguf_value_size arr)"

definition dtype_u32 :: "GgmlDType \<Rightarrow> u32 option" where
  "dtype_u32 d =
     (case d of
        Gt_F32 \<Rightarrow> Some 0 | Gt_F16 \<Rightarrow> Some 1 | Gt_Q4_0 \<Rightarrow> Some 2 | Gt_Q4_1 \<Rightarrow> Some 3 | Gt_Q5_0 \<Rightarrow> Some 6
      | Gt_Q5_1 \<Rightarrow> Some 7 | Gt_Q8_0 \<Rightarrow> Some 8 | Gt_Q8_1 \<Rightarrow> Some 9 | Gt_Q2K \<Rightarrow> Some 10 | Gt_Q3K \<Rightarrow> Some 11
      | Gt_Q4K \<Rightarrow> Some 12 | Gt_Q5K \<Rightarrow> Some 13 | Gt_Q6K \<Rightarrow> Some 14 | Gt_Other _ \<Rightarrow> None)"

section \<open>The writer\<close>

definition size_in_bytes :: "candle \<Rightarrow> TensorInfo \<Rightarrow> nat" where
  "size_in_bytes cd info =
     prod_list (ti_dims info) div cd_block_size cd (ti_dtype info) * cd_type_size cd (ti_dtype info)"

definition pad32 :: "nat \<Rightarrow> nat" where
  "pad32 n = (32 - n mod 32) mod 32"

text \<open>A tensor info with a placeholder for its offset; on an unsupported element type the part of the
  info before the type stays written.\<close>

definition info_shape :: "string \<Rightarrow> TensorInfo \<Rightarrow> bytes" where
  "info_shape name info =
     write_gguf_string name @ u32_to_le (of_nat (length (ti_dims info))) @
     concat (map (\<lambda>d. u64_to_le (of_nat d)) (rev (ti_dims info)))"

fun write_infos ::
  "candle \<Rightarrow> (string \<times> TensorInfo) list \<Rightarrow> wfile \<Rightarrow> (gguf_error + nat list) \<times> wfile" where
  "write_infos cd [] w = (Inr [], w)"
| "write_infos cd ((name, info) # ts) w =
     (let w = wf_write (info_shape name info) w in
      case dtype_u32 (ti_dtype info) of
        None \<Rightarrow> (Inl (Ge_Dtype (cd_dtype_name cd (ti_dtype info))), w)
      | Some code \<Rightarrow>
          let w = wf_write (u64_to_le 0) (wf_write (u32_to_le code) w) in
          case write_infos cd ts w of
            (Inl e, w) \<Rightarrow> (Inl e, w)
          | (Inr sizes, w) \<Rightarrow> (Inr (size_in_bytes cd info # sizes), w))"

fun metadata_end :: "(string \<times> gguf_value) list \<Rightarrow> nat \<Rightarrow> nat" where
  "metadata_end [] pos = pos"
| "metadata_end ((name, val) # md) pos = metadata_end md (pos + (8 + length name) + 4 + gguf_value_size val)"

fun offset_positions :: "(string \<times> TensorInfo) list \<Rightarrow> nat \<Rightarrow> nat list" where
  "offset_positions [] pos = []"
| "offset_positions ((name, info) # ts) pos =
     (let pos = pos + (8 + length name) + 4 + length (ti_dims info) * 8 + 4
      in pos # offset_positions ts (pos + 8))"

fun patch_offsets :: "(nat \<times> nat) list \<Rightarrow> nat \<Rightarrow> wfile \<Rightarrow> wfile" where
  "patch_offsets [] offset w = w"
| "patch_offsets ((off_pos, sz) # ps) offset w =
     patch_offsets ps (offset + (sz + pad32 sz)) (wf_write (u64_to_le (of_nat offset)) (wf_seek off_pos w))"

text \<open>The copy loop with its 8 MB buffer; \<open>sched\<close> decides how much each read returns.\<close>

function copy_loop :: "(nat \<Rightarrow> nat) \<Rightarrow> nat \<Rightarrow> bytes \<Rightarrow> wfile \<Rightarrow> wfile" where
  "copy_loop sched i src w =
     (let n = read_count (sched i) 8388608 src in
      if n = 0 then w else copy_loop sched (Suc i) (drop n src) (wf_write (take n src) w))"
  by pat_completeness auto
termination
  by (relation "measure (\<lambda>(sched, i, src, w). length src)") (auto simp: read_count_0)

declare copy_loop.simps [simp del]

definition sorted_tensors :: "Content \<Rightarrow> (string \<times> TensorInfo) list" where
  "sorted_tensors c = sort_key fst (tensor_infos c)"

definition write_pair :: "candle \<Rightarrow> string \<times> gguf_value \<Rightarrow> wfile \<Rightarrow> wfile" where
  "write_pair cd p w =
     wf_write (write_gguf_value cd (snd p)) (wf_write (u32_to_le (cd_value_type cd (snd p))) (wf_write (write_gguf_string (fst p)) w))"

text \<open>The result, and what the file holds at the end, also after an error.\<close>

definition streaming_write_pgguf ::
  "candle \<Rightarrow> (nat \<Rightarrow> nat) \<Rightarrow> bytes \<Rightarrow> Content \<Rightarrow> u32 \<Rightarrow> bitmap \<Rightarrow> (gguf_error + unit) \<times> bytes" where
  "streaming_write_pgguf cd sched src c mid bm =
     (let md = pgguf_metadata (metadata c) mid bm;
          ts = sorted_tensors c;
          w = wf_write (u32_to_le 0x46554747) wf_new;
          w = wf_write (u32_to_le 2) w;
          w = wf_write (u64_to_le (of_nat (length ts))) w;
          w = wf_write (u64_to_le (of_nat (length md))) w;
          w = fold (write_pair cd) md w
      in case write_infos cd ts w of
           (Inl e, w) \<Rightarrow> (Inl e, wf_data w)
         | (Inr tensor_sizes, w) \<Rightarrow>
             let padding = pad32 (wf_pos w);
                 w = (if padding > 0 then wf_write (replicate padding 0) w else w);
                 tensor_data_start = wf_pos w;
                 positions = zip (offset_positions ts (metadata_end md 24)) tensor_sizes;
                 w = patch_offsets positions 0 w;
                 w = wf_seek tensor_data_start w;
                 w = copy_loop sched 0 (drop (tensor_data_offset c) src) w
             in (Inr (), wf_data w))"

section \<open>What the writer writes\<close>

lemma write_end:
  "wf_pos w = length (wf_data w) \<Longrightarrow> wf_write d w = \<lparr>wf_data = wf_data w @ d, wf_pos = length (wf_data w @ d)\<rparr>"
  by (simp add: wf_write_def Let_def)

definition at_end :: "bytes \<Rightarrow> wfile" where
  "at_end bs = \<lparr>wf_data = bs, wf_pos = length bs\<rparr>"

lemma write_at_end [simp]: "wf_write d (at_end bs) = at_end (bs @ d)"
  by (simp add: at_end_def write_end)

lemma at_end_simps [simp]: "wf_data (at_end bs) = bs" "wf_pos (at_end bs) = length bs" "wf_new = at_end []"
  by (simp_all add: at_end_def wf_new_def)

lemma length_write_gguf_string [simp]: "length (write_gguf_string s) = 8 + length s"
  by (simp add: write_gguf_string_def)

text \<open>The size computed for a value is the number of bytes written for it.\<close>

lemma length_write_gguf_value [simp]: "length (write_gguf_value cd v) = gguf_value_size v"
proof (induction cd v rule: write_gguf_value.induct)
  case (13 cd arr)
  then have "map (\<lambda>v. length (write_gguf_value cd v)) arr = map gguf_value_size arr" by (intro map_cong) auto
  then have "map (\<lambda>v. length (write_gguf_value cd v)) arr = map gguf_value_size arr" by (intro map_cong) auto
  then have "sum_list (map (\<lambda>v. length (write_gguf_value cd v)) arr) = sum_list (map gguf_value_size arr)"
    by (rule arg_cong)
  then show ?case by (simp add: length_concat o_def del: length_map)
qed simp_all

definition pair_bytes :: "candle \<Rightarrow> string \<times> gguf_value \<Rightarrow> bytes" where
  "pair_bytes cd p = write_gguf_string (fst p) @ u32_to_le (cd_value_type cd (snd p)) @ write_gguf_value cd (snd p)"

lemma write_pairs: "fold (write_pair cd) md (at_end bs) = at_end (bs @ concat (map (pair_bytes cd) md))"
  by (induction md arbitrary: bs) (simp_all add: write_pair_def pair_bytes_def)

lemma metadata_end_eq: "metadata_end md pos = pos + length (concat (map (pair_bytes cd) md))"
  by (induction md pos rule: metadata_end.induct) (simp_all add: pair_bytes_def)

text \<open>A tensor info up to its offset.\<close>

definition info_head :: "string \<times> TensorInfo \<Rightarrow> bytes" where
  "info_head t = info_shape (fst t) (snd t) @ u32_to_le (the (dtype_u32 (ti_dtype (snd t))))"

definition supported :: "Content \<Rightarrow> bool" where
  "supported c \<longleftrightarrow> list_all (\<lambda>t. dtype_u32 (ti_dtype (snd t)) \<noteq> None) (tensor_infos c)"

lemma length_info_head: "length (info_head t) = (8 + length (fst t)) + 4 + length (ti_dims (snd t)) * 8 + 4"
proof -
  have "length (concat (map (\<lambda>d. u64_to_le (of_nat d)) ds)) = length ds * 8" for ds by (induction ds) simp_all
  then show ?thesis by (simp add: info_head_def info_shape_def)
qed

lemma write_infos_ok:
  "list_all (\<lambda>t. dtype_u32 (ti_dtype (snd t)) \<noteq> None) ts \<Longrightarrow>
   write_infos cd ts (at_end bs) =
     (Inr (map (size_in_bytes cd \<circ> snd) ts), at_end (bs @ concat (map (\<lambda>t. info_head t @ u64_to_le 0) ts)))"
proof (induction ts arbitrary: bs)
  case (Cons t ts)
  obtain name info where t: "t = (name, info)" by fastforce
  obtain code where code: "dtype_u32 (ti_dtype info) = Some code" using Cons.prems t by auto
  show ?case using Cons.IH [of "bs @ info_head t @ u64_to_le 0"] Cons.prems
    by (simp add: t code info_head_def Let_def)
qed simp

text \<open>The offsets the second pass fills in: running sums of the padded sizes.\<close>

fun running_offsets :: "nat \<Rightarrow> nat list \<Rightarrow> nat list" where
  "running_offsets offset [] = []"
| "running_offsets offset (sz # sizes) = offset # running_offsets (offset + (sz + pad32 sz)) sizes"

lemma patch_offsets_ok:
  "length sizes = length ts \<Longrightarrow>
   wf_data (patch_offsets (zip (offset_positions ts (length h)) sizes) offset
     \<lparr>wf_data = h @ concat (map (\<lambda>t. info_head t @ u64_to_le 0) ts) @ r, wf_pos = p\<rparr>)
   = h @ concat (map2 (\<lambda>t off. info_head t @ u64_to_le (of_nat off)) ts (running_offsets offset sizes)) @ r"
proof (induction sizes ts arbitrary: h offset p rule: list_induct2)
  case (Cons sz sizes t ts)
  obtain name info where t: "t = (name, info)" by fastforce
  let ?pos = "length h + length (info_head t)"
  let ?h = "h @ info_head t @ u64_to_le (of_nat offset)"
  let ?rest = "concat (map (\<lambda>t. info_head t @ u64_to_le 0) ts) @ r"
  have pos: "offset_positions (t # ts) (length h) = ?pos # offset_positions ts (length ?h)"
    by (simp add: t length_info_head Let_def ac_simps)
  have patched: "wf_write (u64_to_le (of_nat offset)) (wf_seek ?pos
      \<lparr>wf_data = h @ (info_head t @ u64_to_le 0) @ ?rest, wf_pos = p\<rparr>) = \<lparr>wf_data = ?h @ ?rest, wf_pos = ?pos + 8\<rparr>"
    by (simp add: wf_write_def wf_seek_def Let_def)
  show ?case using Cons.IH [of ?h "offset + (sz + pad32 sz)" "?pos + 8"] patched by (simp add: pos)
qed simp

lemma copy_loop_eq: "copy_loop sched i src (at_end bs) = at_end (bs @ src)"
proof (induction "length src" arbitrary: i src bs rule: less_induct)
  case less
  define n where "n = read_count (sched i) 8388608 src"
  show ?case
  proof (cases "n = 0")
    case True
    then have "src = []" by (simp add: n_def read_count_0)
    with True show ?thesis by (simp add: copy_loop.simps [of sched i] n_def)
  next
    case False
    then have "src \<noteq> []" by (auto simp: n_def read_count_0)
    then have "length (drop n src) < length src" by (simp add: n_def)
    from less [OF this, of "Suc i" "bs @ take n src"] False show ?thesis
      by (simp add: copy_loop.simps [of sched i] n_def Let_def)
  qed
qed

text \<open>The specification of the file: header, metadata, tensor infos with the offsets they are read
  back with, padding to 32 bytes, and the data of the original in one piece.\<close>

definition pgguf_offsets :: "candle \<Rightarrow> Content \<Rightarrow> nat list" where
  "pgguf_offsets cd c = running_offsets 0 (map (size_in_bytes cd \<circ> snd) (sorted_tensors c))"

definition pgguf_preamble :: "candle \<Rightarrow> Content \<Rightarrow> u32 \<Rightarrow> bitmap \<Rightarrow> bytes" where
  "pgguf_preamble cd c mid bm =
     u32_to_le 0x46554747 @ u32_to_le 2 @ u64_to_le (of_nat (length (tensor_infos c))) @
     u64_to_le (of_nat (length (metadata c) + 2)) @
     concat (map (pair_bytes cd) (pgguf_metadata (metadata c) mid bm))"

definition pgguf_header :: "candle \<Rightarrow> Content \<Rightarrow> u32 \<Rightarrow> bitmap \<Rightarrow> bytes" where
  "pgguf_header cd c mid bm =
     pgguf_preamble cd c mid bm @
     concat (map2 (\<lambda>t off. info_head t @ u64_to_le (of_nat off)) (sorted_tensors c) (pgguf_offsets cd c))"

lemma length_sorted_tensors [simp]: "length (sorted_tensors c) = length (tensor_infos c)"
  by (simp add: sorted_tensors_def)

lemma length_pgguf_metadata [simp]: "length (pgguf_metadata md mid bm) = length md + 2"
  by (simp add: pgguf_metadata_def)

lemma length_running [simp]: "length (running_offsets o' ss) = length ss"
  by (induction ss arbitrary: o') simp_all

lemma length_infos:
  "length offs = length ts \<Longrightarrow> length (concat (map2 (\<lambda>t off. info_head t @ u64_to_le (of_nat off)) ts offs))
     = length (concat (map (\<lambda>t. info_head t @ u64_to_le 0) ts))"
  by (induction offs ts rule: list_induct2) simp_all

lemma pad32_0 [simp]: "(if pad32 n > 0 then wf_write (replicate (pad32 n) 0) (at_end bs) else at_end bs)
    = at_end (bs @ replicate (pad32 n) 0)"
  by simp

lemma streaming_write_layout:
  assumes "supported c"
  shows "streaming_write_pgguf cd sched src c mid bm =
    (Inr (), pgguf_header cd c mid bm @ replicate (pad32 (length (pgguf_header cd c mid bm))) 0 @ drop (tensor_data_offset c) src)"
proof -
  let ?md = "pgguf_metadata (metadata c) mid bm" and ?ts = "sorted_tensors c"
  let ?p = "pgguf_preamble cd c mid bm" and ?sizes = "map (size_in_bytes cd \<circ> snd) (sorted_tensors c)"
  let ?zero = "concat (map (\<lambda>t. info_head t @ u64_to_le 0) ?ts)"
  let ?pad = "replicate (pad32 (length (?p @ ?zero))) (0 :: u8)"
  have ts: "list_all (\<lambda>t. dtype_u32 (ti_dtype (snd t)) \<noteq> None) ?ts"
    using assms by (simp add: supported_def sorted_tensors_def list_all_iff)
  have w: "fold (write_pair cd) ?md (wf_write (u64_to_le (of_nat (length ?md)))
      (wf_write (u64_to_le (of_nat (length ?ts))) (wf_write (u32_to_le 2) (wf_write (u32_to_le 0x46554747) wf_new))))
      = at_end ?p"
    by (simp add: write_pairs pgguf_preamble_def)
  have inf: "write_infos cd ?ts (at_end ?p) = (Inr ?sizes, at_end (?p @ ?zero))"
    by (rule write_infos_ok [OF ts])
  have pos: "metadata_end ?md 24 = length ?p"
    by (simp add: metadata_end_eq [of _ _ cd] pgguf_preamble_def)
  have patch: "wf_data (patch_offsets (zip (offset_positions ?ts (length ?p)) ?sizes) 0 (at_end (?p @ ?zero @ ?pad)))
      = pgguf_header cd c mid bm @ ?pad"
    using patch_offsets_ok [of ?sizes ?ts ?p 0 ?pad "length (?p @ ?zero @ ?pad)"]
    by (simp add: at_end_def pgguf_header_def pgguf_offsets_def)
  have len: "length (pgguf_header cd c mid bm) = length (?p @ ?zero)"
    using length_infos [of "pgguf_offsets cd c" ?ts] by (simp add: pgguf_header_def pgguf_offsets_def)
  have seek: "wf_seek (length (?p @ ?zero @ ?pad)) (patch_offsets (zip (offset_positions ?ts (length ?p)) ?sizes) 0 (at_end (?p @ ?zero @ ?pad)))
      = at_end (pgguf_header cd c mid bm @ ?pad)"
    using patch len by (simp add: wf_seek_def at_end_def)
  show ?thesis
    unfolding streaming_write_pgguf_def Let_def w inf pos prod.case sum.case
    unfolding at_end_simps pad32_0 append_assoc seek copy_loop_eq len by simp
qed

text \<open>An unsupported element type is reported, whatever has been written.\<close>

lemma write_infos_unsupported:
  "\<not> list_all (\<lambda>t. dtype_u32 (ti_dtype (snd t)) \<noteq> None) ts \<Longrightarrow>
   \<exists>d w'. write_infos cd ts w = (Inl (Ge_Dtype d), w')"
proof (induction cd ts w rule: write_infos.induct)
  case (2 cd name info ts w)
  then show ?case by (fastforce simp: Let_def split: option.splits prod.splits sum.splits)
qed simp

lemma streaming_write_unsupported:
  assumes "\<not> supported c"
  shows "\<exists>d. fst (streaming_write_pgguf cd sched src c mid bm) = Inl (Ge_Dtype d)"
proof -
  have "\<not> list_all (\<lambda>t. dtype_u32 (ti_dtype (snd t)) \<noteq> None) (sorted_tensors c)"
    using assms by (simp add: supported_def sorted_tensors_def list_all_iff)
  then have "\<exists>d w'. write_infos cd (sorted_tensors c) w = (Inl (Ge_Dtype d), w')" for w
    by (rule write_infos_unsupported)
  then show ?thesis
    unfolding streaming_write_pgguf_def Let_def
    by (metis (no_types, lifting) fst_conv old.prod.case old.sum.simps(5))
qed

section \<open>Reading tensors back\<close>

text \<open>Where a reader of the format finds a tensor: \<open>offset\<close> bytes into the data section.\<close>

definition tensor_bytes_at :: "bytes \<Rightarrow> nat \<Rightarrow> nat \<Rightarrow> nat \<Rightarrow> bytes" where
  "tensor_bytes_at contents data_start offset sz = take sz (drop (data_start + offset) contents)"

definition pgguf_data_start :: "candle \<Rightarrow> Content \<Rightarrow> u32 \<Rightarrow> bitmap \<Rightarrow> nat" where
  "pgguf_data_start cd c mid bm =
     length (pgguf_header cd c mid bm) + pad32 (length (pgguf_header cd c mid bm))"

lemma written_tensor:
  assumes "supported c"
  shows "tensor_bytes_at (snd (streaming_write_pgguf cd sched src c mid bm)) (pgguf_data_start cd c mid bm) off sz
       = tensor_bytes_at src (tensor_data_offset c) off sz"
  unfolding streaming_write_layout [OF assms] by (simp add: tensor_bytes_at_def pgguf_data_start_def add.commute)

lemma running_offsets_const:
  "\<forall>s \<in> set ss. s + pad32 s = m \<Longrightarrow> i < length ss \<Longrightarrow> running_offsets o' ss ! i = o' + i * m"
proof (induction ss arbitrary: o' i)
  case (Cons s ss)
  then show ?case by (cases i) auto
qed simp

section \<open>Conversion on first analysis\<close>

text \<open>\<open>Path::with_extension("pgguf")\<close>: what follows the last dot of the last component is replaced; a
  component without a dot, or with only a leading one, gets the extension appended.\<close>

definition with_pgguf :: "string \<Rightarrow> string" where
  "with_pgguf path =
     (let r = rev path;
          n = takeWhile (\<lambda>ch. ch \<noteq> CHR ''/'') r;
          d = dropWhile (\<lambda>ch. ch \<noteq> CHR ''/'') r;
          stem = tl (dropWhile (\<lambda>ch. ch \<noteq> CHR ''.'') n)
      in if stem = [] then path @ ''.pgguf'' else rev d @ rev stem @ ''.pgguf'')"

text \<open>What the hasher is fed: names in order, each followed by its dimensions.\<close>

definition id_bytes :: "Content \<Rightarrow> bytes" where
  "id_bytes c = concat (map (\<lambda>(name, info). as_bytes name @ concat (map (\<lambda>d. u64_to_le (of_nat d)) (ti_dims info))) (sorted_tensors c))"

text \<open>The layer numbers that occur in the file.\<close>

definition present_layers :: "Content \<Rightarrow> (nat \<times> unit) list" where
  "present_layers c = List.map_filter (\<lambda>(name, _). map_option (\<lambda>l. (l, ())) (layer_of name)) (tensor_infos c)"

text \<open>
  \<open>hash\<close> is \<open>xxhash32\<close> with seed 0 and \<open>read_content\<close> the library's parser. Creating the output file
  truncates it; when its path is the one of the input (a \<open>.pgguf\<close> file without a model id),
  the rest of the input is read from the file just truncated, and \<open>after_truncate\<close> is what that gives.
\<close>

definition GGUF_Analyze_And_Convert ::
  "candle \<Rightarrow> (bytes \<Rightarrow> Content option) \<Rightarrow> (bytes \<Rightarrow> u32) \<Rightarrow> (nat \<Rightarrow> nat) \<Rightarrow> bytes \<Rightarrow> string \<Rightarrow> (string \<times> bytes) list \<Rightarrow>
   (gguf_error + Model_Arch_Info \<times> string) \<times> (string \<times> bytes) list" where
  "GGUF_Analyze_And_Convert cd read_content hash sched after_truncate path disk =
     (case rbind (ok_or Ge_Open (map_of disk path)) (\<lambda>src. rbind (ok_or Ge_Parse (read_content src)) (\<lambda>c. Inr (src, c))) of
        Inl e \<Rightarrow> (Inl e, disk)
      | Inr (src, c) \<Rightarrow>
          let info = GGUF_Analyze_From_Content cd c;
              existing_id = Get_Metadata_Usize cd (metadata c) ''pleiades.model_id'';
              existing_bitmap = Get_Metadata_String cd (metadata c) ''pleiades.layer_bitmap''
          in if weight_format info = Some ''safetensors'' then
               (case map_option Parse_Bitmap_Hex existing_bitmap of
                  Some (Inl _) \<Rightarrow> (Inl Ge_Bitmap_Panic, disk)
                | Some (Inr bm) \<Rightarrow>
                    (Inr (info\<lparr>model_id := map_option of_nat existing_id, layer_bitmap := Some bm\<rparr>, path), disk)
                | None \<Rightarrow> (Inr (info\<lparr>model_id := map_option of_nat existing_id, layer_bitmap := None\<rparr>, path), disk))
             else case (existing_id, existing_bitmap) of
               (Some i, Some hex_bitmap) \<Rightarrow>
                 (case Parse_Bitmap_Hex hex_bitmap of
                    Inl _ \<Rightarrow> (Inl Ge_Bitmap_Panic, disk)
                  | Inr bm \<Rightarrow> (Inr (info\<lparr>model_id := Some (of_nat i), layer_bitmap := Some bm\<rparr>, path), disk))
             | _ \<Rightarrow>
                 let mid = hash (id_bytes c);
                     bm = Build_Layer_Bitmap (present_layers c) (num_layers info);
                     pgguf_path = with_pgguf path;
                     reader = (if pgguf_path = path then after_truncate else src);
                     written = streaming_write_pgguf cd sched reader c mid bm;
                     disk = AList.update pgguf_path (snd written) disk
                 in case fst written of
                      Inl e \<Rightarrow> (Inl e, disk)
                    | Inr _ \<Rightarrow> (Inr (info\<lparr>model_id := Some mid, layer_bitmap := Some bm\<rparr>, pgguf_path), AList.delete path disk))"

definition analyze_model ::
  "candle \<Rightarrow> (bytes \<Rightarrow> Content option) \<Rightarrow> (bytes \<Rightarrow> u32) \<Rightarrow> (nat \<Rightarrow> nat) \<Rightarrow> bytes \<Rightarrow> string \<Rightarrow> (string \<times> bytes) list \<Rightarrow>
   (gguf_error + Model_Arch_Info) \<times> (string \<times> bytes) list" where
  "analyze_model cd read_content hash sched after_truncate path disk =
     (case GGUF_Analyze_And_Convert cd read_content hash sched after_truncate path disk of
        (Inl e, disk) \<Rightarrow> (Inl e, disk) | (Inr (info, _), disk) \<Rightarrow> (Inr info, disk))"

lemma with_pgguf_idem:
  assumes "CHR ''/'' \<notin> set stem" "stem \<noteq> []"
  shows "with_pgguf (dir @ ''/'' @ stem @ ''.pgguf'') = dir @ ''/'' @ stem @ ''.pgguf''"
proof -
  have "takeWhile (\<lambda>ch. ch \<noteq> CHR ''/'') (rev (dir @ ''/'' @ stem @ ''.pgguf'')) = rev ''.pgguf'' @ rev stem"
    "dropWhile (\<lambda>ch. ch \<noteq> CHR ''/'') (rev (dir @ ''/'' @ stem @ ''.pgguf'')) = CHR ''/'' # rev dir"
    using assms(1) by (simp_all add: takeWhile_append dropWhile_append)
  then show ?thesis using assms(2) by (simp add: with_pgguf_def Let_def)
qed

lemma pgguf_metadata_lookup:
  assumes "distinct (map fst md)"
  shows "map_of (rev (pgguf_metadata md mid bm)) k =
     (if k = ''pleiades.layer_bitmap'' then Some (Gv_String (Bitmap_To_Hex bm))
      else if k = ''pleiades.model_id'' then Some (Gv_U32 mid)
      else map_option normalize_value (map_of md k))"
proof -
  have "distinct (map fst (map (\<lambda>(k, v). (k, normalize_value v)) md))" using assms by (simp add: o_def case_prod_beta)
  from map_of_rev_distinct [OF this]
  have "map_of (rev (map (\<lambda>(k, v). (k, normalize_value v)) md)) = map_option normalize_value \<circ> map_of md"
    by (simp add: map_of_map)
  then show ?thesis unfolding pgguf_metadata_def map_of_rev_sort by simp
qed

definition content_bitmap :: "candle \<Rightarrow> Content \<Rightarrow> bitmap" where
  "content_bitmap cd c = Build_Layer_Bitmap (present_layers c) (num_layers (GGUF_Analyze_From_Content cd c))"

lemma length_Build_Layer_Bitmap [simp]: "length (Build_Layer_Bitmap m n) = 32"
  by (simp add: Build_Layer_Bitmap_def)

section \<open>Properties\<close>

text \<open>C6: The two-pass writer is right about its own layout: although it computes the places of the
  offset fields from the sizes of the values instead of remembering them, the offsets it fills in
  land exactly on their placeholders. The file is header, metadata, tensor infos with running
  offsets, padding to 32 bytes and the unchanged data section, for every pattern of short reads.\<close>

theorem pgguf_two_pass_layout:
  assumes "supported c"
  shows "streaming_write_pgguf cd sched src c mid bm =
    (Inr (), pgguf_header cd c mid bm @ replicate (pad32 (length (pgguf_header cd c mid bm))) 0 @ drop (tensor_data_offset c) src)"
  by (rule streaming_write_layout [OF assms])

lemma demo_supported: "supported demo_content"
  by (simp add: supported_def demo_content_def demo_info_def dtype_u32_def)

theorem pgguf_two_pass_layout_witness:
  "streaming_write_pgguf demo_candle (\<lambda>_. 1) [1, 2, 3] demo_content 7 (replicate 32 3) =
    (Inr (), pgguf_header demo_candle demo_content 7 (replicate 32 3) @
       replicate (pad32 (length (pgguf_header demo_candle demo_content 7 (replicate 32 3)))) 0 @
       drop (tensor_data_offset demo_content) [1, 2, 3])"
  by (rule pgguf_two_pass_layout) (rule demo_supported)

text \<open>When the original file has its tensors one after another in the order of their names, each
  padded to 32 bytes, the converted file has every tensor's bytes where its header says.\<close>

theorem pgguf_keeps_sorted_file:
  assumes "supported c" "map (ti_offset \<circ> snd) (sorted_tensors c) = pgguf_offsets cd c"
    and "i < length (tensor_infos c)"
  shows "tensor_bytes_at (snd (streaming_write_pgguf cd sched src c mid bm)) (pgguf_data_start cd c mid bm)
           (pgguf_offsets cd c ! i) (size_in_bytes cd (snd (sorted_tensors c ! i)))
       = tensor_bytes_at src (tensor_data_offset c)
           (ti_offset (snd (sorted_tensors c ! i))) (size_in_bytes cd (snd (sorted_tensors c ! i)))"
proof -
  have "pgguf_offsets cd c ! i = ti_offset (snd (sorted_tensors c ! i))"
    using assms(3) unfolding assms(2) [symmetric] by simp
  then show ?thesis by (simp add: written_tensor [OF assms(1)])
qed


text \<open>Two tensors, \<open>b\<close> before \<open>a\<close> in the file.\<close>

definition swapped_content :: Content where
  "swapped_content = \<lparr>metadata = [],
     tensor_infos = [(''b'', \<lparr>ti_dims = [8], ti_dtype = Gt_F32, ti_offset = 0\<rparr>),
                     (''a'', \<lparr>ti_dims = [8], ti_dtype = Gt_F32, ti_offset = 32\<rparr>)],
     tensor_data_offset = 0\<rparr>"


text \<open>A \<open>.pgguf\<close> file without a model id does not survive its analysis: the conversion writes to the
  file it reads from and then removes the original, which is the same file.\<close>

theorem conversion_destroys_unnamed_pgguf:
  assumes "map_of disk path = Some src" "read_content src = Some c" "supported c"
    and "Get_Metadata_String cd (metadata c) ''pleiades.weight_format'' \<noteq> Some ''safetensors''"
    and "Get_Metadata_Usize cd (metadata c) ''pleiades.model_id'' = None"
    and "path = dir @ ''/'' @ stem @ ''.pgguf''" "CHR ''/'' \<notin> set stem" "stem \<noteq> []"
  shows "map_of (snd (GGUF_Analyze_And_Convert cd read_content hash sched after_truncate path disk)) path = None"
proof -
  have "with_pgguf path = path" unfolding assms(6) by (rule with_pgguf_idem [OF assms(7,8)])
  moreover have "weight_format (GGUF_Analyze_From_Content cd c) \<noteq> Some ''safetensors''"
    using assms(4) by (simp add: GGUF_Analyze_From_Content_def Let_def)
  ultimately show ?thesis
    using assms(1,2,5) by (simp add: GGUF_Analyze_And_Convert_def Let_def streaming_write_layout [OF assms(3)] store_simps)
qed

theorem conversion_destroys_unnamed_pgguf_witness:
  "map_of (snd (GGUF_Analyze_And_Convert demo_candle (\<lambda>_. Some demo_content) (\<lambda>_. 5) (\<lambda>_. 1) []
     ''models/m.pgguf'' [(''models/m.pgguf'', [1, 2, 3])])) ''models/m.pgguf'' = None"
  by (rule conversion_destroys_unnamed_pgguf [where dir = "''models''" and stem = "''m''" and c = demo_content])
    (simp_all add: demo_supported, simp_all add: demo_content_def Get_Metadata_String_def Get_Metadata_Usize_def)



end
