(* ===== verification/Model_Peers.thy ===== *)
theory Model_Peers
  imports GGUF Storage Commands "HOL-Library.Product_Lexorder"
begin

text \<open>
  The planning data scripts get from \<open>network.list_model_peers\<close> (\<open>Src/VM/capability_binding.rs\<close>):
  for a model, which node holds which range of its layers. Ranges are read off split file names or
  layer bitmaps and, node by node, overlapping ones are merged. Layer numbers are \<open>u32\<close>; layer 0 is
  the embedding, 1 to N the blocks and N + 1 the output.
\<close>

section \<open>Ranges of a single file\<close>

text \<open>\<open>rfind\<close>: what follows the last occurrence of a non-empty marker.\<close>

fun after_last :: "string \<Rightarrow> string \<Rightarrow> string option" where
  "after_last marker [] = None"
| "after_last marker (c # cs) =
     (case after_last marker cs of
        Some r \<Rightarrow> Some r
      | None \<Rightarrow> if prefix marker (c # cs) then Some (drop (length marker) (c # cs)) else None)"

definition strip_suffix :: "string \<Rightarrow> string \<Rightarrow> string" where
  "strip_suffix sfx name = (if suffix sfx name then take (length name - length sfx) name else name)"

definition parse_split_range :: "string \<Rightarrow> (u32 \<times> u32) option" where
  "parse_split_range name =
     (case after_last ''_split_'' (strip_suffix ''.pgguf'' name) of
        None \<Rightarrow> None
      | Some range_part \<Rightarrow>
          let parts = split_on (CHR ''_'') range_part in
          if length parts = 2 then
            (case (parse_u32 (parts ! 0), parse_u32 (parts ! 1)) of
               (Inr s, Inr e) \<Rightarrow> Some (s, e)
             | _ \<Rightarrow> None)
          else None)"

definition adjust_range :: "u32 \<Rightarrow> u32 \<Rightarrow> string \<Rightarrow> u32 option \<Rightarrow> u32 \<times> u32" where
  "adjust_range min_bit max_bit file_name nl =
     (case parse_split_range file_name of
        Some r \<Rightarrow> r
      | None \<Rightarrow>
          (case nl of
             Some n \<Rightarrow> if n > 0 \<and> max_bit - min_bit + 1 \<ge> n then (0, n + 1) else (min_bit, max_bit)
           | None \<Rightarrow> (min_bit, max_bit)))"

definition bitmap_bits :: "bitmap \<Rightarrow> u32 \<times> u32" where
  "bitmap_bits bm = (case bitmap_range bm of (a, b) \<Rightarrow> (of_nat a, of_nat b))"

section \<open>Collecting the files of a model\<close>

record RawEntry =
  re_peer_id :: peer_id
  re_name :: string
  re_file_name :: string
  re_model_id :: u32
  re_min_bit :: u32
  re_max_bit :: u32
  re_num_layers :: "u32 option"
  re_latency :: "u64 option"

definition storage_layers :: "u32 \<Rightarrow> FileEntry list \<Rightarrow> (string \<times> u32) list" where
  "storage_layers mid entries =
     fold (\<lambda>e. if fe_model_id e = Some mid then AList.update (fe_file_name e) (unwrap_or 0 (fe_num_layers e)) else id)
       entries []"

definition peer_entry :: "(string \<times> u32) list \<Rightarrow> PeerInfo \<Rightarrow> SupportedModel \<Rightarrow> RawEntry" where
  "peer_entry known p m =
     \<lparr>re_peer_id = pi_peer_id p, re_name = pi_name p, re_file_name = sm_file_name m, re_model_id = sm_id m,
      re_min_bit = fst (bitmap_bits (sm_layer_bitmap m)), re_max_bit = snd (bitmap_bits (sm_layer_bitmap m)),
      re_num_layers = map_of known (sm_file_name m), re_latency = latency_ms (pi_profile p)\<rparr>"

definition peer_entries :: "u32 \<Rightarrow> (string \<times> u32) list \<Rightarrow> PeerInfo list \<Rightarrow> RawEntry list" where
  "peer_entries mid known peers =
     concat (map (\<lambda>p. map (peer_entry known p) (filter (\<lambda>m. sm_id m = mid) (pi_supported_models p))) peers)"

definition local_entry :: "u32 \<Rightarrow> PeerInfo \<Rightarrow> FileEntry \<Rightarrow> RawEntry" where
  "local_entry mid local fe =
     (case (case fe_layer_bitmap fe of Some b \<Rightarrow> bitmap_bits b | None \<Rightarrow> (0, 0)) of
        (min_bit, max_bit) \<Rightarrow>
          \<lparr>re_peer_id = pi_peer_id local, re_name = pi_name local, re_file_name = fe_file_name fe, re_model_id = mid,
           re_min_bit = min_bit, re_max_bit = max_bit, re_num_layers = fe_num_layers fe, re_latency = None\<rparr>)"

text \<open>Files of the storage that no peer entry names are added for the local node.\<close>

definition collect_entries :: "u32 \<Rightarrow> FileEntry list \<Rightarrow> peer_map \<Rightarrow> RawEntry list" where
  "collect_entries mid listing peers =
     (let known = storage_layers mid listing;
          entries = peer_entries mid known (get_all_peers peers);
          seen_files = map re_file_name entries
      in entries @
         (case Get_Local_Peer peers of
            Inl _ \<Rightarrow> []
          | Inr local \<Rightarrow>
              map (local_entry mid local)
                (filter (\<lambda>fe. fe_file_name fe \<notin> set seen_files \<and> fe_model_id fe = Some mid) listing)))"

section \<open>Merging\<close>

record Ranged =
  rg_peer_id :: peer_id
  rg_name :: string
  rg_file_name :: string
  rg_model_id :: u32
  rg_start :: u32
  rg_end :: u32
  rg_latency :: "u64 option"

definition to_ranged :: "RawEntry \<Rightarrow> Ranged" where
  "to_ranged re =
     (case adjust_range (re_min_bit re) (re_max_bit re) (re_file_name re) (re_num_layers re) of
        (s, e) \<Rightarrow> \<lparr>rg_peer_id = re_peer_id re, rg_name = re_name re, rg_file_name = re_file_name re,
                   rg_model_id = re_model_id re, rg_start = s, rg_end = e, rg_latency = re_latency re\<rparr>)"

text \<open>\<open>sort_by\<close> is stable: by start, then by end downwards.\<close>

definition range_key :: "Ranged \<Rightarrow> nat \<times> nat" where
  "range_key r = (unat (rg_start r), 4294967295 - unat (rg_end r))"

definition width :: "Ranged \<Rightarrow> int" where
  "width r = uint (rg_end r) - uint (rg_start r)"

text \<open>The inner loop: the end of the union so far, the widest entry so far and its width.\<close>

fun absorb :: "u32 \<Rightarrow> Ranged \<Rightarrow> int \<Rightarrow> Ranged list \<Rightarrow> u32 \<times> Ranged \<times> Ranged list" where
  "absorb cur_end best best_width [] = (cur_end, best, [])"
| "absorb cur_end best best_width (r # rs) =
     (if rg_start r \<le> cur_end then
        let cur_end = (if rg_end r > cur_end then rg_end r else cur_end);
            w = width r
        in if w > best_width then absorb cur_end r w rs else absorb cur_end best best_width rs
      else (cur_end, best, r # rs))"

definition merged_entry :: "Ranged \<Rightarrow> Ranged \<Rightarrow> u32 \<Rightarrow> RawEntry" where
  "merged_entry first best cur_end =
     \<lparr>re_peer_id = rg_peer_id first, re_name = rg_name first, re_file_name = rg_file_name best,
      re_model_id = rg_model_id first, re_min_bit = rg_start first, re_max_bit = cur_end,
      re_num_layers = None, re_latency = rg_latency first\<rparr>"

lemma absorb_shorter: "absorb e b w rs = (e', b', rest) \<Longrightarrow> length rest \<le> length rs"
  by (induction e b w rs rule: absorb.induct) (fastforce simp: Let_def split: if_splits)+

function merge_group :: "Ranged list \<Rightarrow> RawEntry list" where
  "merge_group [] = []"
| "merge_group (r # rs) =
     (case absorb (rg_end r) r (width r) rs of
        (cur_end, best, rest) \<Rightarrow> merged_entry r best cur_end # merge_group rest)"
  by pat_completeness auto
termination
  by (relation "measure length") (auto dest: absorb_shorter [OF sym] simp: less_Suc_eq_le)

text \<open>The groups come out of a hash map; \<open>order\<close> is the order of its keys.\<close>

definition merge_entries :: "(peer_id list \<Rightarrow> peer_id list) \<Rightarrow> RawEntry list \<Rightarrow> RawEntry list" where
  "merge_entries order entries =
     (let ranged = map to_ranged entries;
          keys = order (remdups (map rg_peer_id ranged))
      in concat (map (\<lambda>k. merge_group (sort_key range_key (filter (\<lambda>r. rg_peer_id r = k) ranged))) keys))"

definition list_model_peers ::
  "(peer_id list \<Rightarrow> peer_id list) \<Rightarrow> u32 \<Rightarrow> FileEntry list \<Rightarrow> peer_map \<Rightarrow> RawEntry list" where
  "list_model_peers order mid listing peers = merge_entries order (collect_entries mid listing peers)"

section \<open>What merging keeps\<close>

definition covered :: "Ranged \<Rightarrow> u32 set" where
  "covered r = {rg_start r..rg_end r}"

definition entry_layers :: "RawEntry \<Rightarrow> u32 set" where
  "entry_layers e = {re_min_bit e..re_max_bit e}"

definition absorbed :: "u32 \<Rightarrow> u32 \<Rightarrow> Ranged list \<Rightarrow> u32 \<Rightarrow> Ranged list \<Rightarrow> bool" where
  "absorbed s e rs e' rest \<longleftrightarrow>
     {s..e'} \<union> \<Union> (covered ` set rest) = {s..e} \<union> \<Union> (covered ` set rs) \<and>
     (\<forall>r \<in> set rest. e' < rg_start r) \<and> sorted (map rg_start rest) \<and> set rest \<subseteq> set rs"

lemma absorbed_step:
  assumes "absorbed s (if rg_end r > e then rg_end r else e) rs e' rest" "s \<le> rg_start r" "rg_start r \<le> e"
  shows "absorbed s e (r # rs) e' rest"
proof -
  have "{s..if rg_end r > e then rg_end r else e} = {s..e} \<union> covered r"
    using assms(2,3) by (auto simp: covered_def)
  with assms(1) show ?thesis unfolding absorbed_def by auto
qed

lemma absorb_absorbed:
  "absorb e b w rs = (e', b', rest) \<Longrightarrow> \<forall>r \<in> set rs. s \<le> rg_start r \<Longrightarrow> sorted (map rg_start rs) \<Longrightarrow>
     absorbed s e rs e' rest"
proof (induction rs arbitrary: e b w)
  case Nil
  then show ?case by (simp add: absorbed_def)
next
  case (Cons r rs)
  show ?case
  proof (cases "rg_start r \<le> e")
    case True
    then obtain b1 w1 where "absorb (if rg_end r > e then rg_end r else e) b1 w1 rs = (e', b', rest)"
      using Cons.prems(1) by (cases "width r > w") (auto simp: Let_def)
    then have "absorbed s (if rg_end r > e then rg_end r else e) rs e' rest"
      by (rule Cons.IH) (use Cons.prems in simp_all)
    then show ?thesis by (rule absorbed_step) (use Cons.prems True in simp_all)
  next
    case False
    then have "e' = e" "rest = r # rs" using Cons.prems(1) by simp_all
    then show ?thesis using False Cons.prems(3) by (auto simp: absorbed_def)
  qed
qed

lemma absorb_covers:
  assumes "absorb e b w rs = (e', b', rest)" "\<forall>r \<in> set rs. s \<le> rg_start r" "sorted (map rg_start rs)"
  shows "{s..e'} \<union> \<Union> (covered ` set rest) = {s..e} \<union> \<Union> (covered ` set rs)"
    and "\<forall>r \<in> set rest. e' < rg_start r" and "sorted (map rg_start rest)" and "set rest \<subseteq> set rs"
  using absorb_absorbed [OF assms] unfolding absorbed_def by blast+

lemma merge_group_covers:
  assumes "sorted (map rg_start rs)"
  shows "\<Union> (entry_layers ` set (merge_group rs)) = \<Union> (covered ` set rs)"
    and "sorted_wrt (\<lambda>a b. re_max_bit a < re_min_bit b) (merge_group rs)"
    and "\<forall>m \<in> set (merge_group rs). \<exists>r \<in> set rs. re_min_bit m = rg_start r"
  using assms
proof (induction rs rule: merge_group.induct)
  case (2 r rs)
  obtain e b rest where ab: "absorb (rg_end r) r (width r) rs = (e, b, rest)" by (metis prod.collapse)
  {
    case 1
    then have "\<forall>q \<in> set rs. rg_start r \<le> rg_start q" "sorted (map rg_start rs)" by auto
    note a = absorb_covers [OF ab this]
    have "\<Union> (entry_layers ` set (merge_group rest)) = \<Union> (covered ` set rest)"
      by (rule "2.IH"(1) [OF ab [symmetric] refl a(3)])
    then show ?case using a(1) by (auto simp: ab entry_layers_def merged_entry_def covered_def)
  next
    case 2
    then have "\<forall>q \<in> set rs. rg_start r \<le> rg_start q" "sorted (map rg_start rs)" by auto
    note a = absorb_covers [OF ab this]
    show ?case
      using "2.IH"(2,3) [OF ab [symmetric] refl a(3)] a(2) by (fastforce simp: ab merged_entry_def)
  next
    case 3
    then have "\<forall>q \<in> set rs. rg_start r \<le> rg_start q" "sorted (map rg_start rs)" by auto
    note a = absorb_covers [OF ab this]
    show ?case
      using "2.IH"(3) [OF ab [symmetric] refl a(3)] a(4) by (fastforce simp: ab merged_entry_def)
  }
qed auto

lemma sorted_starts: "sorted (map rg_start (sort_key range_key rs))"
proof -
  have "sorted_wrt (\<lambda>a b. range_key a \<le> range_key b) (sort_key range_key rs)"
    using sorted_sort_key [of range_key rs] by (simp add: sorted_map)
  then have "sorted_wrt (\<lambda>a b. rg_start a \<le> rg_start b) (sort_key range_key rs)"
    by (rule sorted_wrt_mono_rel [rotated]) (auto simp: range_key_def less_eq_prod_def word_le_nat_alt)
  then show ?thesis by (simp add: sorted_map)
qed

lemma absorb_members:
  "absorb e b w rs = (e', b', rest) \<Longrightarrow> b' \<in> insert b (set rs) \<and> set rest \<subseteq> set rs"
proof (induction rs arbitrary: e b w)
  case (Cons r rs)
  show ?case
  proof (cases "rg_start r \<le> e")
    case True
    then have "\<exists>e1 b1 w1. absorb e1 b1 w1 rs = (e', b', rest) \<and> (b1 = b \<or> b1 = r)"
      using Cons.prems by (cases "width r > w") (simp_all add: Let_def, blast+)
    then obtain e1 b1 w1 where "absorb e1 b1 w1 rs = (e', b', rest)" and b1: "b1 = b \<or> b1 = r" by blast
    then have "b' \<in> insert b1 (set rs) \<and> set rest \<subseteq> set rs" by (metis Cons.IH)
    then show ?thesis using b1 by auto
  next
    case False
    then show ?thesis using Cons.prems by auto
  qed
qed simp

lemma merge_group_peer:
  "\<forall>r \<in> set rs. rg_peer_id r = k \<Longrightarrow> \<forall>m \<in> set (merge_group rs). re_peer_id m = k"
proof (induction rs rule: merge_group.induct)
  case (2 r rs)
  obtain e b rest where ab: "absorb (rg_end r) r (width r) rs = (e, b, rest)" by (metis prod.collapse)
  have "set rest \<subseteq> set rs" using absorb_members [OF ab] by simp
  then have "\<forall>m \<in> set (merge_group rest). re_peer_id m = k"
    by (intro "2.IH" [OF ab [symmetric] refl]) (use "2.prems" in auto)
  then show ?case using "2.prems" by (simp add: ab merged_entry_def)
qed simp

section \<open>What the planner tells scripts\<close>

lemma filter_concat_group:
  assumes "distinct keys" "\<And>k' m. m \<in> set (g k') \<Longrightarrow> re_peer_id m = k'"
  shows "filter (\<lambda>m. re_peer_id m = k) (concat (map g keys)) = (if k \<in> set keys then g k else [])"
  using assms(1)
proof (induction keys)
  case (Cons a keys)
  have "filter (\<lambda>m. re_peer_id m = k) (g a) = (if a = k then g k else [])"
    using assms(2) [of _ a] by (cases "a = k") (auto simp: filter_id_conv filter_empty_conv)
  then show ?case using Cons by auto
qed simp

definition of_peer :: "peer_id \<Rightarrow> RawEntry list \<Rightarrow> RawEntry list" where
  "of_peer k es = filter (\<lambda>e. re_peer_id e = k) es"

lemma rg_to_ranged [simp]: "rg_peer_id (to_ranged e) = re_peer_id e"
  by (simp add: to_ranged_def split: prod.splits)

lemma merge_peer_key:
  "m \<in> set (merge_group (sort_key range_key (filter (\<lambda>r. rg_peer_id r = k) rs))) \<Longrightarrow> re_peer_id m = k"
  using merge_group_peer [of "sort_key range_key (filter (\<lambda>r. rg_peer_id r = k) rs)" k] by auto

lemma merged_of_peer:
  assumes "\<And>ks. mset (order ks) = mset ks"
  shows "of_peer k (merge_entries order es) = merge_group (sort_key range_key (map to_ranged (of_peer k es)))"
proof -
  let ?g = "\<lambda>k. merge_group (sort_key range_key (filter (\<lambda>r. rg_peer_id r = k) (map to_ranged es)))"
  let ?keys = "order (remdups (map rg_peer_id (map to_ranged es)))"
  have ks: "set ?keys = re_peer_id ` set es" "distinct ?keys"
    using assms [of "remdups (map rg_peer_id (map to_ranged es))"]
    by (auto dest: mset_eq_setD mset_eq_imp_distinct_iff)
  have f: "filter (\<lambda>r. rg_peer_id r = k) (map to_ranged es) = map to_ranged (of_peer k es)"
    by (simp add: filter_map o_def of_peer_def)
  have "of_peer k (concat (map ?g ?keys)) = (if k \<in> set ?keys then ?g k else [])"
    unfolding of_peer_def by (rule filter_concat_group [OF ks(2)]) (rule merge_peer_key)
  moreover have "?g k = []" if "k \<notin> set ?keys"
  proof -
    have "of_peer k es = []" using that unfolding ks(1) by (auto simp: of_peer_def filter_empty_conv)
    then show ?thesis unfolding f by simp
  qed
  ultimately show ?thesis by (auto simp: merge_entries_def f Let_def)
qed


lemma after_last_none: "x \<notin> set s \<Longrightarrow> x \<in> set marker \<Longrightarrow> after_last marker s = None"
  by (induction s) (auto dest!: set_mono_prefix)

lemma after_last_append: "after_last marker t = Some r \<Longrightarrow> after_last marker (s @ t) = Some r"
  by (induction s) auto

lemma parse_u32_show: "n < 2 ^ 32 \<Longrightarrow> parse_u32 (show_nat n) = Inr (of_nat n)"
  by (simp add: parse_u32_def)

lemma digits_without: "c \<in> {CHR ''p'', CHR ''_'', CHR ''s''} \<Longrightarrow> c \<notin> set (show_nat n)"
  using show_nat_chars [of c n] by auto

lemma strip_suffix_append [simp]: "strip_suffix sfx (name @ sfx) = name"
  by (simp add: strip_suffix_def suffix_def)

text \<open>
  The file name a split is written under carries its range: \<open>parse_split_range\<close> reads the bounds
  back whatever the stem is, markers and digits included.
\<close>

theorem split_name_roundtrip:
  assumes "GGUF_Split_Model cd c load stem start stop keep_tokenizer = Inr out" "start < 2 ^ 32" "stop < 2 ^ 32"
  shows "parse_split_range (so_filename out) = Some (of_nat start, of_nat stop)"
proof -
  let ?range = "show_nat start @ CHR ''_'' # show_nat stop"
  have name: "so_filename out = (stem @ ''_split_'' @ ?range) @ ''.pgguf''"
    using assms(1) by (auto simp: GGUF_Split_Model_def rbind_eq_Inr Let_def split: if_splits)
  have "after_last ''_split_'' (''plit_'' @ ?range) = None"
    by (rule after_last_none [of "CHR ''s''"]) (use digits_without [of "CHR ''s''"] in auto)
  then have "after_last ''_split_'' (''_split_'' @ ?range) = Some ?range" by simp
  then have "after_last ''_split_'' (stem @ ''_split_'' @ ?range) = Some ?range" by (rule after_last_append)
  moreover have "split_on (CHR ''_'') ?range = [show_nat start, show_nat stop]"
    using digits_without [of "CHR ''_''"] by simp
  ultimately show ?thesis
    using assms(2,3) unfolding parse_split_range_def name strip_suffix_append
    by (simp add: parse_u32_show Let_def)
qed

text \<open>
  A merged entry is named after its widest file only: when neither of two overlapping files contains
  the other, the range reported under the file's name reaches past what the file holds.
\<close>

lemma merged_name_short:
  assumes "rg_start a \<le> rg_start b" "rg_start b \<le> rg_end a" "rg_end a < rg_end b" "width b \<le> width a"
  shows "merge_group [a, b] = [merged_entry a a (rg_end b)] \<and>
    rg_end b \<in> entry_layers (merged_entry a a (rg_end b)) - covered a"
  using assms by (auto simp: entry_layers_def merged_entry_def covered_def)

section \<open>Examples\<close>

definition demo_file :: "string \<Rightarrow> lock_id \<Rightarrow> FileEntry" where
  "demo_file name l = \<lparr>fe_file_name = name, fe_size = 0, fe_model_id = Some 7, fe_num_layers = None,
     fe_layer_bitmap = None, fe_architecture = None, fe_lock = l\<rparr>"

definition demo_listing :: "FileEntry list" where
  "demo_listing = [demo_file ''m_split_4_9.pgguf'' 0, demo_file ''m_split_0_5.pgguf'' 1,
     demo_file ''m_split_12_13.pgguf'' 2]"


theorem split_name_roundtrip_witness:
  "parse_split_range (so_filename demo_split) = Some (2, 2)"
  using split_name_roundtrip [OF demo_split_ok] by simp

end
