(* ===== verification/Transformer.thy ===== *)
theory Transformer
  imports Tensor_Bytes
begin

text \<open>
  The model implementations that are compiled: \<open>Src/ML_Engine/GGUF_Models/common\<close>, \<open>qwen3.rs\<close> and
  \<open>qwen3_moe.rs\<close>. The tensor library is a record of its operations over an abstract type of tensors;
  the functions below are the code's compositions of them, with every early return, and with the
  key-value caches as the state they change, also when they fail half way. What is proved does not
  depend on numerics: a model cut into stages that run one after the other, as nodes run their layer
  ranges, computes what the whole model computes.
\<close>

section \<open>The tensor library\<close>

text \<open>Floats are their bits. \<open>tl_inv_freq theta i dim\<close> is \<open>1 / theta.powf(i / dim)\<close> and \<open>tl_inv_sqrt d\<close> is
  \<open>1 / sqrt(d)\<close>, the float arithmetic of the language; \<open>tl_scale\<close> multiplies with an \<open>f64\<close>.\<close>

record ('t, 'q, 'w, 'c, 'e) tensor_lib =
  tl_msg :: "string \<Rightarrow> 'e"
  tl_rank_error :: "nat \<Rightarrow> 't \<Rightarrow> 'e"
  tl_dim_error :: "nat \<Rightarrow> 't \<Rightarrow> 'e"
  tl_dims :: "'t \<Rightarrow> nat list"
  tl_dtype :: "'t \<Rightarrow> tensor_dtype"
  tl_to_dtype :: "'t \<Rightarrow> tensor_dtype \<Rightarrow> 'e + 't"
  tl_reshape :: "'t \<Rightarrow> nat list \<Rightarrow> 'e + 't"
  tl_transpose :: "'t \<Rightarrow> nat \<Rightarrow> nat \<Rightarrow> 'e + 't"
  tl_flatten :: "'t \<Rightarrow> nat \<Rightarrow> nat \<Rightarrow> 'e + 't"
  tl_narrow :: "'t \<Rightarrow> nat \<Rightarrow> nat \<Rightarrow> nat \<Rightarrow> 'e + 't"
  tl_squeeze :: "'t \<Rightarrow> nat \<Rightarrow> 'e + 't"
  tl_contiguous :: "'t \<Rightarrow> 'e + 't"
  tl_matmul :: "'t \<Rightarrow> 't \<Rightarrow> 'e + 't"
  tl_add :: "'t \<Rightarrow> 't \<Rightarrow> 'e + 't"
  tl_mul :: "'t \<Rightarrow> 't \<Rightarrow> 'e + 't"
  tl_broadcast_add :: "'t \<Rightarrow> 't \<Rightarrow> 'e + 't"
  tl_scale :: "'t \<Rightarrow> u64 \<Rightarrow> 'e + 't"
  tl_softmax_last_dim :: "'t \<Rightarrow> 'e + 't"
  tl_silu :: "'t \<Rightarrow> 'e + 't"
  tl_sin :: "'t \<Rightarrow> 'e + 't"
  tl_cos :: "'t \<Rightarrow> 'e + 't"
  tl_rope :: "'t \<Rightarrow> 't \<Rightarrow> 't \<Rightarrow> 'e + 't"
  tl_repeat_kv :: "'t \<Rightarrow> nat \<Rightarrow> 'e + 't"
  tl_from_f32s :: "u32 list \<Rightarrow> nat list \<Rightarrow> device \<Rightarrow> 'e + 't"
  tl_arange :: "u32 \<Rightarrow> u32 \<Rightarrow> device \<Rightarrow> 'e + 't"
  tl_dequantize :: "'q \<Rightarrow> device \<Rightarrow> 'e + 't"
  tl_embedding :: "'t \<Rightarrow> nat \<Rightarrow> 't \<Rightarrow> 'e + 't"
  tl_qmatmul_from :: "'q \<Rightarrow> 'e + 'w"
  tl_qmatmul :: "'w \<Rightarrow> 't \<Rightarrow> 'e + 't"
  tl_rmsnorm_from :: "'q \<Rightarrow> u64 \<Rightarrow> 'e + 'w"
  tl_rmsnorm :: "'w \<Rightarrow> 't \<Rightarrow> 'e + 't"
  tl_fused_moe :: "'t \<Rightarrow> 'q \<Rightarrow> 'q \<Rightarrow> 'q \<Rightarrow> bool \<Rightarrow> nat \<Rightarrow> tensor_dtype \<Rightarrow> 't \<Rightarrow> bool \<Rightarrow> 'e + 't"
  tl_kv_new :: "nat \<Rightarrow> 'c"
  tl_kv_append :: "'c \<Rightarrow> 't \<Rightarrow> 't \<Rightarrow> ('e + 't \<times> 't) \<times> 'c"
  tl_kv_reset :: "'c \<Rightarrow> 'c"
  tl_kv_k :: "'c \<Rightarrow> 't option"
  tl_kv_v :: "'c \<Rightarrow> 't option"
  tl_inv_freq :: "u64 \<Rightarrow> nat \<Rightarrow> nat \<Rightarrow> u32"
  tl_inv_sqrt :: "nat \<Rightarrow> u64"

definition dims3 :: "('t, 'q, 'w, 'c, 'e) tensor_lib \<Rightarrow> 't \<Rightarrow> 'e + nat \<times> nat \<times> nat" where
  "dims3 L x = (case tl_dims L x of [a, b, c] \<Rightarrow> Inr (a, b, c) | _ \<Rightarrow> Inl (tl_rank_error L 3 x))"

definition dims4 :: "('t, 'q, 'w, 'c, 'e) tensor_lib \<Rightarrow> 't \<Rightarrow> 'e + nat \<times> nat \<times> nat \<times> nat" where
  "dims4 L x = (case tl_dims L x of [a, b, c, d] \<Rightarrow> Inr (a, b, c, d) | _ \<Rightarrow> Inl (tl_rank_error L 4 x))"

definition tdim :: "('t, 'q, 'w, 'c, 'e) tensor_lib \<Rightarrow> 't \<Rightarrow> nat \<Rightarrow> 'e + nat" where
  "tdim L x i = (if i < length (tl_dims L x) then Inr (tl_dims L x ! i) else Inl (tl_dim_error L i x))"

section \<open>Common parts\<close>

record 't Rotary_Embedding =
  ro_sin :: 't
  ro_cos :: 't

definition Rotary_New ::
  "('t, 'q, 'w, 'c, 'e) tensor_lib \<Rightarrow> tensor_dtype \<Rightarrow> nat \<Rightarrow> nat \<Rightarrow> u64 \<Rightarrow> device \<Rightarrow> 'e + 't Rotary_Embedding" where
  "Rotary_New L dtype dim max_seq_len rope_theta dev =
     (let inv_freq = map (\<lambda>i. tl_inv_freq L rope_theta (2 * i) dim) [0..<(dim + 1) div 2];
          inv_freq_len = length inv_freq
      in rbind (tl_from_f32s L inv_freq [1, inv_freq_len] dev) (\<lambda>inv_freq.
         rbind (tl_to_dtype L inv_freq dtype) (\<lambda>inv_freq.
         rbind (tl_arange L 0 (of_nat max_seq_len) dev) (\<lambda>t.
         rbind (tl_to_dtype L t dtype) (\<lambda>t.
         rbind (tl_reshape L t [max_seq_len, 1]) (\<lambda>t.
         rbind (tl_matmul L t inv_freq) (\<lambda>freqs.
         rbind (tl_sin L freqs) (\<lambda>s. rbind (tl_cos L freqs) (\<lambda>c.
         Inr \<lparr>ro_sin = s, ro_cos = c\<rparr>)))))))))"

definition Rotary_Apply ::
  "('t, 'q, 'w, 'c, 'e) tensor_lib \<Rightarrow> 't Rotary_Embedding \<Rightarrow> 't \<Rightarrow> 't \<Rightarrow> nat \<Rightarrow> 'e + 't \<times> 't" where
  "Rotary_Apply L r q k offset =
     rbind (dims4 L q) (\<lambda>(_, _, seq_len, _).
     rbind (tl_narrow L (ro_cos r) 0 offset seq_len) (\<lambda>cos. rbind (tl_to_dtype L cos (tl_dtype L q)) (\<lambda>cos.
     rbind (tl_narrow L (ro_sin r) 0 offset seq_len) (\<lambda>sin. rbind (tl_to_dtype L sin (tl_dtype L q)) (\<lambda>sin.
     rbind (tl_contiguous L q) (\<lambda>q. rbind (tl_rope L q cos sin) (\<lambda>q_embed.
     rbind (tl_contiguous L k) (\<lambda>k. rbind (tl_rope L k cos sin) (\<lambda>k_embed.
     Inr (q_embed, k_embed))))))))))"

record 'w Mlp_Weights =
  ml_gate_proj :: 'w
  ml_up_proj :: 'w
  ml_down_proj :: 'w

definition Mlp_Forward :: "('t, 'q, 'w, 'c, 'e) tensor_lib \<Rightarrow> 'w Mlp_Weights \<Rightarrow> 't \<Rightarrow> 'e + 't" where
  "Mlp_Forward L m x =
     rbind (tl_qmatmul L (ml_gate_proj m) x) (\<lambda>gate. rbind (tl_silu L gate) (\<lambda>gate.
     rbind (tl_qmatmul L (ml_up_proj m) x) (\<lambda>up.
     rbind (tl_mul L gate up) (\<lambda>gated.
     tl_qmatmul L (ml_down_proj m) gated))))"

section \<open>Building layers from extracted tensors\<close>

text \<open>A layer is built out of the map of its tensors, which are taken out one by one. A panic (a
  division by zero heads) is an error of its own.\<close>

datatype 'e build_error = Be_Error 'e | Be_Panic

type_synonym 'q tensor_map = "string \<rightharpoonup> 'q"

definition take_tensor ::
  "('t, 'q, 'w, 'c, 'e) tensor_lib \<Rightarrow> string \<Rightarrow> 'q tensor_map \<Rightarrow> string \<Rightarrow> 'e build_error + 'q \<times> 'q tensor_map" where
  "take_tensor L what tensors key =
     (case tensors key of
        None \<Rightarrow> Inl (Be_Error (tl_msg L (what @ key)))
      | Some qt \<Rightarrow> Inr (qt, tensors(key := None)))"

definition Take_Qmatmul ::
  "('t, 'q, 'w, 'c, 'e) tensor_lib \<Rightarrow> 'q tensor_map \<Rightarrow> string \<Rightarrow> 'e build_error + 'w \<times> 'q tensor_map" where
  "Take_Qmatmul L tensors key =
     rbind (take_tensor L ''missing tensor: '' tensors key) (\<lambda>(qt, tensors).
     rbind (map_err Be_Error (tl_qmatmul_from L qt)) (\<lambda>w. Inr (w, tensors)))"

definition Take_Rmsnorm ::
  "('t, 'q, 'w, 'c, 'e) tensor_lib \<Rightarrow> 'q tensor_map \<Rightarrow> string \<Rightarrow> u64 \<Rightarrow> 'e build_error + 'w \<times> 'q tensor_map" where
  "Take_Rmsnorm L tensors key eps =
     rbind (take_tensor L ''missing tensor: '' tensors key) (\<lambda>(qt, tensors).
     rbind (map_err Be_Error (tl_rmsnorm_from L qt eps)) (\<lambda>w. Inr (w, tensors)))"

record ('t, 'w, 'c) Attention_Weights =
  at_q_proj :: 'w
  at_k_proj :: 'w
  at_v_proj :: 'w
  at_o_proj :: 'w
  at_q_norm :: 'w
  at_k_norm :: 'w
  at_num_heads :: nat
  at_num_kv_heads :: nat
  at_num_kv_groups :: nat
  at_head_dim :: nat
  at_rotary_emb :: "'t Rotary_Embedding"
  at_kv_cache :: 'c

text \<open>The attention part, which both kinds of layer build in the same way.\<close>

definition attention_from ::
  "('t, 'q, 'w, 'c, 'e) tensor_lib \<Rightarrow> 'q tensor_map \<Rightarrow> nat \<Rightarrow> nat \<Rightarrow> nat \<Rightarrow> u64 \<Rightarrow> 't Rotary_Embedding \<Rightarrow> string \<Rightarrow>
   'e build_error + ('t, 'w, 'c) Attention_Weights \<times> 'q tensor_map" where
  "attention_from L tensors heads kv_heads hdim eps rotary pre =
     rbind (Take_Qmatmul L tensors (pre @ ''.attn_q.weight'')) (\<lambda>(q_proj, tensors).
     rbind (Take_Qmatmul L tensors (pre @ ''.attn_k.weight'')) (\<lambda>(k_proj, tensors).
     rbind (Take_Qmatmul L tensors (pre @ ''.attn_v.weight'')) (\<lambda>(v_proj, tensors).
     rbind (Take_Qmatmul L tensors (pre @ ''.attn_output.weight'')) (\<lambda>(o_proj, tensors).
     rbind (Take_Rmsnorm L tensors (pre @ ''.attn_q_norm.weight'') eps) (\<lambda>(q_norm, tensors).
     rbind (Take_Rmsnorm L tensors (pre @ ''.attn_k_norm.weight'') eps) (\<lambda>(k_norm, tensors).
     if kv_heads = 0 then Inl Be_Panic
     else Inr (\<lparr>at_q_proj = q_proj, at_k_proj = k_proj, at_v_proj = v_proj, at_o_proj = o_proj,
                at_q_norm = q_norm, at_k_norm = k_norm, at_num_heads = heads, at_num_kv_heads = kv_heads,
                at_num_kv_groups = heads div kv_heads, at_head_dim = hdim, at_rotary_emb = rotary,
                at_kv_cache = tl_kv_new L 2\<rparr>, tensors)))))))"

record ('t, 'w, 'c) Layer_Weights =
  ly_self_attn :: "('t, 'w, 'c) Attention_Weights"
  ly_mlp :: "'w Mlp_Weights"
  ly_ln1 :: 'w
  ly_ln2 :: 'w

definition Layer_From_Extracted ::
  "('t, 'q, 'w, 'c, 'e) tensor_lib \<Rightarrow> 'q tensor_map \<Rightarrow> nat \<Rightarrow> nat \<Rightarrow> nat \<Rightarrow> u64 \<Rightarrow> 't Rotary_Embedding \<Rightarrow> nat \<Rightarrow>
   'e build_error + ('t, 'w, 'c) Layer_Weights" where
  "Layer_From_Extracted L tensors heads kv_heads hdim eps rotary layer_idx =
     (let pre = ''blk.'' @ show_nat layer_idx in
      rbind (attention_from L tensors heads kv_heads hdim eps rotary pre) (\<lambda>(self_attn, tensors).
      rbind (Take_Qmatmul L tensors (pre @ ''.ffn_gate.weight'')) (\<lambda>(gate_proj, tensors).
      rbind (Take_Qmatmul L tensors (pre @ ''.ffn_up.weight'')) (\<lambda>(up_proj, tensors).
      rbind (Take_Qmatmul L tensors (pre @ ''.ffn_down.weight'')) (\<lambda>(down_proj, tensors).
      rbind (Take_Rmsnorm L tensors (pre @ ''.attn_norm.weight'') eps) (\<lambda>(ln1, tensors).
      rbind (Take_Rmsnorm L tensors (pre @ ''.ffn_norm.weight'') eps) (\<lambda>(ln2, tensors).
      Inr \<lparr>ly_self_attn = self_attn,
           ly_mlp = \<lparr>ml_gate_proj = gate_proj, ml_up_proj = up_proj, ml_down_proj = down_proj\<rparr>,
           ly_ln1 = ln1, ly_ln2 = ln2\<rparr>)))))))"

text \<open>\<open>Mlp_Weights::New_From_Extracted\<close>, with its own messages.\<close>

definition take_ffn ::
  "('t, 'q, 'w, 'c, 'e) tensor_lib \<Rightarrow> ('e \<Rightarrow> 'e) \<Rightarrow> 'q tensor_map \<Rightarrow> string \<Rightarrow> 'e build_error + 'w \<times> 'q tensor_map" where
  "take_ffn L wrap tensors key =
     rbind (take_tensor L ''missing: '' tensors key) (\<lambda>(qt, tensors).
     rbind (map_err (\<lambda>e. Be_Error (wrap e)) (tl_qmatmul_from L qt)) (\<lambda>w. Inr (w, tensors)))"

definition Mlp_From_Extracted ::
  "('t, 'q, 'w, 'c, 'e) tensor_lib \<Rightarrow> (string \<Rightarrow> 'e \<Rightarrow> 'e) \<Rightarrow> 'q tensor_map \<Rightarrow> string \<Rightarrow>
   'e build_error + 'w Mlp_Weights \<times> 'q tensor_map" where
  "Mlp_From_Extracted L ctx tensors pre =
     rbind (take_ffn L (ctx ''ffn_gate'') tensors (pre @ ''.ffn_gate.weight'')) (\<lambda>(gate_proj, tensors).
     rbind (take_ffn L (ctx ''ffn_up'') tensors (pre @ ''.ffn_up.weight'')) (\<lambda>(up_proj, tensors).
     rbind (take_ffn L (ctx ''ffn_down'') tensors (pre @ ''.ffn_down.weight'')) (\<lambda>(down_proj, tensors).
     Inr (\<lparr>ml_gate_proj = gate_proj, ml_up_proj = up_proj, ml_down_proj = down_proj\<rparr>, tensors))))"

text \<open>A mixture-of-experts block: router, expert tensors, and how many experts a token uses.\<close>

record MoeCfg =
  mc_moe_intermediate_size :: nat
  mc_num_experts :: nat
  mc_norm_topk_prob :: bool
  mc_num_experts_per_tok :: nat
  mc_hidden_size :: nat

record ('t, 'q) FusedMoe =
  fm_gate :: 't
  fm_gate_experts :: 'q
  fm_up_experts :: 'q
  fm_down_experts :: 'q
  fm_norm_topk_prob :: bool
  fm_num_experts_per_tok :: nat
  fm_dtype :: tensor_dtype

datatype ('t, 'q, 'w) MoeOrMlp = Mlp "'w Mlp_Weights" | MoE "('t, 'q) FusedMoe"

definition MoeOrMlp_Forward ::
  "('t, 'q, 'w, 'c, 'e) tensor_lib \<Rightarrow> ('t, 'q, 'w) MoeOrMlp \<Rightarrow> 't \<Rightarrow> bool \<Rightarrow> 'e + 't" where
  "MoeOrMlp_Forward L m xs is_prefill =
     (case m of
        Mlp m \<Rightarrow> Mlp_Forward L m xs
      | MoE m \<Rightarrow> tl_fused_moe L (fm_gate m) (fm_gate_experts m) (fm_up_experts m) (fm_down_experts m)
          (fm_norm_topk_prob m) (fm_num_experts_per_tok m) (fm_dtype m) xs is_prefill)"

record ('t, 'q, 'w, 'c) Qwen3MoE_Layer =
  qm_self_attn :: "('t, 'w, 'c) Attention_Weights"
  qm_ln1 :: 'w
  qm_mlp :: "('t, 'q, 'w) MoeOrMlp"
  qm_ln2 :: 'w

definition moe_from ::
  "('t, 'q, 'w, 'c, 'e) tensor_lib \<Rightarrow> 'q tensor_map \<Rightarrow> string \<Rightarrow> MoeCfg \<Rightarrow> tensor_dtype \<Rightarrow>
   'e build_error + ('t, 'q) FusedMoe \<times> 'q tensor_map" where
  "moe_from L tensors pre cfg model_dtype =
     rbind (take_tensor L ''missing: '' tensors (pre @ ''.ffn_gate_inp.weight'')) (\<lambda>(gate_qt, tensors).
     rbind (map_err Be_Error (tl_dequantize L gate_qt Dev_Cpu)) (\<lambda>gate_ws.
     rbind (map_err Be_Error (tl_to_dtype L gate_ws Td_F32)) (\<lambda>gate_ws.
     rbind (take_tensor L ''missing: '' tensors (pre @ ''.ffn_gate_exps.weight'')) (\<lambda>(gate_experts, tensors).
     rbind (take_tensor L ''missing: '' tensors (pre @ ''.ffn_up_exps.weight'')) (\<lambda>(up_experts, tensors).
     rbind (take_tensor L ''missing: '' tensors (pre @ ''.ffn_down_exps.weight'')) (\<lambda>(down_experts, tensors).
     Inr (\<lparr>fm_gate = gate_ws, fm_gate_experts = gate_experts, fm_up_experts = up_experts,
           fm_down_experts = down_experts, fm_norm_topk_prob = mc_norm_topk_prob cfg,
           fm_num_experts_per_tok = mc_num_experts_per_tok cfg, fm_dtype = model_dtype\<rparr>, tensors)))))))"

definition MoE_Layer_From_Extracted ::
  "('t, 'q, 'w, 'c, 'e) tensor_lib \<Rightarrow> (string \<Rightarrow> 'e \<Rightarrow> 'e) \<Rightarrow> 'q tensor_map \<Rightarrow> nat \<Rightarrow> nat \<Rightarrow> nat \<Rightarrow> u64 \<Rightarrow>
   't Rotary_Embedding \<Rightarrow> nat \<Rightarrow> bool \<Rightarrow> MoeCfg \<Rightarrow> tensor_dtype \<Rightarrow>
   'e build_error + ('t, 'q, 'w, 'c) Qwen3MoE_Layer" where
  "MoE_Layer_From_Extracted L ctx tensors heads kv_heads hdim eps rotary layer_idx is_moe cfg model_dtype =
     (let pre = ''blk.'' @ show_nat layer_idx in
      rbind (attention_from L tensors heads kv_heads hdim eps rotary pre) (\<lambda>(self_attn, tensors).
      rbind (if is_moe
             then rbind (moe_from L tensors pre cfg model_dtype) (\<lambda>(m, tensors). Inr (MoE m, tensors))
             else rbind (Mlp_From_Extracted L ctx tensors pre) (\<lambda>(m, tensors). Inr (Mlp m, tensors))) (\<lambda>(mlp, tensors).
      rbind (Take_Rmsnorm L tensors (pre @ ''.attn_norm.weight'') eps) (\<lambda>(ln1, tensors).
      rbind (Take_Rmsnorm L tensors (pre @ ''.ffn_norm.weight'') eps) (\<lambda>(ln2, tensors).
      Inr \<lparr>qm_self_attn = self_attn, qm_ln1 = ln1, qm_mlp = mlp, qm_ln2 = ln2\<rparr>)))))"

section \<open>The forward pass of a layer\<close>

definition attn_qkv ::
  "('t, 'q, 'w, 'c, 'e) tensor_lib \<Rightarrow> ('t, 'w, 'c) Attention_Weights \<Rightarrow> 't \<Rightarrow> nat \<Rightarrow> nat \<Rightarrow> nat \<Rightarrow> 'e + 't \<times> 't \<times> 't" where
  "attn_qkv L a x b l offset =
     (let heads = (\<lambda>y n. rbind (tl_reshape L y [b, l, n, at_head_dim a]) (\<lambda>y. tl_transpose L y 1 2)) in
      rbind (tl_qmatmul L (at_q_proj a) x) (\<lambda>q.
      rbind (tl_qmatmul L (at_k_proj a) x) (\<lambda>k.
      rbind (tl_qmatmul L (at_v_proj a) x) (\<lambda>v.
      rbind (heads q (at_num_heads a)) (\<lambda>q.
      rbind (heads k (at_num_kv_heads a)) (\<lambda>k.
      rbind (heads v (at_num_kv_heads a)) (\<lambda>v.
      rbind (tl_flatten L q 0 2) (\<lambda>q_flat. rbind (tl_flatten L k 0 2) (\<lambda>k_flat.
      rbind (tl_rmsnorm L (at_q_norm a) q_flat) (\<lambda>q_flat. rbind (tl_rmsnorm L (at_k_norm a) k_flat) (\<lambda>k_flat.
      rbind (tl_reshape L q_flat [b, at_num_heads a, l, at_head_dim a]) (\<lambda>q.
      rbind (tl_reshape L k_flat [b, at_num_kv_heads a, l, at_head_dim a]) (\<lambda>k.
      rbind (Rotary_Apply L (at_rotary_emb a) q k offset) (\<lambda>(q, k).
      Inr (q, k, v)))))))))))))))"

definition attn_out ::
  "('t, 'q, 'w, 'c, 'e) tensor_lib \<Rightarrow> ('t, 'w, 'c) Attention_Weights \<Rightarrow> 't option \<Rightarrow> nat \<Rightarrow> nat \<Rightarrow> 't \<Rightarrow> 't \<Rightarrow> 't \<Rightarrow> 'e + 't" where
  "attn_out L a attn_mask b l q k v =
     rbind (rbind (tl_repeat_kv L k (at_num_kv_groups a)) (tl_contiguous L)) (\<lambda>k.
     rbind (rbind (tl_repeat_kv L v (at_num_kv_groups a)) (tl_contiguous L)) (\<lambda>v.
     rbind (tl_transpose L k 2 3) (\<lambda>kt. rbind (tl_matmul L q kt) (\<lambda>scores.
     rbind (tl_scale L scores (tl_inv_sqrt L (at_head_dim a))) (\<lambda>scores.
     rbind (case attn_mask of
              None \<Rightarrow> Inr scores
            | Some m \<Rightarrow>
                rbind (if tl_dtype L m \<noteq> tl_dtype L scores then tl_to_dtype L m (tl_dtype L scores) else Inr m) (\<lambda>msk.
                tl_broadcast_add L scores msk)) (\<lambda>scores.
     rbind (tl_softmax_last_dim L scores) (\<lambda>probs. rbind (tl_matmul L probs v) (\<lambda>ctx.
     rbind (tl_transpose L ctx 1 2) (\<lambda>ctx. rbind (tl_reshape L ctx [b, l, at_num_heads a * at_head_dim a]) (\<lambda>reshaped_ctx.
     tl_qmatmul L (at_o_proj a) reshaped_ctx))))))))))"

text \<open>The cache is extended in between; what fails later does not take the extension back.\<close>

definition Attention_Forward ::
  "('t, 'q, 'w, 'c, 'e) tensor_lib \<Rightarrow> ('t, 'w, 'c) Attention_Weights \<Rightarrow> 't \<Rightarrow> 't option \<Rightarrow> nat \<Rightarrow>
   ('e + 't) \<times> ('t, 'w, 'c) Attention_Weights" where
  "Attention_Forward L a x attn_mask offset =
     (case rbind (dims3 L x) (\<lambda>(b, l, _). rbind (attn_qkv L a x b l offset) (\<lambda>(q, k, v). Inr (b, l, q, k, v))) of
        Inl e \<Rightarrow> (Inl e, a)
      | Inr (b, l, q, k, v) \<Rightarrow>
          (case tl_kv_append L (at_kv_cache a) k v of
             (r, cache) \<Rightarrow> (rbind r (\<lambda>(k, v). attn_out L a attn_mask b l q k v), a\<lparr>at_kv_cache := cache\<rparr>)))"

definition Attention_Clear ::
  "('t, 'q, 'w, 'c, 'e) tensor_lib \<Rightarrow> ('t, 'w, 'c) Attention_Weights \<Rightarrow> ('t, 'w, 'c) Attention_Weights" where
  "Attention_Clear L a = a\<lparr>at_kv_cache := tl_kv_reset L (at_kv_cache a)\<rparr>"

text \<open>The residual structure of a layer: both kinds of layer have it, around their attention and their
  feed-forward part \<open>ffn\<close>.\<close>

definition residual_block ::
  "('t, 'q, 'w, 'c, 'e) tensor_lib \<Rightarrow> 'w \<Rightarrow> ('t, 'w, 'c) Attention_Weights \<Rightarrow> 'w \<Rightarrow> ('t \<Rightarrow> 'e + 't) \<Rightarrow> 't \<Rightarrow> 't option \<Rightarrow> nat \<Rightarrow>
   ('e + 't) \<times> ('t, 'w, 'c) Attention_Weights" where
  "residual_block L ln1 attn ln2 ffn x msk offset =
     (case tl_rmsnorm L ln1 x of
        Inl e \<Rightarrow> (Inl e, attn)
      | Inr h \<Rightarrow>
          (case Attention_Forward L attn h msk offset of
             (r, attn) \<Rightarrow>
               (rbind r (\<lambda>h. rbind (tl_add L x h) (\<lambda>x.
                rbind (tl_rmsnorm L ln2 x) (\<lambda>h2. rbind (ffn h2) (\<lambda>h2. tl_add L x h2)))), attn)))"

definition Layer_Forward ::
  "('t, 'q, 'w, 'c, 'e) tensor_lib \<Rightarrow> ('t, 'w, 'c) Layer_Weights \<Rightarrow> 't \<Rightarrow> 't option \<Rightarrow> nat \<Rightarrow>
   ('e + 't) \<times> ('t, 'w, 'c) Layer_Weights" where
  "Layer_Forward L ly x msk offset =
     (case residual_block L (ly_ln1 ly) (ly_self_attn ly) (ly_ln2 ly) (Mlp_Forward L (ly_mlp ly)) x msk offset of
        (r, attn) \<Rightarrow> (r, ly\<lparr>ly_self_attn := attn\<rparr>))"

definition MoE_Layer_Forward ::
  "('t, 'q, 'w, 'c, 'e) tensor_lib \<Rightarrow> ('t, 'q, 'w, 'c) Qwen3MoE_Layer \<Rightarrow> 't \<Rightarrow> 't option \<Rightarrow> nat \<Rightarrow> bool \<Rightarrow>
   ('e + 't) \<times> ('t, 'q, 'w, 'c) Qwen3MoE_Layer" where
  "MoE_Layer_Forward L ly x msk offset is_prefill =
     (case residual_block L (qm_ln1 ly) (qm_self_attn ly) (qm_ln2 ly)
             (\<lambda>h2. MoeOrMlp_Forward L (qm_mlp ly) h2 is_prefill) x msk offset of
        (r, attn) \<Rightarrow> (r, ly\<lparr>qm_self_attn := attn\<rparr>))"

definition Layer_Clear ::
  "('t, 'q, 'w, 'c, 'e) tensor_lib \<Rightarrow> ('t, 'w, 'c) Layer_Weights \<Rightarrow> ('t, 'w, 'c) Layer_Weights" where
  "Layer_Clear L ly = ly\<lparr>ly_self_attn := Attention_Clear L (ly_self_attn ly)\<rparr>"

definition MoE_Layer_Clear ::
  "('t, 'q, 'w, 'c, 'e) tensor_lib \<Rightarrow> ('t, 'q, 'w, 'c) Qwen3MoE_Layer \<Rightarrow> ('t, 'q, 'w, 'c) Qwen3MoE_Layer" where
  "MoE_Layer_Clear L ly = ly\<lparr>qm_self_attn := Attention_Clear L (qm_self_attn ly)\<rparr>"

section \<open>The forward pass of a model\<close>

text \<open>\<open>Model_Weights\<close> and \<open>Qwen3MoE_Model\<close> have the same fields; \<open>'l\<close> is the type of their layers. The
  embedding is its table and the hidden size. A node that holds part of a model has no embedding or
  no output head.\<close>

record ('t, 'w, 'l) Model_Weights =
  mw_embed_tokens :: "('t \<times> nat) option"
  mw_layers :: "'l list"
  mw_norm :: "'w option"
  mw_lm_head :: "'w option"
  mw_device :: device
  mw_dtype :: tensor_dtype

definition From_Dynamic ::
  "('t \<times> nat) option \<Rightarrow> 'l list \<Rightarrow> 'w option \<Rightarrow> 'w option \<Rightarrow> device \<Rightarrow> tensor_dtype \<Rightarrow> ('t, 'w, 'l) Model_Weights" where
  "From_Dynamic emb lys nrm head dev dt =
     \<lparr>mw_embed_tokens = emb, mw_layers = lys, mw_norm = nrm, mw_lm_head = head, mw_device = dev, mw_dtype = dt\<rparr>"

definition NEG_INFINITY :: u32 where "NEG_INFINITY = 0xFF800000"

definition mask_values :: "nat \<Rightarrow> nat \<Rightarrow> nat option \<Rightarrow> u32 list" where
  "mask_values tgt offset sw =
     concat (map (\<lambda>i. map (\<lambda>j.
       let past_ok = (j \<le> i + offset);
           sw_ok = (case sw of Some w \<Rightarrow> int (i + offset) - int j \<le> int w | None \<Rightarrow> True)
       in if past_ok \<and> sw_ok then 0 else NEG_INFINITY) [0..<tgt + offset]) [0..<tgt])"

definition Causal_Mask ::
  "('t, 'q, 'w, 'c, 'e) tensor_lib \<Rightarrow> ('t, 'w, 'l) Model_Weights \<Rightarrow> nat \<Rightarrow> nat \<Rightarrow> nat \<Rightarrow> nat option \<Rightarrow> 'e + 't" where
  "Causal_Mask L m b tgt offset sw =
     rbind (tl_from_f32s L (mask_values tgt offset sw) [b, 1, tgt, tgt + offset] (mw_device m)) (\<lambda>t.
     tl_to_dtype L t (mw_dtype m))"

fun run_layers :: "('l \<Rightarrow> 't \<Rightarrow> ('e + 't) \<times> 'l) \<Rightarrow> 'l list \<Rightarrow> 't \<Rightarrow> ('e + 't) \<times> 'l list" where
  "run_layers f [] h = (Inr h, [])"
| "run_layers f (ly # lys) h =
     (case f ly h of
        (Inl e, ly') \<Rightarrow> (Inl e, ly' # lys)
      | (Inr h', ly') \<Rightarrow> (case run_layers f lys h' of (r, lys') \<Rightarrow> (r, ly' # lys')))"

text \<open>\<open>l - 1\<close> wraps for an empty sequence.\<close>

definition output_head ::
  "('t, 'q, 'w, 'c, 'e) tensor_lib \<Rightarrow> ('t, 'w, 'l) Model_Weights \<Rightarrow> nat \<Rightarrow> 't \<Rightarrow> 'e + 't" where
  "output_head L m l h =
     (case (mw_norm m, mw_lm_head m) of
        (Some nrm, Some head) \<Rightarrow>
          rbind (tl_rmsnorm L nrm h) (\<lambda>h.
          rbind (tl_narrow L h 1 (if l = 0 then usize_max - 1 else l - 1) 1) (\<lambda>last_hidden.
          rbind (tl_qmatmul L head last_hidden) (\<lambda>y. tl_squeeze L y 1)))
      | _ \<Rightarrow> Inr h)"

text \<open>The body both \<open>Forward\<close> functions have: \<open>layer_fwd ly x msk offset is_prefill\<close> is the layer's.\<close>

definition prepare ::
  "('t, 'q, 'w, 'c, 'e) tensor_lib \<Rightarrow> ('t, 'w, 'l) Model_Weights \<Rightarrow> nat \<Rightarrow> 't \<Rightarrow> 'e + nat \<times> 't option" where
  "prepare L m offset h =
     rbind (tdim L h 0) (\<lambda>b. rbind (tdim L h 1) (\<lambda>l.
     rbind (if l = 1 then Inr None else rbind (Causal_Mask L m b l offset None) (\<lambda>k. Inr (Some k))) (\<lambda>msk.
     Inr (l, msk))))"

definition embed ::
  "('t, 'q, 'w, 'c, 'e) tensor_lib \<Rightarrow> ('t, 'w, 'l) Model_Weights \<Rightarrow> 't \<Rightarrow> 'e + 't" where
  "embed L m input = (case mw_embed_tokens m of Some (table, hidden) \<Rightarrow> tl_embedding L table hidden input | None \<Rightarrow> Inr input)"

definition Forward_with ::
  "('t, 'q, 'w, 'c, 'e) tensor_lib \<Rightarrow> ('l \<Rightarrow> 't \<Rightarrow> 't option \<Rightarrow> nat \<Rightarrow> bool \<Rightarrow> ('e + 't) \<times> 'l) \<Rightarrow> ('t, 'w, 'l) Model_Weights \<Rightarrow>
   't \<Rightarrow> nat \<Rightarrow> ('e + 't) \<times> ('t, 'w, 'l) Model_Weights" where
  "Forward_with L layer_fwd m input offset =
     (case rbind (embed L m input) (\<lambda>h. rbind (prepare L m offset h) (\<lambda>(l, msk). Inr (h, l, msk))) of
        Inl e \<Rightarrow> (Inl e, m)
      | Inr (h, l, msk) \<Rightarrow>
          (case run_layers (\<lambda>ly x. layer_fwd ly x msk offset (l > 1)) (mw_layers m) h of
             (r, lys) \<Rightarrow> (rbind r (output_head L m l), m\<lparr>mw_layers := lys\<rparr>)))"

definition Model_Forward ::
  "('t, 'q, 'w, 'c, 'e) tensor_lib \<Rightarrow> ('t, 'w, ('t, 'w, 'c) Layer_Weights) Model_Weights \<Rightarrow> 't \<Rightarrow> nat \<Rightarrow>
   ('e + 't) \<times> ('t, 'w, ('t, 'w, 'c) Layer_Weights) Model_Weights" where
  "Model_Forward L = Forward_with L (\<lambda>ly x msk offset _. Layer_Forward L ly x msk offset)"

definition Qwen3MoE_Forward ::
  "('t, 'q, 'w, 'c, 'e) tensor_lib \<Rightarrow> ('t, 'w, ('t, 'q, 'w, 'c) Qwen3MoE_Layer) Model_Weights \<Rightarrow> 't \<Rightarrow> nat \<Rightarrow>
   ('e + 't) \<times> ('t, 'w, ('t, 'q, 'w, 'c) Qwen3MoE_Layer) Model_Weights" where
  "Qwen3MoE_Forward L = Forward_with L (MoE_Layer_Forward L)"

definition Model_Clear ::
  "('t, 'q, 'w, 'c, 'e) tensor_lib \<Rightarrow> ('t, 'w, ('t, 'w, 'c) Layer_Weights) Model_Weights \<Rightarrow>
   ('t, 'w, ('t, 'w, 'c) Layer_Weights) Model_Weights" where
  "Model_Clear L m = m\<lparr>mw_layers := map (Layer_Clear L) (mw_layers m)\<rparr>"

definition Qwen3MoE_Clear ::
  "('t, 'q, 'w, 'c, 'e) tensor_lib \<Rightarrow> ('t, 'w, ('t, 'q, 'w, 'c) Qwen3MoE_Layer) Model_Weights \<Rightarrow>
   ('t, 'w, ('t, 'q, 'w, 'c) Qwen3MoE_Layer) Model_Weights" where
  "Qwen3MoE_Clear L m = m\<lparr>mw_layers := map (MoE_Layer_Clear L) (mw_layers m)\<rparr>"

section \<open>Stages\<close>

lemma run_layers_append:
  "run_layers f (as1 @ as2) h =
     (case run_layers f as1 h of
        (Inl e, bs) \<Rightarrow> (Inl e, bs @ as2)
      | (Inr h', bs) \<Rightarrow> (case run_layers f as2 h' of (r, cs) \<Rightarrow> (r, bs @ cs)))"
  by (induction f as1 h rule: run_layers.induct) (auto split: prod.splits sum.splits)

lemma run_layers_length: "run_layers f lys h = (r, lys') \<Longrightarrow> length lys' = length lys"
  by (induction f lys h arbitrary: r lys' rule: run_layers.induct) (auto split: prod.splits sum.splits)

lemma run_layers_invariant:
  assumes "\<And>ly x y ly'. f ly x = (Inr y, ly') \<Longrightarrow> p y = p x"
  shows "run_layers f lys h = (Inr y, lys') \<Longrightarrow> p y = p h"
proof (induction lys arbitrary: h lys')
  case (Cons ly lys)
  then obtain h' ly' lys'' where f: "f ly h = (Inr h', ly')" and r: "run_layers f lys h' = (Inr y, lys'')"
    by (auto split: prod.splits sum.splits)
  show ?case using Cons.IH [OF r] assms [OF f] by simp
qed simp

text \<open>What a chain of nodes does with an input: each passes its output to the next.\<close>

definition pipeline ::
  "('m \<Rightarrow> 't \<Rightarrow> nat \<Rightarrow> ('e + 't) \<times> 'm) \<Rightarrow> 'm list \<Rightarrow> 't \<Rightarrow> nat \<Rightarrow> ('e + 't) \<times> 'm list" where
  "pipeline fwd ms x offset = run_layers (\<lambda>m h. fwd m h offset) ms x"

text \<open>\<open>ms\<close> is the model \<open>m\<close> cut into consecutive ranges of layers: the first part keeps the embedding and
  the last one the output head.\<close>

fun stages :: "('t, 'w, 'l) Model_Weights \<Rightarrow> ('t, 'w, 'l) Model_Weights list \<Rightarrow> bool" where
  "stages m [] \<longleftrightarrow> False"
| "stages m [s] \<longleftrightarrow> s = m"
| "stages m (s # s' # ss) \<longleftrightarrow>
     s = m\<lparr>mw_layers := mw_layers s, mw_norm := None, mw_lm_head := None\<rparr> \<and>
     prefix (mw_layers s) (mw_layers m) \<and>
     stages (m\<lparr>mw_embed_tokens := None, mw_layers := drop (length (mw_layers s)) (mw_layers m)\<rparr>) (s' # ss)"

text \<open>The results of a series of inputs, as generation feeds them: the prompt, then token by token.\<close>

fun run_steps :: "('m \<Rightarrow> 't \<Rightarrow> nat \<Rightarrow> ('e + 't) \<times> 'm) \<Rightarrow> 'm \<Rightarrow> ('t \<times> nat) list \<Rightarrow> ('e + 't) list" where
  "run_steps fwd m [] = []"
| "run_steps fwd m ((x, offset) # steps) = (case fwd m x offset of (r, m') \<Rightarrow> r # run_steps fwd m' steps)"

lemma head_part [simp]:
  "embed L (m\<lparr>mw_layers := lys, mw_norm := n, mw_lm_head := k\<rparr>) x = embed L m x"
  "embed L (m\<lparr>mw_embed_tokens := None, mw_layers := lys\<rparr>) x = Inr x"
  "prepare L (m\<lparr>mw_layers := lys, mw_norm := n, mw_lm_head := k\<rparr>) off x = prepare L m off x"
  "prepare L (m\<lparr>mw_embed_tokens := e, mw_layers := lys\<rparr>) off x = prepare L m off x"
  "output_head L (m\<lparr>mw_layers := lys, mw_norm := None, mw_lm_head := None\<rparr>) l x = Inr x"
  "output_head L (m\<lparr>mw_embed_tokens := e, mw_layers := lys\<rparr>) l x = output_head L m l x"
  by (simp_all add: embed_def prepare_def Causal_Mask_def output_head_def cong: if_cong)

lemma rbind_Inr [simp]: "rbind r Inr = r"
  by (cases r) simp_all

lemma output_parts [simp]:
  "output_head L (m\<lparr>mw_layers := lys, mw_norm := None, mw_lm_head := None\<rparr>) l = Inr"
  "output_head L (m\<lparr>mw_embed_tokens := e, mw_layers := lys\<rparr>) l = output_head L m l"
  by (rule ext, simp)+

lemma Forward_with_run:
  assumes "embed L m x = Inr h" "prepare L m off h = Inr (l, msk)"
  shows "Forward_with L f m x off =
    (case run_layers (\<lambda>ly x. f ly x msk off (l > 1)) (mw_layers m) h of
       (r, lys) \<Rightarrow> (rbind r (output_head L m l), m\<lparr>mw_layers := lys\<rparr>))"
  by (simp add: Forward_with_def assms)

lemma Forward_with_fails:
  assumes "rbind (embed L m x) (prepare L m off) = Inl e"
  shows "Forward_with L f m x off = (Inl e, m)"
  using assms by (cases "embed L m x"; cases "prepare L m off (projr (embed L m x))") (simp_all add: Forward_with_def)

text \<open>
  Any layer that keeps the shape of the hidden state can be cut after. The shape law is about the
  library: adding two tensors gives one of the shape of the first.
\<close>

locale layered =
  fixes L :: "('t, 'q, 'w, 'c, 'e) tensor_lib"
    and layer_fwd :: "'l \<Rightarrow> 't \<Rightarrow> 't option \<Rightarrow> nat \<Rightarrow> bool \<Rightarrow> ('e + 't) \<times> 'l"
    and shape_law :: bool
  assumes keeps_dims: "shape_law \<Longrightarrow> layer_fwd ly x msk off pf = (Inr y, ly') \<Longrightarrow> tl_dims L y = tl_dims L x"
begin

lemma run_keeps_dims:
  "shape_law \<Longrightarrow> run_layers (\<lambda>ly x. layer_fwd ly x msk off pf) lys h = (Inr y, lys') \<Longrightarrow> tl_dims L y = tl_dims L h"
  by (rule run_layers_invariant) (auto dest: keeps_dims)

lemma prepare_again:
  assumes "prepare L m off h = Inr r" "tl_dims L y = tl_dims L h"
  shows "prepare L m off y = Inr r"
  using assms by (auto simp: prepare_def tdim_def rbind_eq_Inr split: if_splits)

lemma forward_cut:
  assumes shape_law "mw_layers m = as1 @ as2"
  shows "Forward_with L layer_fwd m x off =
    (case Forward_with L layer_fwd (m\<lparr>mw_layers := as1, mw_norm := None, mw_lm_head := None\<rparr>) x off of
       (Inl e, m1) \<Rightarrow> (Inl e, m\<lparr>mw_layers := mw_layers m1 @ as2\<rparr>)
     | (Inr h, m1) \<Rightarrow>
         (case Forward_with L layer_fwd (m\<lparr>mw_embed_tokens := None, mw_layers := as2\<rparr>) h off of
            (r, m2) \<Rightarrow> (r, m\<lparr>mw_layers := mw_layers m1 @ mw_layers m2\<rparr>)))"
proof (cases "rbind (embed L m x) (prepare L m off)")
  case (Inl e)
  let ?m1 = "m\<lparr>mw_layers := as1, mw_norm := None, mw_lm_head := None\<rparr>"
  have "prepare L ?m1 off = prepare L m off" by (rule ext) simp
  with Inl have "rbind (embed L ?m1 x) (prepare L ?m1 off) = Inl e" by simp
  then show ?thesis using assms(2) by (simp add: Forward_with_fails Inl)
next
  case (Inr p)
  obtain l msk where p: "p = (l, msk)" by (cases p)
  from Inr p obtain h where h: "embed L m x = Inr h" "prepare L m off h = Inr (l, msk)"
    by (auto simp: rbind_eq_Inr)
  obtain r1 bs where r1: "run_layers (\<lambda>ly x. layer_fwd ly x msk off (l > 1)) as1 h = (r1, bs)"
    by (cases "run_layers (\<lambda>ly x. layer_fwd ly x msk off (l > 1)) as1 h")
  note whole = Forward_with_run [OF h, of layer_fwd, unfolded assms(2) run_layers_append r1]
  have first: "Forward_with L layer_fwd (m\<lparr>mw_layers := as1, mw_norm := None, mw_lm_head := None\<rparr>) x off =
      (r1, m\<lparr>mw_layers := bs, mw_norm := None, mw_lm_head := None\<rparr>)"
    by (subst Forward_with_run [of _ _ _ h _ l msk]) (simp_all add: h r1 del: One_nat_def)
  show ?thesis
  proof (cases r1)
    case (Inl e)
    then show ?thesis using whole first by simp
  next
    case (Inr h')
    then have "tl_dims L h' = tl_dims L h" using run_keeps_dims [OF assms(1)] r1 by blast
    then have "prepare L m off h' = Inr (l, msk)" by (rule prepare_again [OF h(2)])
    then have "Forward_with L layer_fwd (m\<lparr>mw_embed_tokens := None, mw_layers := as2\<rparr>) h' off =
      (case run_layers (\<lambda>ly x. layer_fwd ly x msk off (l > 1)) as2 h' of
         (r, lys) \<Rightarrow> (rbind r (output_head L m l), m\<lparr>mw_embed_tokens := None, mw_layers := lys\<rparr>))"
      by (subst Forward_with_run [of _ _ _ h' _ l msk]) (simp_all split: prod.splits)
    then show ?thesis using whole first Inr by (simp split: prod.splits)
  qed
qed

lemma forward_shape:
  "Forward_with L layer_fwd m x off = (r, m') \<Longrightarrow> m' = m\<lparr>mw_layers := mw_layers m'\<rparr> \<and> length (mw_layers m') = length (mw_layers m)"
  by (auto simp: Forward_with_def dest: run_layers_length split: sum.splits prod.splits)

lemma pipeline_exact:
  assumes shape_law "stages m ms" "pipeline (Forward_with L layer_fwd) ms x off = (r, ms')"
  shows "\<exists>m'. Forward_with L layer_fwd m x off = (r, m') \<and> stages m' ms'"
  using assms(2,3)
proof (induction m ms arbitrary: x r ms' rule: stages.induct)
  case (2 m s)
  then show ?case by (auto simp: pipeline_def split: prod.splits sum.splits)
next
  case (3 m s s' ss)
  let ?m2 = "m\<lparr>mw_embed_tokens := None, mw_layers := drop (length (mw_layers s)) (mw_layers m)\<rparr>"
  have lys: "mw_layers m = mw_layers s @ mw_layers ?m2" using "3.prems"(1) by (auto simp: prefix_def)
  have s: "s = m\<lparr>mw_layers := mw_layers s, mw_norm := None, mw_lm_head := None\<rparr>" and st: "stages ?m2 (s' # ss)"
    using "3.prems"(1) by simp_all
  obtain r1 s1 where r1: "Forward_with L layer_fwd s x off = (r1, s1)" by fastforce
  note len = forward_shape [OF r1]
  note cut = forward_cut [OF assms(1) lys, of x off, folded s, unfolded r1]
  have s1: "s1 = (m\<lparr>mw_layers := as1\<rparr>)\<lparr>mw_layers := mw_layers s1, mw_norm := None, mw_lm_head := None\<rparr>" for as1
    using len s by (metis Model_Weights.update_convs(2) Model_Weights.surjective Model_Weights.update_convs(3,4))
  show ?case
  proof (cases r1)
    case (Inl e)
    then have r: "r = Inl e" "ms' = s1 # s' # ss" using "3.prems"(2) r1 by (simp_all add: pipeline_def)
    have "stages (m\<lparr>mw_layers := mw_layers s1 @ mw_layers ?m2\<rparr>) ms'"
      using s1 [of "mw_layers s1 @ mw_layers ?m2"] st len by (simp add: r)
    then show ?thesis using cut Inl r by auto
  next
    case (Inr h)
    obtain r2 ss' where p: "pipeline (Forward_with L layer_fwd) (s' # ss) h off = (r2, ss')" by fastforce
    from "3.IH" [OF st p] obtain m2 where m2: "Forward_with L layer_fwd ?m2 h off = (r2, m2)" "stages m2 ss'" by blast
    have r: "r = r2" "ms' = s1 # ss'"
      using "3.prems"(2) r1 Inr p by (auto simp: pipeline_def)
    obtain t ts where ts: "ss' = t # ts" using p run_layers_length unfolding pipeline_def by (metis length_0_conv list.exhaust list.distinct(1))
    have "stages (m\<lparr>mw_layers := mw_layers s1 @ mw_layers m2\<rparr>) ms'"
      using s1 [of "mw_layers s1 @ mw_layers m2"] m2 forward_shape [OF m2(1)] by (simp add: r ts)
    then show ?thesis using cut Inr r m2(1) by auto
  qed
qed simp

lemma pipeline_steps:
  assumes shape_law
  shows "stages m ms \<Longrightarrow>
    run_steps (pipeline (Forward_with L layer_fwd)) ms steps = run_steps (Forward_with L layer_fwd) m steps"
proof (induction steps arbitrary: m ms)
  case (Cons st steps)
  obtain x off where st: "st = (x, off)" by fastforce
  obtain r ms' where p: "pipeline (Forward_with L layer_fwd) ms x off = (r, ms')" by fastforce
  from pipeline_exact [OF assms Cons.prems p] obtain m' where
    "Forward_with L layer_fwd m x off = (r, m')" "stages m' ms'" by blast
  then show ?case using Cons.IH p st by simp
qed simp

end

definition add_shape :: "('t, 'q, 'w, 'c, 'e) tensor_lib \<Rightarrow> bool" where
  "add_shape L \<longleftrightarrow> (\<forall>x y z. tl_add L x y = Inr z \<longrightarrow> tl_dims L z = tl_dims L x)"

lemma residual_keeps_dims:
  "add_shape L \<Longrightarrow> residual_block L ln1 a ln2 ffn x msk off = (Inr y, a') \<Longrightarrow> tl_dims L y = tl_dims L x"
  by (auto simp: residual_block_def rbind_eq_Inr add_shape_def split: sum.splits prod.splits)

interpretation qwen3: layered L "\<lambda>ly x msk off _. Layer_Forward L ly x msk off" "add_shape L" for L
  by unfold_locales (auto simp: Layer_Forward_def dest: residual_keeps_dims split: prod.splits)

interpretation qwen3_moe: layered L "MoE_Layer_Forward L" "add_shape L" for L
  by unfold_locales (auto simp: MoE_Layer_Forward_def dest: residual_keeps_dims split: prod.splits)

section \<open>The causal mask\<close>

lemma concat_rows_nth:
  "i < n \<Longrightarrow> j < w \<Longrightarrow> concat (map (\<lambda>i. map (f i) [0..<w]) [0..<n]) ! (i * w + j) = f i j"
proof (induction n)
  case (Suc n)
  have len: "length (concat (map (\<lambda>i. map (f i) [0..<w]) [0..<n])) = n * w"
    by (simp add: length_concat o_def sum_list_triv)
  show ?case
  proof (cases "i < n")
    case True
    have "i * w + j < Suc i * w" using Suc.prems(2) by simp
    also have "\<dots> \<le> n * w" using True by (intro mult_right_mono) simp_all
    finally show ?thesis using Suc.IH [OF True Suc.prems(2)] len by (simp add: nth_append)
  next
    case False
    then have "i = n" using Suc.prems(1) by simp
    then show ?thesis using len Suc.prems(2) by (simp add: nth_append)
  qed
qed simp

lemma length_mask_values [simp]: "length (mask_values tgt offset sw) = tgt * (tgt + offset)"
  by (simp add: mask_values_def length_concat o_def sum_list_triv)



section \<open>Distributed inference\<close>

text \<open>
  Cutting a model into stages changes nothing: whatever the cuts and however many nodes, a series of
  forward passes through the chain gives, pass by pass, the result or the error the whole model gives,
  the caches of all stages together being the whole model's. This holds for both kinds of model.
\<close>

theorem pipeline_equals_whole:
  assumes "add_shape L"
  shows "(stages m ms \<longrightarrow> run_steps (pipeline (Model_Forward L)) ms steps = run_steps (Model_Forward L) m steps) \<and>
    (stages k ks \<longrightarrow> run_steps (pipeline (Qwen3MoE_Forward L)) ks steps = run_steps (Qwen3MoE_Forward L) k steps)"
  unfolding Model_Forward_def Qwen3MoE_Forward_def
  using qwen3.pipeline_steps [OF assms] qwen3_moe.pipeline_steps [OF assms] by blast

text \<open>A toy library whose tensors are a shape and one number.\<close>

type_synonym toy_tensor = "nat list \<times> u32"

definition toy_lib :: "(toy_tensor, u32, u32, (toy_tensor \<times> toy_tensor) option, string) tensor_lib" where
  "toy_lib = \<lparr>
     tl_msg = (\<lambda>s. s), tl_rank_error = (\<lambda>_ _. ''rank''), tl_dim_error = (\<lambda>_ _. ''dim''),
     tl_dims = fst, tl_dtype = (\<lambda>_. Td_F32), tl_to_dtype = (\<lambda>x _. Inr x),
     tl_reshape = (\<lambda>x d. Inr (d, snd x)), tl_transpose = (\<lambda>x _ _. Inr x), tl_flatten = (\<lambda>x _ _. Inr x),
     tl_narrow = (\<lambda>x _ _ _. Inr x), tl_squeeze = (\<lambda>x _. Inr x), tl_contiguous = Inr,
     tl_matmul = (\<lambda>x y. Inr (fst x, snd x * snd y)),
     tl_add = (\<lambda>x y. if fst x = fst y then Inr (fst x, snd x + snd y) else Inl ''shape''),
     tl_mul = (\<lambda>x y. Inr (fst x, snd x * snd y)), tl_broadcast_add = (\<lambda>x y. Inr (fst x, snd x + snd y)),
     tl_scale = (\<lambda>x _. Inr x), tl_softmax_last_dim = Inr, tl_silu = Inr, tl_sin = Inr, tl_cos = Inr,
     tl_rope = (\<lambda>x _ _. Inr x), tl_repeat_kv = (\<lambda>x _. Inr x),
     tl_from_f32s = (\<lambda>vs d _. Inr (d, of_nat (length vs))), tl_arange = (\<lambda>_ _ _. Inr ([1], 1)),
     tl_dequantize = (\<lambda>q _. Inr ([1], q)), tl_embedding = (\<lambda>t h x. Inr (fst x @ [h], snd t + snd x)),
     tl_qmatmul_from = Inr, tl_qmatmul = (\<lambda>w x. Inr (fst x, w * snd x)),
     tl_rmsnorm_from = (\<lambda>q _. Inr q), tl_rmsnorm = (\<lambda>w x. Inr (fst x, w + snd x)),
     tl_fused_moe = (\<lambda>g _ _ _ _ _ _ x _. Inr (fst x, snd g * snd x)),
     tl_kv_new = (\<lambda>_. None), tl_kv_append = (\<lambda>c k v. (Inr (k, v), Some (k, v))), tl_kv_reset = (\<lambda>_. None),
     tl_kv_k = map_option fst, tl_kv_v = map_option snd, tl_inv_freq = (\<lambda>_ _ _. 0), tl_inv_sqrt = (\<lambda>_. 0)\<rparr>"

lemma toy_add_shape: "add_shape toy_lib"
  by (auto simp: add_shape_def toy_lib_def split: if_splits)

definition toy_layer :: "u32 \<Rightarrow> (toy_tensor, u32, (toy_tensor \<times> toy_tensor) option) Layer_Weights" where
  "toy_layer w = \<lparr>
     ly_self_attn = \<lparr>at_q_proj = w, at_k_proj = w, at_v_proj = w, at_o_proj = w, at_q_norm = 0, at_k_norm = 0,
       at_num_heads = 1, at_num_kv_heads = 1, at_num_kv_groups = 1, at_head_dim = 4,
       at_rotary_emb = \<lparr>ro_sin = ([1], 0), ro_cos = ([1], 0)\<rparr>, at_kv_cache = None\<rparr>,
     ly_mlp = \<lparr>ml_gate_proj = 1, ml_up_proj = w, ml_down_proj = 1\<rparr>, ly_ln1 = 0, ly_ln2 = 1\<rparr>"

definition toy_model :: "(toy_tensor, u32, (toy_tensor, u32, (toy_tensor \<times> toy_tensor) option) Layer_Weights) Model_Weights" where
  "toy_model = From_Dynamic (Some (([9], 5), 4)) [toy_layer 2, toy_layer 3] (Some 1) (Some 2) Dev_Cpu Td_F32"

definition toy_stages where
  "toy_stages =
     [From_Dynamic (Some (([9], 5), 4)) [toy_layer 2] None None Dev_Cpu Td_F32,
      From_Dynamic None [toy_layer 3] (Some 1) (Some 2) Dev_Cpu Td_F32]"

theorem pipeline_equals_whole_witness:
  "run_steps (pipeline (Model_Forward toy_lib)) toy_stages [(([1, 3], 7), 0), (([1, 1], 8), 3)]
     = run_steps (Model_Forward toy_lib) toy_model [(([1, 3], 7), 0), (([1, 1], 8), 3)]"
proof -
  have "stages toy_model toy_stages" by (simp add: toy_model_def toy_stages_def From_Dynamic_def)
  then show ?thesis using pipeline_equals_whole [OF toy_add_shape] by blast
qed

end
