(* ===== verification/Model_Loading.thy ===== *)
theory Model_Loading
  imports Transformer PGGUF
begin

text \<open>
  The assembled model of \<open>Src/ML_Engine/gguf_model.rs\<close>: the enumeration of model kinds with its
  dispatch, the configuration read from metadata, \<open>GGUF_Load_Model\<close>, and the extraction and
  restoring of the key-value caches. \<open>load\<close> is the library's reading of one tensor of the file onto the
  device. The variants behind the features \<open>deepseek\<close> and \<open>llama\<close> are left out: the build file declares
  neither feature, so no build contains them.
\<close>

section \<open>Kinds of models\<close>

datatype ('t, 'q, 'w, 'c) AnyModel =
    Qwen3 "('t, 'w, ('t, 'w, 'c) Layer_Weights) Model_Weights"
  | Qwen3Moe "('t, 'w, ('t, 'q, 'w, 'c) Qwen3MoE_Layer) Model_Weights"

definition AnyModel_Forward ::
  "('t, 'q, 'w, 'c, 'e) tensor_lib \<Rightarrow> ('t, 'q, 'w, 'c) AnyModel \<Rightarrow> 't \<Rightarrow> nat \<Rightarrow> ('e + 't) \<times> ('t, 'q, 'w, 'c) AnyModel" where
  "AnyModel_Forward L m input offset =
     (case m of
        Qwen3 m \<Rightarrow> (case Model_Forward L m input offset of (r, m) \<Rightarrow> (r, Qwen3 m))
      | Qwen3Moe m \<Rightarrow> (case Qwen3MoE_Forward L m input offset of (r, m) \<Rightarrow> (r, Qwen3Moe m)))"

definition AnyModel_Clear_Kv_Cache ::
  "('t, 'q, 'w, 'c, 'e) tensor_lib \<Rightarrow> ('t, 'q, 'w, 'c) AnyModel \<Rightarrow> ('t, 'q, 'w, 'c) AnyModel" where
  "AnyModel_Clear_Kv_Cache L m =
     (case m of Qwen3 m \<Rightarrow> Qwen3 (Model_Clear L m) | Qwen3Moe m \<Rightarrow> Qwen3Moe (Qwen3MoE_Clear L m))"

section \<open>Key-value caches\<close>

datatype 'e kv_error = Ke_No_Layers | Ke_Empty | Ke_Count nat nat | Ke_Append 'e

text \<open>\<open>collect\<close> into a result: the first layer without a cache ends it.\<close>

fun caches_of ::
  "('t, 'q, 'w, 'c, 'e) tensor_lib \<Rightarrow> ('t, 'w, 'c) Attention_Weights list \<Rightarrow> 'e kv_error + ('t \<times> 't) list" where
  "caches_of L [] = Inr []"
| "caches_of L (a # as) =
     rbind (ok_or Ke_Empty (tl_kv_k L (at_kv_cache a))) (\<lambda>k.
     rbind (ok_or Ke_Empty (tl_kv_v L (at_kv_cache a))) (\<lambda>v.
     rbind (caches_of L as) (\<lambda>kvs. Inr ((k, v) # kvs))))"

definition extract_layers ::
  "('t, 'q, 'w, 'c, 'e) tensor_lib \<Rightarrow> ('t, 'w, 'c) Attention_Weights list \<Rightarrow> 'e kv_error + ('t \<times> 't) list" where
  "extract_layers L as = (if as = [] then Inl Ke_No_Layers else caches_of L as)"

definition extract_kv_cache ::
  "('t, 'q, 'w, 'c, 'e) tensor_lib \<Rightarrow> ('t, 'q, 'w, 'c) AnyModel \<Rightarrow> 'e kv_error + ('t \<times> 't) list" where
  "extract_kv_cache L m =
     (case m of
        Qwen3 m \<Rightarrow> extract_layers L (map ly_self_attn (mw_layers m))
      | Qwen3Moe m \<Rightarrow> extract_layers L (map qm_self_attn (mw_layers m)))"

text \<open>The loop of \<open>restore_kv_cache\<close>; layers before a failing one keep what was appended.\<close>

fun restore_layers ::
  "('t, 'q, 'w, 'c, 'e) tensor_lib \<Rightarrow> ('l \<Rightarrow> ('t, 'w, 'c) Attention_Weights) \<Rightarrow>
   (('t, 'w, 'c) Attention_Weights \<Rightarrow> 'l \<Rightarrow> 'l) \<Rightarrow> 'l list \<Rightarrow> ('t \<times> 't) list \<Rightarrow> ('e kv_error + unit) \<times> 'l list" where
  "restore_layers L get put (ly # lys) ((k, v) # kvs) =
     (case tl_kv_append L (at_kv_cache (get ly)) k v of
        (Inl e, cache) \<Rightarrow> (Inl (Ke_Append e), put ((get ly)\<lparr>at_kv_cache := cache\<rparr>) ly # lys)
      | (Inr _, cache) \<Rightarrow>
          (case restore_layers L get put lys kvs of
             (r, lys') \<Rightarrow> (r, put ((get ly)\<lparr>at_kv_cache := cache\<rparr>) ly # lys')))"
| "restore_layers L get put lys kvs = (Inr (), lys)"

definition restore_model ::
  "('t, 'q, 'w, 'c, 'e) tensor_lib \<Rightarrow> ('l \<Rightarrow> ('t, 'w, 'c) Attention_Weights) \<Rightarrow>
   (('t, 'w, 'c) Attention_Weights \<Rightarrow> 'l \<Rightarrow> 'l) \<Rightarrow> ('t, 'w, 'l) Model_Weights \<Rightarrow> ('t \<times> 't) list \<Rightarrow>
   ('e kv_error + unit) \<times> ('t, 'w, 'l) Model_Weights" where
  "restore_model L get put m kvs =
     (if length kvs \<noteq> length (mw_layers m) then (Inl (Ke_Count (length (mw_layers m)) (length kvs)), m)
      else case restore_layers L get put (mw_layers m) kvs of (r, lys) \<Rightarrow> (r, m\<lparr>mw_layers := lys\<rparr>))"

definition restore_kv_cache ::
  "('t, 'q, 'w, 'c, 'e) tensor_lib \<Rightarrow> ('t, 'q, 'w, 'c) AnyModel \<Rightarrow> ('t \<times> 't) list \<Rightarrow>
   ('e kv_error + unit) \<times> ('t, 'q, 'w, 'c) AnyModel" where
  "restore_kv_cache L m kvs =
     (case m of
        Qwen3 m \<Rightarrow> (case restore_model L ly_self_attn (\<lambda>a ly. ly\<lparr>ly_self_attn := a\<rparr>) m kvs of (r, m) \<Rightarrow> (r, Qwen3 m))
      | Qwen3Moe m \<Rightarrow>
          (case restore_model L qm_self_attn (\<lambda>a ly. ly\<lparr>qm_self_attn := a\<rparr>) m kvs of (r, m) \<Rightarrow> (r, Qwen3Moe m)))"

section \<open>Configuration\<close>

definition MoE_Cfg_From_Metadata :: "candle \<Rightarrow> (string \<times> gguf_value) list \<Rightarrow> string \<Rightarrow> nat \<Rightarrow> MoeCfg" where
  "MoE_Cfg_From_Metadata cd md arch hidden_size =
     (let expert_count = unwrap_or 0 (Get_Metadata_Usize cd md (arch @ ''.expert_count''));
          expert_used_count = unwrap_or 0 (Get_Metadata_Usize cd md (arch @ ''.expert_used_count''));
          expert_feed_forward_length = unwrap_or 0 (Get_Metadata_Usize cd md (arch @ ''.expert_feed_forward_length''))
      in \<lparr>mc_moe_intermediate_size = expert_feed_forward_length, mc_num_experts = expert_count,
          mc_norm_topk_prob = (expert_used_count > 0), mc_num_experts_per_tok = max expert_used_count 1,
          mc_hidden_size = hidden_size\<rparr>)"

definition Td_F16 :: tensor_dtype where "Td_F16 = Td_Other ''F16''"
definition Td_BF16 :: tensor_dtype where "Td_BF16 = Td_Other ''BF16''"

definition Read_Model_Dtype :: "candle \<Rightarrow> (string \<times> gguf_value) list \<Rightarrow> tensor_dtype" where
  "Read_Model_Dtype cd md =
     (case map_of md ''general.dtype'' of
        Some v \<Rightarrow>
          (case cd_to_u32 cd v of
             Some n \<Rightarrow> if n = 0 then Td_F32 else if n = 1 then Td_F16 else if n = 30 then Td_BF16 else Td_F16
           | None \<Rightarrow> Td_F16)
      | None \<Rightarrow> Td_F16)"

section \<open>Loading\<close>

datatype 'e load_error =
    Le_Not_Found
  | Le_Gguf gguf_error
  | Le_Open
  | Le_Read
  | Le_Architecture string
  | Le_Range nat nat
  | Le_Exceeds_Split nat nat nat nat
  | Le_Rope 'e
  | Le_No_Embedding
  | Le_Dequantize 'e
  | Le_Assembly nat nat 'e
  | Le_Panic
  | Le_No_Norm
  | Le_Norm 'e
  | Le_No_Head
  | Le_Head 'e

record ('t, 'q, 'w, 'c) GGUF_Model =
  gm_model :: "('t, 'q, 'w, 'c) AnyModel"
  gm_eos_token :: u32
  gm_arch_info :: Model_Arch_Info
  gm_model_path :: string
  gm_device :: device
  gm_has_input_head :: bool
  gm_has_output_head :: bool

text \<open>The range check: a full file clamps the end, a split file refuses what it does not hold.\<close>

definition check_range :: "Model_Arch_Info \<Rightarrow> nat \<Rightarrow> nat \<Rightarrow> 'e load_error + nat" where
  "check_range info start stop =
     (if start > stop then Inl (Le_Range start stop)
      else if is_split info then
        (if start < split_start info \<or> stop > split_end info
         then Inl (Le_Exceeds_Split start stop (split_start info) (split_end info)) else Inr stop)
      else Inr (min stop (num_layers info + 1)))"

definition load_embedding ::
  "candle \<Rightarrow> ('t, 'q, 'w, 'c, 'e) tensor_lib \<Rightarrow> Content \<Rightarrow> (string \<Rightarrow> 'q option) \<Rightarrow> Model_Arch_Info \<Rightarrow> device \<Rightarrow> nat \<Rightarrow>
   'e load_error + ('t \<times> nat) option" where
  "load_embedding cd L c load info dev start =
     (if start = 0 then
        rbind (map_err Le_Gguf (GGUF_Load_Layer cd c load 0)) (\<lambda>lw.
        rbind (ok_or Le_No_Embedding (map_of (lw_tensors lw) TOKEN_EMBD)) (\<lambda>embed_qtensor.
        rbind (map_err Le_Dequantize (tl_dequantize L embed_qtensor dev)) (\<lambda>embed_tensor.
        Inr (Some (embed_tensor, embedding_length info)))))
      else Inr None)"

text \<open>\<open>build blk tensors\<close> is the layer's \<open>From_Extracted\<close>.\<close>

definition load_block ::
  "candle \<Rightarrow> Content \<Rightarrow> (string \<Rightarrow> 'q option) \<Rightarrow> (nat \<Rightarrow> 'q tensor_map \<Rightarrow> 'e build_error + 'l) \<Rightarrow> nat \<Rightarrow> 'e load_error + 'l" where
  "load_block cd c load build i =
     rbind (map_err Le_Gguf (GGUF_Load_Layer cd c load i)) (\<lambda>lw.
     map_err (\<lambda>e. case e of Be_Error e \<Rightarrow> Le_Assembly i (i - 1) e | Be_Panic \<Rightarrow> Le_Panic)
       (build (i - 1) (map_of (lw_tensors lw))))"

fun load_blocks :: "(nat \<Rightarrow> 'e + 'l) \<Rightarrow> nat list \<Rightarrow> 'e + 'l list" where
  "load_blocks f [] = Inr []"
| "load_blocks f (i # is) = rbind (f i) (\<lambda>ly. rbind (load_blocks f is) (\<lambda>lys. Inr (ly # lys)))"

text \<open>The output weights, or the embedding's when the model shares them.\<close>

definition head_tensor ::
  "candle \<Rightarrow> Content \<Rightarrow> (string \<Rightarrow> 'q option) \<Rightarrow> 'q GGUF_Layer_Weights \<Rightarrow> 'e load_error + 'q" where
  "head_tensor cd c load lw =
     (case map_of (lw_tensors lw) OUTPUT of
        Some qt \<Rightarrow> Inr qt
      | None \<Rightarrow>
          rbind (map_err Le_Gguf (GGUF_Load_Layer cd c load 0)) (\<lambda>embed_lw.
          ok_or Le_No_Head (map_of (lw_tensors embed_lw) TOKEN_EMBD)))"

definition load_output ::
  "candle \<Rightarrow> ('t, 'q, 'w, 'c, 'e) tensor_lib \<Rightarrow> Content \<Rightarrow> (string \<Rightarrow> 'q option) \<Rightarrow> Model_Arch_Info \<Rightarrow> nat \<Rightarrow>
   'e load_error + 'w option \<times> 'w option" where
  "load_output cd L c load info stop =
     (if stop = num_layers info + 1 then
        rbind (map_err Le_Gguf (GGUF_Load_Layer cd c load (num_layers info + 1))) (\<lambda>lw.
        rbind (ok_or Le_No_Norm (map_of (lw_tensors lw) OUTPUT_NORM)) (\<lambda>norm_qtensor.
        rbind (map_err Le_Norm (tl_rmsnorm_from L norm_qtensor (rms_norm_eps info))) (\<lambda>nrm.
        rbind (head_tensor cd c load lw) (\<lambda>lm_head_qtensor.
        rbind (map_err Le_Head (tl_qmatmul_from L lm_head_qtensor)) (\<lambda>head.
        Inr (Some nrm, Some head))))))
      else Inr (None, None))"

definition assemble ::
  "candle \<Rightarrow> ('t, 'q, 'w, 'c, 'e) tensor_lib \<Rightarrow> Content \<Rightarrow> (string \<Rightarrow> 'q option) \<Rightarrow> Model_Arch_Info \<Rightarrow> device \<Rightarrow> tensor_dtype \<Rightarrow>
   (nat \<Rightarrow> 'q tensor_map \<Rightarrow> 'e build_error + 'l) \<Rightarrow> nat \<Rightarrow> nat \<Rightarrow> 'e load_error + ('t, 'w, 'l) Model_Weights" where
  "assemble cd L c load info dev dt build start stop =
     rbind (load_embedding cd L c load info dev start) (\<lambda>embed_tokens.
     rbind (load_blocks (load_block cd c load build) [max start 1..<min stop (num_layers info) + 1]) (\<lambda>lys.
     rbind (load_output cd L c load info stop) (\<lambda>(nrm, head).
     Inr (From_Dynamic embed_tokens lys nrm head dev dt))))"

text \<open>Everything after the file is parsed. \<open>ctx\<close> adds the name of a tensor to an error.\<close>

definition load_any ::
  "candle \<Rightarrow> ('t, 'q, 'w, 'c, 'e) tensor_lib \<Rightarrow> (string \<Rightarrow> 'e \<Rightarrow> 'e) \<Rightarrow> Content \<Rightarrow> (string \<Rightarrow> 'q option) \<Rightarrow> device \<Rightarrow> nat \<Rightarrow> nat \<Rightarrow>
   'e load_error + ('t, 'q, 'w, 'c) AnyModel" where
  "load_any cd L ctx c load dev start stop =
     (let info = GGUF_Analyze_From_Content cd c;
          model_dtype = Read_Model_Dtype cd (metadata c);
          arch = ascii_lower (architecture info)
      in if arch \<noteq> ''qwen3'' \<and> arch \<noteq> ''qwen3moe'' then Inl (Le_Architecture (architecture info))
         else rbind (check_range info start stop) (\<lambda>stop.
         rbind (map_err Le_Rope
           (Rotary_New L Td_F32 (head_dim info) (context_length info) (rope_freq_base info) dev)) (\<lambda>rotary.
         if arch = ''qwen3moe'' then
           (let cfg = MoE_Cfg_From_Metadata cd (metadata c) arch (head_dim info) in
            rbind (assemble cd L c load info dev model_dtype
              (\<lambda>blk tensors. MoE_Layer_From_Extracted L ctx tensors (head_count info) (head_count_kv info) (head_dim info)
                 (rms_norm_eps info) rotary blk (mc_num_experts cfg > 0) cfg model_dtype) start stop) (\<lambda>m.
            Inr (Qwen3Moe m)))
         else
           rbind (assemble cd L c load info dev model_dtype
             (\<lambda>blk tensors. Layer_From_Extracted L tensors (head_count info) (head_count_kv info) (head_dim info)
                (rms_norm_eps info) rotary blk) start stop) (\<lambda>m.
           Inr (Qwen3 m)))))"

definition load_content ::
  "candle \<Rightarrow> ('t, 'q, 'w, 'c, 'e) tensor_lib \<Rightarrow> (string \<Rightarrow> 'e \<Rightarrow> 'e) \<Rightarrow> Content \<Rightarrow> (string \<Rightarrow> 'q option) \<Rightarrow> device \<Rightarrow> string \<Rightarrow> nat \<Rightarrow> nat \<Rightarrow>
   'e load_error + ('t, 'q, 'w, 'c) GGUF_Model" where
  "load_content cd L ctx c load dev path start stop =
     (let info = GGUF_Analyze_From_Content cd c in
      rbind (load_any cd L ctx c load dev start stop) (\<lambda>m.
      Inr \<lparr>gm_model = m, gm_eos_token = eos_token_id info, gm_arch_info = info, gm_model_path = path, gm_device = dev,
           gm_has_input_head = (start = 0),
           gm_has_output_head = ((if is_split info then stop else min stop (num_layers info + 1)) = num_layers info + 1)\<rparr>))"

text \<open>\<open>Path::with_extension\<close> on a path whose last part is a file name.\<close>

definition with_extension :: "string \<Rightarrow> string \<Rightarrow> string" where
  "with_extension path ext =
     (let r = rev path;
          n = takeWhile (\<lambda>ch. ch \<noteq> CHR ''/'') r;
          d = dropWhile (\<lambda>ch. ch \<noteq> CHR ''/'') r;
          stem = tl (dropWhile (\<lambda>ch. ch \<noteq> CHR ''.'') n)
      in if stem = [] then path @ ''.'' @ ext else rev d @ rev stem @ ''.'' @ ext)"

definition resolve_path :: "(string \<times> bytes) list \<Rightarrow> string \<Rightarrow> 'e load_error + string" where
  "resolve_path disk model_path =
     (if map_of disk model_path \<noteq> None then Inr model_path
      else if map_of disk (with_extension model_path ''pgguf'') \<noteq> None then Inr (with_extension model_path ''pgguf'')
      else if map_of disk (with_extension model_path ''gguf'') \<noteq> None then Inr (with_extension model_path ''gguf'')
      else Inl Le_Not_Found)"

definition GGUF_Load_Model ::
  "candle \<Rightarrow> ('t, 'q, 'w, 'c, 'e) tensor_lib \<Rightarrow> (string \<Rightarrow> 'e \<Rightarrow> 'e) \<Rightarrow> (bytes \<Rightarrow> Content option) \<Rightarrow> (bytes \<Rightarrow> string \<Rightarrow> 'q option) \<Rightarrow>
   (bytes \<Rightarrow> u32) \<Rightarrow> (nat \<Rightarrow> nat) \<Rightarrow> bytes \<Rightarrow> nat \<Rightarrow> nat \<Rightarrow> string \<Rightarrow> device \<Rightarrow> (string \<times> bytes) list \<Rightarrow>
   ('e load_error + ('t, 'q, 'w, 'c) GGUF_Model) \<times> (string \<times> bytes) list" where
  "GGUF_Load_Model cd L ctx read_content read_tensor hash sched after_truncate start stop model_path dev disk =
     (case resolve_path disk model_path of
        Inl e \<Rightarrow> (Inl e, disk)
      | Inr resolved \<Rightarrow>
          (case GGUF_Analyze_And_Convert cd read_content hash sched after_truncate resolved disk of
             (Inl e, disk) \<Rightarrow> (Inl (Le_Gguf e), disk)
           | (Inr (_, actual_path), disk) \<Rightarrow>
               (rbind (ok_or Le_Open (map_of disk actual_path)) (\<lambda>contents.
                rbind (ok_or Le_Read (read_content contents)) (\<lambda>c.
                load_content cd L ctx c (read_tensor contents) dev actual_path start stop)), disk)))"

definition GGUF_Model_Inference ::
  "('t, 'q, 'w, 'c, 'e) tensor_lib \<Rightarrow> ('t, 'q, 'w, 'c) GGUF_Model \<Rightarrow> 't \<Rightarrow> nat \<Rightarrow> ('e + 't) \<times> ('t, 'q, 'w, 'c) GGUF_Model" where
  "GGUF_Model_Inference L g input offset =
     (case AnyModel_Forward L (gm_model g) input offset of (r, m) \<Rightarrow> (r, g\<lparr>gm_model := m\<rparr>))"

definition GGUF_Model_Clear_KV_Cache ::
  "('t, 'q, 'w, 'c, 'e) tensor_lib \<Rightarrow> ('t, 'q, 'w, 'c) GGUF_Model \<Rightarrow> ('t, 'q, 'w, 'c) GGUF_Model" where
  "GGUF_Model_Clear_KV_Cache L g = g\<lparr>gm_model := AnyModel_Clear_Kv_Cache L (gm_model g)\<rparr>"

section \<open>Loading by ranges\<close>

lemma num_layers_block_count: "num_layers (GGUF_Analyze_From_Content cd c) = block_count cd (metadata c)"
  by (simp add: GGUF_Analyze_From_Content_def block_count_def Let_def)

lemma load_blocks_Inr: "load_blocks f is = Inr lys \<longleftrightarrow> list_all2 (\<lambda>i ly. f i = Inr ly) is lys"
  by (induction "is" arbitrary: lys) (auto simp: rbind_eq_Inr list_all2_Cons1)

text \<open>The part of a loaded model with \<open>n\<close> blocks that the range from \<open>s\<close> to \<open>e\<close> denotes.\<close>

definition part :: "('t, 'w, 'l) Model_Weights \<Rightarrow> nat \<Rightarrow> nat \<Rightarrow> nat \<Rightarrow> ('t, 'w, 'l) Model_Weights" where
  "part m n s e = m\<lparr>
     mw_embed_tokens := if s = 0 then mw_embed_tokens m else None,
     mw_layers := drop (s - 1) (take e (mw_layers m)),
     mw_norm := if e = n + 1 then mw_norm m else None,
     mw_lm_head := if e = n + 1 then mw_lm_head m else None\<rparr>"

lemma load_blocks_part:
  assumes "load_blocks f [1..<n + 1] = Inr lys" "s \<le> e" "e \<le> n + 1"
  shows "load_blocks f [max s 1..<min e n + 1] = Inr (drop (s - 1) (take e lys))"
proof -
  have all: "list_all2 (\<lambda>i ly. f i = Inr ly) [1..<n + 1] lys" using assms(1) by (simp only: load_blocks_Inr)
  have "length lys = n" using list_all2_lengthD [OF all] by (simp del: upt_Suc)
  moreover have "take e [1..<n + 1] = [1..<min e n + 1]"
    using assms(3) by (cases "e \<le> n") (simp_all add: take_upt min_def del: upt_Suc)
  moreover have "drop (s - 1) [1..<min e n + 1] = [max s 1..<min e n + 1]"
    by (cases "s \<le> 1") (auto simp: drop_upt max_def le_Suc_eq simp del: upt_Suc)
  ultimately have "list_all2 (\<lambda>i ly. f i = Inr ly) [max s 1..<min e n + 1] (drop (s - 1) (take e lys))"
    using all list_all2_dropI list_all2_takeI by metis
  then show ?thesis by (simp only: load_blocks_Inr)
qed

lemma assemble_part:
  assumes "assemble cd L c load info dev dt build 0 (num_layers info + 1) = Inr m"
    and "s \<le> e" "e \<le> num_layers info + 1"
  shows "assemble cd L c load info dev dt build s e = Inr (part m (num_layers info) s e)"
    and "length (mw_layers m) = num_layers info"
proof -
  let ?n = "num_layers info"
  from assms(1) obtain emb lys nrm head where
    emb: "load_embedding cd L c load info dev 0 = Inr emb"
    and lys: "load_blocks (load_block cd c load build) [1..<?n + 1] = Inr lys"
    and out: "load_output cd L c load info (?n + 1) = Inr (nrm, head)"
    and m: "m = From_Dynamic emb lys nrm head dev dt"
    unfolding assemble_def by (auto simp: rbind_eq_Inr)
  have "load_embedding cd L c load info dev s = Inr (if s = 0 then emb else None)"
    using emb by (simp add: load_embedding_def)
  moreover have "load_output cd L c load info e = Inr (if e = ?n + 1 then nrm else None, if e = ?n + 1 then head else None)"
    using out by (cases "e = ?n + 1") (simp, simp add: load_output_def)
  ultimately show "assemble cd L c load info dev dt build s e = Inr (part m ?n s e)"
    using load_blocks_part [OF lys assms(2,3)] unfolding assemble_def
    by (simp add: part_def m From_Dynamic_def del: upt_Suc)
  show "length (mw_layers m) = ?n"
    using lys by (auto simp: m From_Dynamic_def load_blocks_Inr dest: list_all2_lengthD simp del: upt_Suc)
qed

text \<open>Consecutive ranges from \<open>s\<close> to \<open>e\<close>.\<close>

fun consecutive :: "nat \<Rightarrow> (nat \<times> nat) list \<Rightarrow> nat \<Rightarrow> bool" where
  "consecutive s [] e \<longleftrightarrow> False"
| "consecutive s [(a, b)] e \<longleftrightarrow> a = s \<and> b = e \<and> a \<le> b"
| "consecutive s ((a, b) # r # rs) e \<longleftrightarrow> a = s \<and> a \<le> b \<and> consecutive (b + 1) (r # rs) e"

lemma consecutive_bounds: "consecutive s rs e \<Longrightarrow> (a, b) \<in> set rs \<Longrightarrow> s \<le> a \<and> a \<le> b \<and> b \<le> e"
proof (induction s rs e arbitrary: a b rule: consecutive.induct)
  case (3 s a' b' r rs e)
  obtain a1 b1 where r: "r = (a1, b1)" by (cases r)
  then have "consecutive (b' + 1) (r # rs) e" using 3 by simp
  note IH = "3.IH" [OF this]
  have "b' < e" using IH [of a1 b1] r by simp
  moreover have "s \<le> b'" "a' = s" using "3.prems"(1) by simp_all
  ultimately show ?case using "3.prems"(2) IH [of a b] by auto
qed auto

lemma parts_stages:
  "consecutive s rs (n + 1) \<Longrightarrow> length (mw_layers m) = n \<Longrightarrow> stages (part m n s (n + 1)) (map (\<lambda>(a, b). part m n a b) rs)"
proof (induction s rs "n + 1" rule: consecutive.induct)
  case (3 s a b r rs)
  have "b < n + 1" using consecutive_bounds [of "b + 1" "r # rs" "n + 1" "fst r" "snd r"] 3 by fastforce
  moreover have ab: "b - (s - Suc 0) + (s - Suc 0) = b" using "3.prems"(1) unfolding consecutive.simps by linarith
  moreover have "prefix (drop (a - 1) (take b (mw_layers m))) (drop (a - 1) (take (n + 1) (mw_layers m)))"
    using \<open>b < n + 1\<close> by (metis add_diff_cancel_left' drop_take take_is_prefix take_take min.absorb1 diff_le_mono less_imp_le prefix_def)
  moreover have "(part m n a (n + 1))\<lparr>mw_embed_tokens := None,
        mw_layers := drop (length (drop (a - 1) (take b (mw_layers m)))) (drop (a - 1) (take (n + 1) (mw_layers m)))\<rparr>
      = part m n (b + 1) (n + 1)"
    using 3 \<open>b < n + 1\<close> ab by (simp add: part_def)
  moreover have "stages (part m n (b + 1) (n + 1)) (map (\<lambda>(a, b). part m n a b) (r # rs))"
    using 3 by simp
  ultimately show ?case using 3 by (simp add: part_def)
qed auto

definition any_stages :: "('t, 'q, 'w, 'c) AnyModel \<Rightarrow> ('t, 'q, 'w, 'c) AnyModel list \<Rightarrow> bool" where
  "any_stages m ms \<longleftrightarrow>
     (case m of
        Qwen3 k \<Rightarrow> (\<exists>ks. ms = map Qwen3 ks \<and> stages k ks)
      | Qwen3Moe k \<Rightarrow> (\<exists>ks. ms = map Qwen3Moe ks \<and> stages k ks))"

lemma pipeline_map:
  assumes "\<And>k x off. g (C k) x off = (case f k x off of (r, k') \<Rightarrow> (r, C k'))"
  shows "pipeline g (map C ks) x off = (case pipeline f ks x off of (r, ks') \<Rightarrow> (r, map C ks'))"
  unfolding pipeline_def
  by (induction ks arbitrary: x) (auto simp: assms split: prod.splits sum.splits)

lemma run_steps_map:
  assumes "\<And>k x off. g (C k) x off = (case f k x off of (r, k') \<Rightarrow> (r, C k'))"
  shows "run_steps g (C k) steps = run_steps f k steps"
  by (induction steps arbitrary: k) (auto simp: assms split: prod.splits)

lemma AnyModel_Forward_simps:
  "AnyModel_Forward L (Qwen3 k) x off = (case Model_Forward L k x off of (r, k') \<Rightarrow> (r, Qwen3 k'))"
  "AnyModel_Forward L (Qwen3Moe j) x off = (case Qwen3MoE_Forward L j x off of (r, j') \<Rightarrow> (r, Qwen3Moe j'))"
  by (simp_all add: AnyModel_Forward_def)

lemma any_pipeline_steps:
  assumes "add_shape L" "any_stages m ms"
  shows "run_steps (pipeline (AnyModel_Forward L)) ms steps = run_steps (AnyModel_Forward L) m steps"
proof (cases m)
  case (Qwen3 k)
  then obtain ks where ks: "ms = map Qwen3 ks" "stages k ks" using assms(2) by (auto simp: any_stages_def)
  note hom = AnyModel_Forward_simps(1) [of L]
  have "run_steps (pipeline (AnyModel_Forward L)) (map Qwen3 ks) steps = run_steps (pipeline (Model_Forward L)) ks steps"
    by (rule run_steps_map) (rule pipeline_map [of "AnyModel_Forward L" Qwen3 "Model_Forward L"], rule hom)
  also have "\<dots> = run_steps (Model_Forward L) k steps"
    unfolding Model_Forward_def by (rule qwen3.pipeline_steps [OF assms(1) ks(2)])
  finally show ?thesis using Qwen3 ks(1) run_steps_map [of "AnyModel_Forward L" Qwen3 "Model_Forward L" k steps, OF hom] by simp
next
  case (Qwen3Moe k)
  then obtain ks where ks: "ms = map Qwen3Moe ks" "stages k ks" using assms(2) by (auto simp: any_stages_def)
  note hom = AnyModel_Forward_simps(2) [of L]
  have "run_steps (pipeline (AnyModel_Forward L)) (map Qwen3Moe ks) steps = run_steps (pipeline (Qwen3MoE_Forward L)) ks steps"
    by (rule run_steps_map) (rule pipeline_map [of "AnyModel_Forward L" Qwen3Moe "Qwen3MoE_Forward L"], rule hom)
  also have "\<dots> = run_steps (Qwen3MoE_Forward L) k steps"
    unfolding Qwen3MoE_Forward_def by (rule qwen3_moe.pipeline_steps [OF assms(1) ks(2)])
  finally show ?thesis using Qwen3Moe ks(1) run_steps_map [of "AnyModel_Forward L" Qwen3Moe "Qwen3MoE_Forward L" k steps, OF hom] by simp
qed

lemma check_full:
  "\<not> is_split info \<Longrightarrow> s \<le> e \<Longrightarrow> e \<le> num_layers info + 1 \<Longrightarrow> check_range info s e = Inr e"
  by (simp add: check_range_def min_def)

text \<open>What loading comes down to once the file is known to be of a supported kind.\<close>

lemma load_any_cases:
  assumes "load_any cd L ctx c load dev 0 (num_layers info + 1) = Inr m" "\<not> is_split info"
    and info: "info = GGUF_Analyze_From_Content cd c"
  obtains (dense) dt build k where "m = Qwen3 k" "assemble cd L c load info dev dt build 0 (num_layers info + 1) = Inr k"
      "\<And>s e. s \<le> e \<Longrightarrow> e \<le> num_layers info + 1 \<Longrightarrow>
         load_any cd L ctx c load dev s e = rbind (assemble cd L c load info dev dt build s e) (\<lambda>m. Inr (Qwen3 m))"
  | (moe) dt build k where "m = Qwen3Moe k" "assemble cd L c load info dev dt build 0 (num_layers info + 1) = Inr k"
      "\<And>s e. s \<le> e \<Longrightarrow> e \<le> num_layers info + 1 \<Longrightarrow>
         load_any cd L ctx c load dev s e = rbind (assemble cd L c load info dev dt build s e) (\<lambda>m. Inr (Qwen3Moe m))"
proof -
  note ok = check_full [OF assms(2)]
  define arch where "arch = ascii_lower (architecture info)"
  define dt where "dt = Read_Model_Dtype cd (metadata c)"
  define cfg where "cfg = MoE_Cfg_From_Metadata cd (metadata c) arch (head_dim info)"
  note unf = load_any_def [of cd L ctx c load dev, folded info, unfolded Let_def, folded arch_def dt_def, folded cfg_def]
  have arch: "arch = ''qwen3'' \<or> arch = ''qwen3moe''"
    using assms(1) unfolding unf by (auto split: if_splits)
  obtain rotary where rot: "map_err Le_Rope (Rotary_New L Td_F32 (head_dim info) (context_length info) (rope_freq_base info) dev) = Inr rotary"
    using assms(1) arch unfolding unf ok [of 0 "num_layers info + 1", simplified] by (auto simp: rbind_eq_Inr)
  show ?thesis
  proof (cases "arch = ''qwen3moe''")
    case True
    have l: "load_any cd L ctx c load dev s e = rbind (assemble cd L c load info dev dt
        (\<lambda>blk tensors. MoE_Layer_From_Extracted L ctx tensors (head_count info) (head_count_kv info) (head_dim info)
                 (rms_norm_eps info) rotary blk (mc_num_experts cfg > 0) cfg dt) s e) (\<lambda>m. Inr (Qwen3Moe m))"
      if "s \<le> e" "e \<le> num_layers info + 1" for s e
      using True rot by (simp add: unf ok [OF that])
    from assms(1) [unfolded l [OF le0 le_refl]] obtain k where k: "m = Qwen3Moe k"
      "assemble cd L c load info dev dt
        (\<lambda>blk tensors. MoE_Layer_From_Extracted L ctx tensors (head_count info) (head_count_kv info) (head_dim info)
                 (rms_norm_eps info) rotary blk (mc_num_experts cfg > 0) cfg dt) 0 (num_layers info + 1) = Inr k"
      by (auto simp: rbind_eq_Inr)
    show ?thesis by (rule moe [OF k l])
  next
    case False
    have l: "load_any cd L ctx c load dev s e = rbind (assemble cd L c load info dev dt
        (\<lambda>blk tensors. Layer_From_Extracted L tensors (head_count info) (head_count_kv info) (head_dim info)
                (rms_norm_eps info) rotary blk) s e) (\<lambda>m. Inr (Qwen3 m))"
      if "s \<le> e" "e \<le> num_layers info + 1" for s e
      using False arch rot by (simp add: unf ok [OF that])
    from assms(1) [unfolded l [OF le0 le_refl]] obtain k where k: "m = Qwen3 k"
      "assemble cd L c load info dev dt
        (\<lambda>blk tensors. Layer_From_Extracted L tensors (head_count info) (head_count_kv info) (head_dim info)
                (rms_norm_eps info) rotary blk) 0 (num_layers info + 1) = Inr k"
      by (auto simp: rbind_eq_Inr)
    show ?thesis by (rule dense [OF k l])
  qed
qed

lemma load_parts:
  assumes "load_any cd L ctx c load dev 0 (num_layers info + 1) = Inr m" "\<not> is_split info"
    and "info = GGUF_Analyze_From_Content cd c" "consecutive 0 rs (num_layers info + 1)"
  shows "\<exists>ms. map (\<lambda>(s, e). load_any cd L ctx c load dev s e) rs = map Inr ms \<and> any_stages m ms"
  using assms(1-3)
proof (cases rule: load_any_cases)
  case (dense dt build k)
  note p = assemble_part [OF dense(2)]
  have whole: "part k (num_layers info) 0 (num_layers info + 1) = k" using p(2) [of 0 0] by (simp add: part_def)
  have "map (\<lambda>(s, e). load_any cd L ctx c load dev s e) rs =
      map Inr (map Qwen3 (map (\<lambda>(a, b). part k (num_layers info) a b) rs))"
    using consecutive_bounds [OF assms(4)] dense(3) p(1) by auto
  moreover have "any_stages m (map Qwen3 (map (\<lambda>(a, b). part k (num_layers info) a b) rs))"
    using parts_stages [OF assms(4) p(2) [of 0 0], unfolded whole] unfolding dense(1) any_stages_def AnyModel.case by blast
  ultimately show ?thesis by blast
next
  case (moe dt build k)
  note p = assemble_part [OF moe(2)]
  have whole: "part k (num_layers info) 0 (num_layers info + 1) = k" using p(2) [of 0 0] by (simp add: part_def)
  have "map (\<lambda>(s, e). load_any cd L ctx c load dev s e) rs =
      map Inr (map Qwen3Moe (map (\<lambda>(a, b). part k (num_layers info) a b) rs))"
    using consecutive_bounds [OF assms(4)] moe(3) p(1) by auto
  moreover have "any_stages m (map Qwen3Moe (map (\<lambda>(a, b). part k (num_layers info) a b) rs))"
    using parts_stages [OF assms(4) p(2) [of 0 0], unfolded whole] unfolding moe(1) any_stages_def AnyModel.case by blast
  ultimately show ?thesis by blast
qed

section \<open>Loading from a split file\<close>

lemma layer_tensors:
  assumes "GGUF_Load_Layer cd c load l = Inr w"
  shows "map_of (lw_tensors w) = (\<lambda>k. if k \<in> set (layer_names c (block_count cd (metadata c)) l) then load k else None)"
    and "\<forall>k \<in> set (layer_names c (block_count cd (metadata c)) l). load k \<noteq> None"
proof -
  have "load_all load (layer_names c (block_count cd (metadata c)) l) [] = Inr (lw_tensors w)"
    using assms by (simp add: GGUF_Load_Layer_iff)
  from load_all_InrD [OF this] load_all_Nil [of "layer_names c (block_count cd (metadata c)) l" load] this
  show "map_of (lw_tensors w) = (\<lambda>k. if k \<in> set (layer_names c (block_count cd (metadata c)) l) then load k else None)"
    "\<forall>k \<in> set (layer_names c (block_count cd (metadata c)) l). load k \<noteq> None" by auto
qed

definition supported_arch :: "string \<Rightarrow> bool" where
  "supported_arch arch \<longleftrightarrow> ascii_lower arch = ''qwen3'' \<or> ascii_lower arch = ''qwen3moe''"

lemma ascii_lower_q: "(let n = (of_char c :: nat) in if 65 \<le> n \<and> n \<le> 90 then char_of (n + 32) else c) = CHR ''q'' \<Longrightarrow>
    c = CHR ''q'' \<or> c = CHR ''Q''"
proof (cases "65 \<le> (of_char c :: nat) \<and> (of_char c :: nat) \<le> 90")
  case True
  assume "(let n = (of_char c :: nat) in if 65 \<le> n \<and> n \<le> 90 then char_of (n + 32) else c) = CHR ''q''"
  then have "char_of ((of_char c :: nat) + 32) = CHR ''q''" using True by simp
  then have "(of_char (char_of ((of_char c :: nat) + 32) :: char) :: nat) = of_char (CHR ''q'')" by simp
  then have "((of_char c :: nat) + 32) mod 256 = 113" by (simp only: of_char_of) simp
  then have "(of_char c :: nat) = of_char (CHR ''Q'')" using True by simp
  then have "c = CHR ''Q''" by (simp only: of_char_eq_iff)
  then show ?thesis ..
qed simp

lemma supported_arch_q: "supported_arch arch \<Longrightarrow> \<exists>r. arch = CHR ''q'' # r \<or> arch = CHR ''Q'' # r"
  using ascii_lower_q by (cases arch) (auto simp: supported_arch_def ascii_lower_def)

text \<open>The keys loading reads are kept by a split.\<close>

definition kept_key :: "string \<Rightarrow> bool" where
  "kept_key k \<longleftrightarrow> k \<noteq> [] \<and> k ! 0 \<in> {CHR ''q'', CHR ''Q'', CHR ''g''}"

lemma kept_key_looked_up:
  assumes "distinct (map fst md)" "kept_key k"
  shows "map_of (rev (split_metadata md kt bm start stop)) k = map_of md k"
proof -
  have "\<not> should_skip kt k" "k \<noteq> ''pleiades.split.end''" "k \<noteq> ''pleiades.split.start''" "k \<noteq> ''pleiades.layer_bitmap''"
    using assms(2) by (cases k; cases kt; auto simp: kept_key_def should_skip_def skip_keys_def)+
  then show ?thesis by (simp add: split_metadata_lookup [OF assms(1)])
qed

lemma kept_keys:
  "kept_key ''general.architecture''" "kept_key ''general.dtype''"
  "supported_arch arch \<Longrightarrow> kept_key (arch @ x)"
  "supported_arch arch \<Longrightarrow> kept_key (ascii_lower arch @ x)"
  using supported_arch_q [of arch] by (auto simp: kept_key_def supported_arch_def)

definition same_model_info :: "Model_Arch_Info \<Rightarrow> Model_Arch_Info \<Rightarrow> bool" where
  "same_model_info i j \<longleftrightarrow>
     architecture i = architecture j \<and> num_layers i = num_layers j \<and> embedding_length i = embedding_length j \<and>
     head_count i = head_count j \<and> head_count_kv i = head_count_kv j \<and> head_dim i = head_dim j \<and>
     context_length i = context_length j \<and> rms_norm_eps i = rms_norm_eps j \<and> rope_freq_base i = rope_freq_base j"

lemma analysis_of_kept:
  assumes kept: "\<forall>k. kept_key k \<longrightarrow> map_of (metadata c') k = map_of (metadata c) k"
    and "supported_arch (architecture (GGUF_Analyze_From_Content cd c))"
  shows "same_model_info (GGUF_Analyze_From_Content cd c') (GGUF_Analyze_From_Content cd c)"
    and "Read_Model_Dtype cd (metadata c') = Read_Model_Dtype cd (metadata c)"
    and "MoE_Cfg_From_Metadata cd (metadata c') (ascii_lower (architecture (GGUF_Analyze_From_Content cd c))) n
       = MoE_Cfg_From_Metadata cd (metadata c) (ascii_lower (architecture (GGUF_Analyze_From_Content cd c))) n"
proof -
  define arch where "arch = unwrap_or ''unknown'' (Get_Metadata_String cd (metadata c) ''general.architecture'')"
  have s: "supported_arch arch" using assms(2) by (simp add: arch_def GGUF_Analyze_From_Content_def Let_def)
  have a: "unwrap_or ''unknown'' (Get_Metadata_String cd (metadata c') ''general.architecture'') = arch"
    by (simp add: arch_def Get_Metadata_String_def kept kept_keys)
  have k: "map_of (metadata c') (arch @ x) = map_of (metadata c) (arch @ x)"
    "map_of (metadata c') (ascii_lower arch @ x) = map_of (metadata c) (ascii_lower arch @ x)" for x
    using s by (simp_all add: kept kept_keys)
  show "same_model_info (GGUF_Analyze_From_Content cd c') (GGUF_Analyze_From_Content cd c)"
    by (simp add: same_model_info_def GGUF_Analyze_From_Content_def Let_def a arch_def [symmetric]
        Get_Metadata_Usize_def Get_Metadata_F64_def k)
  show "Read_Model_Dtype cd (metadata c') = Read_Model_Dtype cd (metadata c)"
    by (simp add: Read_Model_Dtype_def kept kept_keys)
  have "architecture (GGUF_Analyze_From_Content cd c) = arch" by (simp add: arch_def GGUF_Analyze_From_Content_def Let_def)
  then show "MoE_Cfg_From_Metadata cd (metadata c') (ascii_lower (architecture (GGUF_Analyze_From_Content cd c))) n
       = MoE_Cfg_From_Metadata cd (metadata c) (ascii_lower (architecture (GGUF_Analyze_From_Content cd c))) n"
    by (simp add: MoE_Cfg_From_Metadata_def Get_Metadata_Usize_def k)
qed

text \<open>The layers of the range, built from the split file or from the original.\<close>

definition split_of ::
  "candle \<Rightarrow> Content \<Rightarrow> (string \<Rightarrow> 'q option) \<Rightarrow> string \<Rightarrow> nat \<Rightarrow> nat \<Rightarrow> bool \<Rightarrow> 'q split_output \<Rightarrow> Content \<Rightarrow> bool" where
  "split_of cd c load stem start stop kt out c' \<longleftrightarrow>
     distinct (map fst (metadata c)) \<and> GGUF_Split_Model cd c load stem start stop kt = Inr out \<and> reads_back out c' \<and>
     supported_arch (architecture (GGUF_Analyze_From_Content cd c))"

lemma split_ofD:
  assumes "split_of cd c load stem start stop kt out c'"
  shows "distinct (map fst (metadata c))" "GGUF_Split_Model cd c load stem start stop kt = Inr out" "reads_back out c'"
    "supported_arch (architecture (GGUF_Analyze_From_Content cd c))"
  using assms by (simp_all add: split_of_def)

lemma split_kept:
  assumes "split_of cd c load stem start stop kt out c'" "kept_key k"
  shows "map_of (metadata c') k = map_of (metadata c) k"
  using split_ofD [OF assms(1)] GGUF_Split_ModelD(5) [OF split_ofD(2) [OF assms(1)]] kept_key_looked_up [of "metadata c" k] assms(2)
  by (simp add: reads_back_def)

lemma block_key_kept:
  assumes "supported_arch (architecture (GGUF_Analyze_From_Content cd c))"
  shows "\<not> should_skip kt (block_key cd (metadata c))"
proof -
  have "block_key cd (metadata c) = architecture (GGUF_Analyze_From_Content cd c) @ ''.block_count''"
    by (simp add: block_key_def GGUF_Analyze_From_Content_def Let_def)
  then show ?thesis using supported_arch_q [OF assms] by (cases kt) (auto simp: should_skip_def skip_keys_def)
qed

lemma layer_same:
  assumes "split_of cd c load stem start stop kt out c'" "start \<le> l" "l \<le> stop" "GGUF_Load_Layer cd c load l = Inr w"
  shows "\<exists>w'. GGUF_Load_Layer cd c' (map_of (so_tensors out)) l = Inr w' \<and> map_of (lw_tensors w') = map_of (lw_tensors w)"
  using split_layer_same [OF split_ofD(1-3) [OF assms(1)] block_key_kept [OF split_ofD(4) [OF assms(1)]] assms(2-4)] by blast

lemma block_same:
  assumes "split_of cd c load stem start stop kt out c'" "start \<le> i" "i \<le> stop" "load_block cd c load build i = Inr ly"
  shows "load_block cd c' (map_of (so_tensors out)) build i = Inr ly"
proof -
  from assms(4) obtain w where w: "GGUF_Load_Layer cd c load i = Inr w" by (cases "GGUF_Load_Layer cd c load i") (auto simp: load_block_def)
  from layer_same [OF assms(1-3) this] obtain w' where
    "GGUF_Load_Layer cd c' (map_of (so_tensors out)) i = Inr w'" "map_of (lw_tensors w') = map_of (lw_tensors w)" by blast
  then show ?thesis using assms(4) w by (simp add: load_block_def)
qed

lemma blocks_same:
  assumes "split_of cd c load stem start stop kt out c'" "\<forall>i \<in> set is. start \<le> i \<and> i \<le> stop"
    and "load_blocks (load_block cd c load build) is = Inr lys"
  shows "load_blocks (load_block cd c' (map_of (so_tensors out)) build) is = Inr lys"
  using assms(2,3) unfolding load_blocks_Inr list_all2_iff by (auto intro!: block_same [OF assms(1)] dest: set_zip_leftD)

lemma embedding_same:
  assumes "split_of cd c load stem start stop kt out c'" "start \<le> s" "s \<le> stop"
    and "load_embedding cd L c load info dev s = Inr emb" "embedding_length info' = embedding_length info"
  shows "load_embedding cd L c' (map_of (so_tensors out)) info' dev s = Inr emb"
proof (cases "s = 0")
  case True
  with assms(4) obtain w where w: "GGUF_Load_Layer cd c load 0 = Inr w"
    by (cases "GGUF_Load_Layer cd c load 0") (auto simp: load_embedding_def)
  from layer_same [OF assms(1) _ _ this] True assms(2,3) obtain w' where
    "GGUF_Load_Layer cd c' (map_of (so_tensors out)) 0 = Inr w'" "map_of (lw_tensors w') = map_of (lw_tensors w)" by auto
  then show ?thesis using assms(4,5) True w by (simp add: load_embedding_def)
next
  case False
  then show ?thesis using assms(4) by (simp add: load_embedding_def)
qed

text \<open>The weights shared with the embedding travel with the output layer.\<close>

lemma tied_embedding_same:
  assumes S: "split_of cd c load stem start stop kt out c'" and "stop = block_count cd (metadata c) + 1" "\<not> has_tensor c OUTPUT" "GGUF_Load_Layer cd c load 0 = Inr w" "map_of (lw_tensors w) TOKEN_EMBD = Some q"
  shows "\<exists>w'. GGUF_Load_Layer cd c' (map_of (so_tensors out)) 0 = Inr w' \<and> map_of (lw_tensors w') TOKEN_EMBD = Some q"
proof -
  note sp = split_ofD(2) [OF S] and rb = split_ofD(3) [OF S]
  have q: "has_tensor c TOKEN_EMBD" "load TOKEN_EMBD = Some q"
    using assms(5) layer_tensors(1) [OF assms(4)] by (auto simp: layer_names_def split: if_splits)
  then have t: "tied c" using assms(3) by (simp add: tied_def)
  then have "TOKEN_EMBD \<in> set (tensor_keys c')"
    using q(1) assms(2) unfolding split_keys [OF sp rb refl] has_tensor_keys by blast
  then have h: "has_tensor c' TOKEN_EMBD" by (simp add: has_tensor_keys)
  have "TOKEN_EMBD \<in> set (selected_names c (block_count cd (metadata c)) start stop)"
    using \<open>TOKEN_EMBD \<in> set (tensor_keys c')\<close> rb GGUF_Split_ModelD(6) [OF sp] by (simp add: reads_back_def)
  then have "map_of (so_tensors out) TOKEN_EMBD = Some q" using q(2) by (simp add: GGUF_Split_ModelD(7) [OF sp])
  then have "GGUF_Load_Layer cd c' (map_of (so_tensors out)) 0 = Inr \<lparr>lw_layer_index = 0, lw_tensors = [(TOKEN_EMBD, q)]\<rparr>"
    using h by (simp add: GGUF_Load_Layer_iff layer_names_def)
  then show ?thesis by auto
qed

lemma head_tensor_same:
  assumes "split_of cd c load stem start stop kt out c'" "stop = block_count cd (metadata c) + 1"
    and "GGUF_Load_Layer cd c load (block_count cd (metadata c) + 1) = Inr w" "map_of (lw_tensors w') = map_of (lw_tensors w)"
    and "head_tensor cd c load w = Inr hq"
  shows "head_tensor cd c' (map_of (so_tensors out)) w' = Inr hq"
proof (cases "map_of (lw_tensors w) OUTPUT")
  case None
  then have "\<not> has_tensor c OUTPUT"
    using layer_tensors [OF assms(3)] by (auto simp: layer_names_def split: if_splits)
  moreover from None assms(5) obtain w0 where
    "GGUF_Load_Layer cd c load 0 = Inr w0" "map_of (lw_tensors w0) TOKEN_EMBD = Some hq"
    by (cases "GGUF_Load_Layer cd c load 0") (auto simp: head_tensor_def ok_or_def split: option.splits)
  ultimately show ?thesis using tied_embedding_same [OF assms(1,2)] None assms(4) by (fastforce simp: head_tensor_def)
next
  case (Some q)
  then show ?thesis using assms(4,5) by (simp add: head_tensor_def)
qed

lemma output_same:
  fixes L :: "('t, 'q, 'w, 'c, 'e) tensor_lib"
  assumes S: "split_of cd c load stem start stop kt out c'" and "start \<le> e" "e \<le> stop" "load_output cd L c load info e = Inr heads"
    and "num_layers info = n" "num_layers info' = n" "n = block_count cd (metadata c)" "rms_norm_eps info' = rms_norm_eps info"
  shows "load_output cd L c' (map_of (so_tensors out)) info' e = Inr heads"
proof (cases "e = n + 1")
  case True
  then have stop: "stop = n + 1" using assms(3) GGUF_Split_ModelD(2) [OF split_ofD(2) [OF S]] assms(7) by simp
  note out = assms(4) [unfolded load_output_def assms(5) if_P [OF True]]
  from out obtain w where w: "GGUF_Load_Layer cd c load (n + 1) = Inr w"
    by (cases "GGUF_Load_Layer cd c load (n + 1)") auto
  from layer_same [OF S _ _ w] True assms(2,3) obtain w' where
    w': "GGUF_Load_Layer cd c' (map_of (so_tensors out)) (n + 1) = Inr w'" "map_of (lw_tensors w') = map_of (lw_tensors w)" by auto
  from out obtain nq nrm hq head where parts: "map_of (lw_tensors w) OUTPUT_NORM = Some nq"
    "map_err Le_Norm (tl_rmsnorm_from L nq (rms_norm_eps info)) = Inr nrm" "(head_tensor cd c load w :: 'e load_error + 'q) = Inr hq"
    "map_err Le_Head (tl_qmatmul_from L hq) = Inr head" "heads = (Some nrm, Some head)"
    unfolding w by (auto simp: rbind_eq_Inr ok_or_def split: option.splits)
  show ?thesis
    unfolding load_output_def assms(6) if_P [OF True] w'(1) assms(8)
    by (simp add: w'(2) parts [simplified] parts head_tensor_same [OF S stop [unfolded assms(7)] w [unfolded assms(7)] w'(2) parts(3)])
next
  case False
  then show ?thesis using assms(4-6) by (simp add: load_output_def)
qed

lemma assemble_same:
  assumes S: "split_of cd c load stem start stop kt out c'" and "start \<le> s" "s \<le> e" "e \<le> stop"
    and same: "same_model_info info' info" and n: "num_layers info = block_count cd (metadata c)"
    and a: "assemble cd L c load info dev dt build s e = Inr m"
  shows "assemble cd L c' (map_of (so_tensors out)) info' dev dt build s e = Inr m"
proof -
  let ?load = "map_of (so_tensors out)" and ?is = "[max s 1..<min e (num_layers info) + 1]"
  from a obtain emb lys heads where parts: "load_embedding cd L c load info dev s = Inr emb"
    "load_blocks (load_block cd c load build) ?is = Inr lys"
    "load_output cd L c load info e = Inr heads" "m = (case heads of (nrm, head) \<Rightarrow> From_Dynamic emb lys nrm head dev dt)"
    unfolding assemble_def by (auto simp: rbind_eq_Inr)
  have i: "num_layers info' = num_layers info" "embedding_length info' = embedding_length info" "rms_norm_eps info' = rms_norm_eps info"
    using same by (simp_all add: same_model_info_def)
  have "load_embedding cd L c' ?load info' dev s = Inr emb"
    using assms(2-4) by (intro embedding_same [OF S _ _ parts(1) i(2)]) simp_all
  moreover have "load_blocks (load_block cd c' ?load build) ?is = Inr lys"
    using assms(2,4) by (intro blocks_same [OF S _ parts(2)]) auto
  moreover have "load_output cd L c' ?load info' e = Inr heads"
    using assms(2-4) i n by (intro output_same [OF S _ _ parts(3)]) simp_all
  ultimately show ?thesis by (simp add: assemble_def i(1) parts(4) split: prod.splits del: upt_Suc)
qed

lemma split_check_range:
  assumes "\<And>w. cd_to_u32 cd (Gv_U32 w) = Some w" "split_of cd c load stem start stop kt out c'" "stop < 2 ^ 32"
    and "start \<le> s" "s \<le> e" "e \<le> stop"
  shows "check_range (GGUF_Analyze_From_Content cd c') s e = Inr e"
proof -
  note S = split_ofD [OF assms(2)]
  have look: "map_of (metadata c') k = map_of (rev (so_metadata out)) k" for k using S(3) by (simp add: reads_back_def)
  have "start < 2 ^ 32" using assms(3) GGUF_Split_ModelD(1) [OF S(2)] by simp
  then have "Get_Metadata_Usize cd (metadata c') ''pleiades.split.start'' = Some start"
    "Get_Metadata_Usize cd (metadata c') ''pleiades.split.end'' = Some stop"
    using assms(3)
    by (simp_all add: Get_Metadata_Usize_def look GGUF_Split_ModelD(5) [OF S(2)] split_metadata_lookup [OF S(1)] assms(1) unat_of_nat)
  then show ?thesis using assms(4-6) by (simp add: check_range_def GGUF_Analyze_From_Content_def Let_def)
qed

lemma load_any_same:
  assumes "\<And>w. cd_to_u32 cd (Gv_U32 w) = Some w" "split_of cd c load stem start stop kt out c'" "stop < 2 ^ 32"
    and "start \<le> s" "s \<le> e" "e \<le> stop" "\<not> is_split (GGUF_Analyze_From_Content cd c)"
    and "load_any cd L ctx c load dev s e = Inr m"
  shows "load_any cd L ctx c' (map_of (so_tensors out)) dev s e = Inr m"
proof -
  let ?i = "GGUF_Analyze_From_Content cd c" and ?i' = "GGUF_Analyze_From_Content cd c'"
  note S = split_ofD [OF assms(2)]
  have k: "\<forall>k. kept_key k \<longrightarrow> map_of (metadata c') k = map_of (metadata c) k"
    using split_kept [OF assms(2)] by blast
  note kept = analysis_of_kept [of c' c, OF k S(4)]
  have n: "num_layers ?i = block_count cd (metadata c)" by (rule num_layers_block_count)
  have e: "e \<le> num_layers ?i + 1" using GGUF_Split_ModelD(2) [OF S(2)] assms(6) n by simp
  have info: "architecture ?i' = architecture ?i" "head_count ?i' = head_count ?i" "head_count_kv ?i' = head_count_kv ?i"
    "head_dim ?i' = head_dim ?i" "context_length ?i' = context_length ?i" "rms_norm_eps ?i' = rms_norm_eps ?i"
    "rope_freq_base ?i' = rope_freq_base ?i"
    using kept(1) by (simp_all add: same_model_info_def)
  note asm = assemble_same [OF assms(2,4-6) kept(1) n]
  note cr = split_check_range [OF assms(1-6)] check_full [OF assms(7,5) e]
  show ?thesis
    using assms(8) unfolding load_any_def Let_def info kept(2,3)
    by (auto simp: cr rbind_eq_Inr asm split: if_splits)
qed

section \<open>Running a model in parts\<close>

text \<open>
  A file loaded range by range, on as many nodes as one likes, computes what the whole file computes:
  when the full range loads, every range of a partition loads, and the chain of the loaded parts gives
  in every series of forward passes exactly the results and the errors of the full model.
\<close>

theorem ranges_run_as_whole:
  assumes "add_shape L" "\<not> is_split (GGUF_Analyze_From_Content cd c)"
    and "load_any cd L ctx c load dev 0 (block_count cd (metadata c) + 1) = Inr m"
    and "consecutive 0 rs (block_count cd (metadata c) + 1)"
  shows "\<exists>ms. map (\<lambda>(s, e). load_any cd L ctx c load dev s e) rs = map Inr ms \<and>
    (\<forall>steps. run_steps (pipeline (AnyModel_Forward L)) ms steps = run_steps (AnyModel_Forward L) m steps)"
  using load_parts [OF _ assms(2) refl] assms(3,4) any_pipeline_steps [OF assms(1)]
  unfolding num_layers_block_count by metis

lemma load_any_arch:
  "load_any cd L ctx c load dev s e = Inr m \<Longrightarrow> supported_arch (architecture (GGUF_Analyze_From_Content cd c))"
  by (auto simp: load_any_def supported_arch_def Let_def split: if_splits)

text \<open>
  The same with split files: cut a model file into files for consecutive ranges, give each node one of
  them, and the chain of what the nodes load computes what the original computes. A model that shares
  its embedding with its output is included: the output's file takes the embedding along.
\<close>

lemma split_files_chain:
  assumes "add_shape L" "\<not> is_split (GGUF_Analyze_From_Content cd c)" "\<forall>w. cd_to_u32 cd (Gv_U32 w) = Some w"
    and "load_any cd L ctx c load dev 0 (block_count cd (metadata c) + 1) = Inr m"
    and "distinct (map fst (metadata c))" "block_count cd (metadata c) + 1 < 2 ^ 32"
    and "consecutive 0 (map fst files) (block_count cd (metadata c) + 1)"
    and "\<forall>f \<in> set files. case f of ((s, e), out, c') \<Rightarrow> GGUF_Split_Model cd c load stem s e kt = Inr out \<and> reads_back out c'"
  shows "\<exists>ms. map (\<lambda>((s, e), out, c'). load_any cd L ctx c' (map_of (so_tensors out)) dev s e) files = map Inr ms \<and>
    (\<forall>steps. run_steps (pipeline (AnyModel_Forward L)) ms steps = run_steps (AnyModel_Forward L) m steps)"
proof -
  let ?n = "block_count cd (metadata c)"
  from load_parts [OF assms(4) [folded num_layers_block_count] assms(2) refl assms(7) [folded num_layers_block_count]]
  obtain ms where ms: "map (\<lambda>(s, e). load_any cd L ctx c load dev s e) (map fst files) = map Inr ms" "any_stages m ms" by blast
  have same: "load_any cd L ctx c' (map_of (so_tensors out)) dev s e = load_any cd L ctx c load dev s e"
    if f: "((s, e), out, c') \<in> set files" for s e out c'
  proof -
    have S: "split_of cd c load stem s e kt out c'"
      using assms(5,8) f load_any_arch [OF assms(4)] by (auto simp: split_of_def)
    have "(s, e) \<in> set (map fst files)" using f by force
    from consecutive_bounds [OF assms(7) this] have b: "s \<le> e" "e < 2 ^ 32" using assms(6) by simp_all
    have "load_any cd L ctx c load dev s e \<in> set (map Inr ms)"
      unfolding ms(1) [symmetric] using f by force
    then obtain k where "load_any cd L ctx c load dev s e = Inr k" by auto
    with load_any_same [OF assms(3) [rule_format] S b(2) le_refl b(1) le_refl assms(2) this] show ?thesis by simp
  qed
  have "map (\<lambda>((s, e), out, c'). load_any cd L ctx c' (map_of (so_tensors out)) dev s e) files =
      map (\<lambda>(s, e). load_any cd L ctx c load dev s e) (map fst files)"
    using same by auto
  then show ?thesis using ms any_pipeline_steps [OF assms(1) ms(2)] by metis
qed

section \<open>An example\<close>

text \<open>A model with one block whose output shares the embedding's weights.\<close>

definition tensor_suffixes :: "string list" where
  "tensor_suffixes = [''.attn_q.weight'', ''.attn_k.weight'', ''.attn_v.weight'', ''.attn_output.weight'',
     ''.attn_q_norm.weight'', ''.attn_k_norm.weight'', ''.ffn_gate.weight'', ''.ffn_up.weight'',
     ''.ffn_down.weight'', ''.attn_norm.weight'', ''.ffn_norm.weight'']"

lemma distinct_suffixes: "distinct tensor_suffixes"
  by (simp add: tensor_suffixes_def)

definition tiny_names :: "string list" where
  "tiny_names = TOKEN_EMBD # OUTPUT_NORM # map (\<lambda>x. ''blk.0'' @ x) tensor_suffixes"

definition tiny_content :: Content where
  "tiny_content = \<lparr>
     metadata = [(''general.architecture'', Gv_String ''qwen3''), (''qwen3.block_count'', Gv_U32 1),
       (''qwen3.embedding_length'', Gv_U32 2),
       (''qwen3.attention.head_count'', Gv_U32 1), (''qwen3.attention.head_count_kv'', Gv_U32 1),
       (''pleiades.model_id'', Gv_U32 7), (''pleiades.layer_bitmap'', Gv_String ''7'')],
     tensor_infos = map (\<lambda>n. (n, demo_info)) tiny_names, tensor_data_offset = 0\<rparr>"

definition tiny_load :: "string \<Rightarrow> u32 option" where
  "tiny_load n = (if n \<in> set tiny_names then Some (of_nat (length n)) else None)"

lemma tiny_keys: "tensor_keys tiny_content = tiny_names"
  by (simp add: tiny_content_def tensor_keys_def o_def)

lemma tiny_info:
  "block_count demo_candle (metadata tiny_content) = 1"
  "architecture (GGUF_Analyze_From_Content demo_candle tiny_content) = ''qwen3''"
  "head_count_kv (GGUF_Analyze_From_Content demo_candle tiny_content) = 1"
  "\<not> is_split (GGUF_Analyze_From_Content demo_candle tiny_content)"
  by (simp_all add: block_count_def GGUF_Analyze_From_Content_def tiny_content_def demo_candle_def
      Get_Metadata_String_def Get_Metadata_Usize_def Let_def)

lemma tiny_layer_names:
  "layer_names tiny_content 1 0 = [TOKEN_EMBD]" "layer_names tiny_content 1 2 = [OUTPUT_NORM]"
  "layer_names tiny_content 1 1 = drop 2 tiny_names"
proof -
  show "layer_names tiny_content 1 0 = [TOKEN_EMBD]" "layer_names tiny_content 1 2 = [OUTPUT_NORM]"
    by (simp_all add: layer_names_def has_tensor_keys tiny_keys tiny_names_def)
      (auto simp: OUTPUT_def)
  show "layer_names tiny_content 1 1 = drop 2 tiny_names"
    by (simp add: layer_names_def tiny_keys demo_prefixes tiny_names_def TOKEN_EMBD_def OUTPUT_NORM_def tensor_suffixes_def)
qed

lemma load_layer_total:
  assumes "\<forall>n \<in> set (layer_names c (block_count cd (metadata c)) l). load n \<noteq> None"
    and "layer_names c (block_count cd (metadata c)) l \<noteq> []" "l \<le> block_count cd (metadata c) + 1"
  shows "\<exists>w. GGUF_Load_Layer cd c load l = Inr w"
proof -
  from load_all_Nil [OF assms(1)] obtain r where
    r: "load_all load (layer_names c (block_count cd (metadata c)) l) [] = Inr r"
      "map_of r = (\<lambda>k. if k \<in> set (layer_names c (block_count cd (metadata c)) l) then load k else None)" by blast
  obtain x where "x \<in> set (layer_names c (block_count cd (metadata c)) l)" using assms(2) by (meson last_in_set)
  then have "r \<noteq> []" using r(2) assms(1) by (metis map_of_eq_None_iff empty_iff image_empty list.set(1))
  then show ?thesis using r(1) assms(3)
    by (intro exI [of _ "\<lparr>lw_layer_index = l, lw_tensors = r\<rparr>"]) (simp add: GGUF_Load_Layer_iff)
qed

lemma tiny_layers:
  assumes "l \<le> 2"
  shows "\<exists>w. GGUF_Load_Layer demo_candle tiny_content tiny_load l = Inr w \<and>
    map_of (lw_tensors w) = (\<lambda>k. if k \<in> set (layer_names tiny_content 1 l) then tiny_load k else None)"
proof -
  have l: "l = 0 \<or> l = 1 \<or> l = 2" using assms by auto
  have sub: "set (layer_names tiny_content 1 l) \<subseteq> set tiny_names" "layer_names tiny_content 1 l \<noteq> []"
    using l tiny_layer_names by (auto simp: tiny_names_def tensor_suffixes_def)
  then have "\<exists>w. GGUF_Load_Layer demo_candle tiny_content tiny_load l = Inr w"
    using assms by (intro load_layer_total) (auto simp: tiny_info tiny_load_def)
  then show ?thesis using layer_tensors(1) [of demo_candle tiny_content tiny_load l] by (auto simp: tiny_info)
qed

lemma toy_ops:
  "tl_qmatmul_from toy_lib = Inr" "tl_rmsnorm_from toy_lib = (\<lambda>q _. Inr q)" "tl_dequantize toy_lib = (\<lambda>q _. Inr ([1], q))"
  "tl_to_dtype toy_lib = (\<lambda>x _. Inr x)" "tl_from_f32s toy_lib = (\<lambda>vs d _. Inr (d, of_nat (length vs)))"
  "tl_arange toy_lib = (\<lambda>_ _ _. Inr ([1], 1))" "tl_reshape toy_lib = (\<lambda>x d. Inr (d, snd x))"
  "tl_matmul toy_lib = (\<lambda>x y. Inr (fst x, snd x * snd y))" "tl_sin toy_lib = Inr" "tl_cos toy_lib = Inr"
  by (simp_all add: toy_lib_def)

lemma toy_take:
  "tensors key = Some q \<Longrightarrow> Take_Qmatmul toy_lib tensors key = Inr (q, tensors(key := None))"
  "tensors key = Some q \<Longrightarrow> Take_Rmsnorm toy_lib tensors key eps = Inr (q, tensors(key := None))"
  by (simp_all add: Take_Qmatmul_def Take_Rmsnorm_def take_tensor_def toy_ops)

lemma toy_rotary: "\<exists>r. Rotary_New toy_lib dt d n theta dev = Inr r"
  by (simp add: Rotary_New_def toy_ops Let_def)

text \<open>Evaluate the first step of a sequence before what follows it.\<close>

lemma rbind_weak_cong: "r = r' \<Longrightarrow> rbind r f = rbind r' f"
  by simp

lemma toy_layer_builds:
  assumes "\<forall>x \<in> set tensor_suffixes. tensors (pre @ x) \<noteq> None" "k \<noteq> 0" and pre: "pre = ''blk.'' @ show_nat i"
  shows "\<exists>ly. Layer_From_Extracted toy_lib tensors h k hdim eps rotary i = Inr ly"
proof -
  define k0 where "k0 = pre @ ''.attn_q.weight''"
  define k1 where "k1 = pre @ ''.attn_k.weight''"
  define k2 where "k2 = pre @ ''.attn_v.weight''"
  define k3 where "k3 = pre @ ''.attn_output.weight''"
  define k4 where "k4 = pre @ ''.attn_q_norm.weight''"
  define k5 where "k5 = pre @ ''.attn_k_norm.weight''"
  define k6 where "k6 = pre @ ''.ffn_gate.weight''"
  define k7 where "k7 = pre @ ''.ffn_up.weight''"
  define k8 where "k8 = pre @ ''.ffn_down.weight''"
  define k9 where "k9 = pre @ ''.attn_norm.weight''"
  define k10 where "k10 = pre @ ''.ffn_norm.weight''"
  have ks: "map (\<lambda>x. pre @ x) tensor_suffixes = [k0, k1, k2, k3, k4, k5, k6, k7, k8, k9, k10]"
    by (simp add: tensor_suffixes_def k0_def k1_def k2_def k3_def k4_def k5_def k6_def k7_def k8_def k9_def k10_def)
  have "distinct (map (\<lambda>x. pre @ x) tensor_suffixes)" using distinct_suffixes by (simp add: distinct_map inj_on_def)
  then have d: "distinct [k0, k1, k2, k3, k4, k5, k6, k7, k8, k9, k10]" unfolding ks .
  have "\<forall>y \<in> set (map (\<lambda>x. pre @ x) tensor_suffixes). \<exists>q. tensors y = Some q" using assms(1) by auto
  then have e: "\<forall>y \<in> set [k0, k1, k2, k3, k4, k5, k6, k7, k8, k9, k10]. \<exists>q. tensors y = Some q" unfolding ks .
  then obtain q0 q1 q2 q3 q4 q5 q6 q7 q8 q9 q10 where q: "tensors k0 = Some q0" "tensors k1 = Some q1" "tensors k2 = Some q2"
    "tensors k3 = Some q3" "tensors k4 = Some q4" "tensors k5 = Some q5" "tensors k6 = Some q6" "tensors k7 = Some q7"
    "tensors k8 = Some q8" "tensors k9 = Some q9" "tensors k10 = Some q10"
    unfolding list.set ball_simps by blast
  have "distinct (rev [k0, k1, k2, k3, k4, k5, k6, k7, k8, k9, k10])" using d by (simp only: distinct_rev)
  note ne = this [unfolded rev.simps append.simps distinct.simps list.set insert_iff empty_iff de_Morgan_disj]
  show ?thesis
    unfolding Layer_From_Extracted_def attention_from_def Let_def pre [symmetric] k0_def [symmetric] k1_def [symmetric] k2_def [symmetric] k3_def [symmetric] k4_def [symmetric] k5_def [symmetric] k6_def [symmetric] k7_def [symmetric] k8_def [symmetric] k9_def [symmetric] k10_def [symmetric]
    using ne assms(2) by (simp only: toy_take q fun_upd_def if_False if_True rbind_simps prod.case simp_thms cong: rbind_weak_cong) blast
qed

lemma tiny_block:
  assumes "map_of (lw_tensors w1) = (\<lambda>k. if k \<in> set (layer_names tiny_content 1 1) then tiny_load k else None)"
  shows "\<exists>ly. Layer_From_Extracted toy_lib (map_of (lw_tensors w1)) h 1 hdim eps rotary 0 = Inr ly"
proof (rule toy_layer_builds [where pre = "''blk.0''"])
  show "''blk.0'' = ''blk.'' @ show_nat 0" by code_simp
  have "''blk.0'' @ x \<in> set (drop 2 tiny_names)" "''blk.0'' @ x \<in> set tiny_names" if "x \<in> set tensor_suffixes" for x
    using that by (simp_all add: tiny_names_def)
  then show "\<forall>x \<in> set tensor_suffixes. map_of (lw_tensors w1) (''blk.0'' @ x) \<noteq> None"
    unfolding assms tiny_layer_names tiny_load_def by simp
qed simp

lemma tiny_ends:
  assumes "GGUF_Load_Layer demo_candle tiny_content tiny_load 0 = Inr w0" "GGUF_Load_Layer demo_candle tiny_content tiny_load 2 = Inr w2"
    and "map_of (lw_tensors w0) = (\<lambda>k. if k \<in> set [TOKEN_EMBD] then tiny_load k else None)"
    and "map_of (lw_tensors w2) = (\<lambda>k. if k \<in> set [OUTPUT_NORM] then tiny_load k else None)" "num_layers info = 1"
  shows "\<exists>emb. load_embedding demo_candle toy_lib tiny_content tiny_load info Dev_Cpu 0 = Inr emb"
    "\<exists>hs. load_output demo_candle toy_lib tiny_content tiny_load info 2 = Inr hs"
proof -
  have t: "\<exists>q. tiny_load TOKEN_EMBD = Some q" "\<exists>q. tiny_load OUTPUT_NORM = Some q"
    by (simp_all add: tiny_load_def tiny_names_def)
  then show "\<exists>emb. load_embedding demo_candle toy_lib tiny_content tiny_load info Dev_Cpu 0 = Inr emb"
    using assms(1,3) by (auto simp: load_embedding_def toy_ops)
  have "(1 :: nat) + 1 = 2" by simp
  then show "\<exists>hs. load_output demo_candle toy_lib tiny_content tiny_load info 2 = Inr hs"
    using t assms(1-4) unfolding load_output_def assms(5) by (auto simp: head_tensor_def toy_ops numeral_2_eq_2)
qed

lemma tiny_loads: "\<exists>m. load_any demo_candle toy_lib (\<lambda>_ e. e) tiny_content tiny_load Dev_Cpu 0 2 = Inr m"
proof -
  let ?i = "GGUF_Analyze_From_Content demo_candle tiny_content"
  obtain w0 w1 w2 where w: "GGUF_Load_Layer demo_candle tiny_content tiny_load 0 = Inr w0"
      "GGUF_Load_Layer demo_candle tiny_content tiny_load 1 = Inr w1"
      "GGUF_Load_Layer demo_candle tiny_content tiny_load 2 = Inr w2"
    and t: "map_of (lw_tensors w0) = (\<lambda>k. if k \<in> set (layer_names tiny_content 1 0) then tiny_load k else None)"
      "map_of (lw_tensors w1) = (\<lambda>k. if k \<in> set (layer_names tiny_content 1 1) then tiny_load k else None)"
      "map_of (lw_tensors w2) = (\<lambda>k. if k \<in> set (layer_names tiny_content 1 2) then tiny_load k else None)"
    using tiny_layers [of 0] tiny_layers [of 1] tiny_layers [of 2] by auto
  have n: "num_layers ?i = 1" by (simp add: num_layers_block_count tiny_info)
  from tiny_ends [OF w(1,3) t(1,3) [unfolded tiny_layer_names] n] obtain emb hs where
    ends: "load_embedding demo_candle toy_lib tiny_content tiny_load ?i Dev_Cpu 0 = Inr emb"
      "load_output demo_candle toy_lib tiny_content tiny_load ?i 2 = Inr hs" by blast
  obtain rotary where rot: "Rotary_New toy_lib Td_F32 (head_dim ?i) (context_length ?i) (rope_freq_base ?i) Dev_Cpu = Inr rotary"
    using toy_rotary by blast
  let ?build = "\<lambda>blk tensors. Layer_From_Extracted toy_lib tensors (head_count ?i) (head_count_kv ?i) (head_dim ?i) (rms_norm_eps ?i) rotary blk"
  obtain ly where "load_block demo_candle tiny_content tiny_load ?build 1 = Inr ly"
    using tiny_block [OF t(2)] w(2) by (fastforce simp: load_block_def tiny_info)
  then have "load_blocks (load_block demo_candle tiny_content tiny_load ?build) [max 0 1..<min 2 (num_layers ?i) + 1] = Inr [ly]"
    by (simp add: n)
  then have "\<exists>m. assemble demo_candle toy_lib tiny_content tiny_load ?i Dev_Cpu
      (Read_Model_Dtype demo_candle (metadata tiny_content)) ?build 0 2 = Inr m"
    using ends by (simp add: assemble_def split: prod.splits del: upt_Suc)
  moreover have "ascii_lower ''qwen3'' = ''qwen3''" by code_simp
  ultimately show ?thesis
    using rot check_full [OF tiny_info(4), of 0 2] by (auto simp: load_any_def Let_def tiny_info check_full n)
qed

theorem ranges_run_as_whole_witness:
  "\<exists>m ms. load_any demo_candle toy_lib (\<lambda>_ e. e) tiny_content tiny_load Dev_Cpu 0 2 = Inr m \<and>
     [load_any demo_candle toy_lib (\<lambda>_ e. e) tiny_content tiny_load Dev_Cpu 0 0,
      load_any demo_candle toy_lib (\<lambda>_ e. e) tiny_content tiny_load Dev_Cpu 1 2] = map Inr ms \<and>
     run_steps (pipeline (AnyModel_Forward toy_lib)) ms [(([1, 3], 7), 0), (([1, 1], 8), 3)]
       = run_steps (AnyModel_Forward toy_lib) m [(([1, 3], 7), 0), (([1, 1], 8), 3)]"
proof -
  obtain m where m: "load_any demo_candle toy_lib (\<lambda>_ e. e) tiny_content tiny_load Dev_Cpu 0 2 = Inr m"
    using tiny_loads by blast
  have "block_count demo_candle (metadata tiny_content) + 1 = 2" by (simp add: tiny_info)
  from ranges_run_as_whole [OF toy_add_shape tiny_info(4), unfolded this, OF m, of "[(0, 0), (1, 2)]"]
  obtain ms where ms: "map (\<lambda>(s, e). load_any demo_candle toy_lib (\<lambda>_ e. e) tiny_content tiny_load Dev_Cpu s e) [(0, 0), (1, 2)] = map Inr ms"
    "\<forall>steps. run_steps (pipeline (AnyModel_Forward toy_lib)) ms steps = run_steps (AnyModel_Forward toy_lib) m steps"
    by (simp del: list.map) blast
  show ?thesis
    by (intro exI conjI) (rule m, rule ms(1) [unfolded list.map prod.case], rule ms(2) [rule_format])
qed

lemma load_each_total: "\<forall>x \<in> set ns. load x \<noteq> None \<Longrightarrow> \<exists>ts. load_each load ns = Inr ts"
  by (induction ns) (auto simp: ok_or_def split: option.splits)

lemma split_total:
  assumes "start \<le> stop" "stop \<le> block_count cd (metadata c) + 1" "l \<in> {start..stop}"
    and "layer_names c (block_count cd (metadata c)) l \<noteq> []" "\<forall>x \<in> set (tensor_keys c). load x \<noteq> None"
  shows "\<exists>out. GGUF_Split_Model cd c load stem start stop kt = Inr out"
proof -
  let ?names = "sort_key id (selected_names c (block_count cd (metadata c)) start stop)"
  obtain x where "x \<in> set (layer_names c (block_count cd (metadata c)) l)" using assms(4) by (meson last_in_set)
  then have "x \<in> set ?names" using assms(3) by (auto simp: selected_set [OF assms(2)])
  then have ne: "?names \<noteq> []" by (metis empty_iff list.set(1))
  have "x \<in> set (tensor_keys c)" if "x \<in> set ?names" for x
    using that by (auto simp: selected_set [OF assms(2)] layer_names_mem tied_def has_tensor_keys split: if_splits)
  then have "\<forall>x \<in> set ?names. load x \<noteq> None" using assms(5) by blast
  from load_each_total [OF this] ne assms(1,2) show ?thesis by (auto simp: GGUF_Split_Model_def Let_def)
qed

definition content_of :: "'q split_output \<Rightarrow> Content" where
  "content_of out = \<lparr>metadata = rev (so_metadata out),
     tensor_infos = map (\<lambda>n. (n, demo_info)) (remdups (map fst (so_tensors out))), tensor_data_offset = 0\<rparr>"

lemma reads_back_content_of: "reads_back out (content_of out)"
  by (simp add: reads_back_def content_of_def tensor_keys_def o_def)

end
