(* ===== verification/Chat_Template.thy ===== *)
theory Chat_Template
  imports Prelude "HOL-Library.Sublist"
begin

text \<open>
  Prompts from messages (\<open>Src/ML_Engine/context.rs\<close>): the rewriting of Python method calls in a model's
  chat template into filters of the template engine, the rendering with its fallback, and the
  fallback format itself. The template engine, set up with the filters of the same names, is a
  parameter. Strings are their UTF-8 bytes; brackets and quotes are ASCII, so no byte of a longer
  character is taken for one.
\<close>

record Message =
  ms_role :: string
  ms_content :: string

section \<open>Rewriting templates\<close>

text \<open>\<open>str::replace\<close> for a non-empty pattern.\<close>

function replace_all :: "string \<Rightarrow> string \<Rightarrow> string \<Rightarrow> string" where
  "replace_all pat rep [] = []"
| "replace_all pat rep (c # cs) =
     (if pat \<noteq> [] \<and> prefix pat (c # cs) then rep @ replace_all pat rep (drop (length pat) (c # cs))
      else c # replace_all pat rep cs)"
  by pat_completeness auto
termination
  by (relation "measure (\<lambda>(_, _, s). length s)") auto

fun find_sub :: "string \<Rightarrow> string \<Rightarrow> nat option" where
  "find_sub pat [] = (if pat = [] then Some 0 else None)"
| "find_sub pat (c # cs) = (if prefix pat (c # cs) then Some 0 else map_option Suc (find_sub pat cs))"

definition QUOTE :: char where "QUOTE = CHR 0x27"
definition DQUOTE :: char where "DQUOTE = CHR 0x22"

fun paren_loop :: "nat \<Rightarrow> bool \<Rightarrow> bool \<Rightarrow> string \<Rightarrow> nat option" where
  "paren_loop depth in_single in_double [] = None"
| "paren_loop depth in_single in_double (c # cs) =
     (if c = QUOTE \<and> \<not> in_double then map_option Suc (paren_loop depth (\<not> in_single) in_double cs)
      else if c = DQUOTE \<and> \<not> in_single then map_option Suc (paren_loop depth in_single (\<not> in_double) cs)
      else if c = CHR ''('' \<and> \<not> in_single \<and> \<not> in_double then map_option Suc (paren_loop (depth + 1) in_single in_double cs)
      else if c = CHR '')'' \<and> \<not> in_single \<and> \<not> in_double then
        (if depth - 1 = 0 then Some 0 else map_option Suc (paren_loop (depth - 1) in_single in_double cs))
      else map_option Suc (paren_loop depth in_single in_double cs))"

definition find_matching_paren :: "string \<Rightarrow> nat option" where
  "find_matching_paren s = paren_loop 1 False False s"

text \<open>The number of bytes of the first character.\<close>

definition first_char_len :: "string \<Rightarrow> nat" where
  "first_char_len s =
     (case s of
        [] \<Rightarrow> 0
      | c # _ \<Rightarrow> let b = (of_char c :: nat) in if b < 128 then 1 else if b < 224 then 2 else if b < 240 then 3 else 4)"

lemma find_sub_prefix: "find_sub pat s = Some i \<Longrightarrow> i + length pat \<le> length s"
  by (induction pat s arbitrary: i rule: find_sub.induct) (auto split: if_splits dest: prefix_length_le)

function rewrite_split_index :: "string \<Rightarrow> string" where
  "rewrite_split_index s =
     (case find_sub ''.split('' s of
        None \<Rightarrow> s
      | Some pos \<Rightarrow>
          let before = take pos s; args = drop (pos + 7) s in
          (case find_matching_paren args of
             None \<Rightarrow> before @ drop pos s
           | Some e \<Rightarrow>
               let inner = take (e + 1) args; rest = drop (e + 1) args in
               if prefix ''[0]'' rest then
                 before @ '' | split('' @ inner @ '' | first'' @ rewrite_split_index (drop 3 rest)
               else if prefix ''[-1]'' rest then
                 before @ '' | split('' @ inner @ '' | last'' @ rewrite_split_index (drop 4 rest)
               else
                 before @ ''.split('' @ inner @ take (first_char_len rest) rest @
                 rewrite_split_index (drop (first_char_len rest) rest)))"
  by pat_completeness auto
termination
  by (relation "measure length") (auto dest: find_sub_prefix)

declare rewrite_split_index.simps [simp del]

definition METHODS :: "string list" where
  "METHODS = [''startswith'', ''endswith'', ''split'', ''lstrip'', ''rstrip'', ''strip'']"

definition call_of :: "string \<Rightarrow> string" where "call_of m = ''.'' @ m @ ''(''"
definition filter_of :: "string \<Rightarrow> string" where "filter_of m = '' | '' @ m @ ''(''"

definition rewrite_python_str_methods :: "string \<Rightarrow> string" where
  "rewrite_python_str_methods template =
     foldl (\<lambda>s m. replace_all (call_of m) (filter_of m) s) (rewrite_split_index template) METHODS"

section \<open>Prompts\<close>

definition fallback_qwen3_template :: "Message list \<Rightarrow> string" where
  "fallback_qwen3_template messages =
     concat (map (\<lambda>msg. ''<|im_start|>'' @ ms_role msg @ [CHR 0x0A] @ ms_content msg @ ''<|im_end|>'' @ [CHR 0x0A]) messages) @
     ''<|im_start|>assistant'' @ [CHR 0x0A]"

text \<open>\<open>render\<close> parses and renders a template with the messages and \<open>add_generation_prompt\<close>.\<close>

definition render_with_minijinja :: "(string \<Rightarrow> Message list \<Rightarrow> string option) \<Rightarrow> string \<Rightarrow> Message list \<Rightarrow> string option" where
  "render_with_minijinja render tmpl_str messages = render (rewrite_python_str_methods tmpl_str) messages"

definition apply_chat_template :: "(string \<Rightarrow> Message list \<Rightarrow> string option) \<Rightarrow> string option \<Rightarrow> Message list \<Rightarrow> string" where
  "apply_chat_template render template messages =
     (case template of
        Some tmpl_str \<Rightarrow>
          (case render_with_minijinja render tmpl_str messages of
             Some result \<Rightarrow> result
           | None \<Rightarrow> fallback_qwen3_template messages)
      | None \<Rightarrow> fallback_qwen3_template messages)"

section \<open>What rewriting does\<close>

lemma sublist_skip: "x \<notin> set a \<Longrightarrow> sublist (x # p) (a @ b) \<Longrightarrow> sublist (x # p) b"
  by (induction a) (auto simp: sublist_Cons_right)

lemma replace_hit:
  "pat \<noteq> [] \<Longrightarrow> prefix pat s \<Longrightarrow> replace_all pat rep s = rep @ replace_all pat rep (drop (length pat) s)"
  by (cases s) auto

lemma replace_miss:
  "\<not> (pat \<noteq> [] \<and> prefix pat (c # cs)) \<Longrightarrow> replace_all pat rep (c # cs) = c # replace_all pat rep cs"
  by (subst replace_all.simps(2)) (simp only: if_False)

declare replace_all.simps(2) [simp del]

lemma replace_prefix:
  "prefix p (replace_all pat (CHR '' '' # rep) s) \<Longrightarrow> CHR '' '' \<notin> set p \<Longrightarrow> prefix p s"
proof (induction s arbitrary: p)
  case (Cons c cs)
  consider "p = []" | "p \<noteq> []" "pat \<noteq> []" "prefix pat (c # cs)" | "p \<noteq> []" "\<not> (pat \<noteq> [] \<and> prefix pat (c # cs))" by blast
  then show ?case
  proof cases
    case 2
    then show ?thesis using Cons.prems by (cases p) (simp_all add: replace_hit)
  next
    case 3
    then obtain q where q: "p = c # q" "prefix q (replace_all pat (CHR '' '' # rep) cs)"
      using Cons.prems(1) by (cases p) (simp_all add: replace_miss)
    then show ?thesis using Cons.IH [OF q(2)] Cons.prems(2) by simp
  qed simp
qed simp

lemma sublist_dot:
  assumes "CHR ''.'' \<notin> set rep" "CHR '' '' \<notin> set q"
  shows "sublist (CHR ''.'' # q) (replace_all pat (CHR '' '' # rep) s) \<Longrightarrow> sublist (CHR ''.'' # q) s"
proof (induction s rule: measure_induct_rule [of length])
  case (less s)
  consider "s = []" | "s \<noteq> []" "pat \<noteq> []" "prefix pat s" | c cs where "s = c # cs" "\<not> (pat \<noteq> [] \<and> prefix pat (c # cs))"
    by (cases s) auto
  then show ?case
  proof cases
    case 1
    then show ?thesis using less.prems by simp
  next
    case 2
    have "sublist (CHR ''.'' # q) (replace_all pat (CHR '' '' # rep) (drop (length pat) s))"
      by (rule sublist_skip [of _ "CHR '' '' # rep"]) (use less.prems 2 assms(1) in \<open>simp_all add: replace_hit\<close>)
    then have "sublist (CHR ''.'' # q) (drop (length pat) s)" by (rule less.IH [rotated]) (use 2 in simp)
    then show ?thesis by (rule sublist_order.order_trans) (rule sublist_drop)
  next
    case (3 c cs)
    then consider "c = CHR ''.''" "prefix q (replace_all pat (CHR '' '' # rep) cs)"
      | "sublist (CHR ''.'' # q) (replace_all pat (CHR '' '' # rep) cs)"
      using less.prems by (auto simp: replace_miss sublist_Cons_right)
    then show ?thesis
    proof cases
      case 1
      then show ?thesis using replace_prefix [OF _ assms(2)] 3(1) by (simp add: sublist_Cons_right)
    next
      case 2
      then have "sublist (CHR ''.'' # q) cs" by (rule less.IH [rotated]) (simp add: 3(1))
      then show ?thesis using 3(1) by (simp add: sublist_Cons_right)
    qed
  qed
qed

lemma replace_removes:
  assumes "CHR ''.'' \<notin> set rep" "CHR '' '' \<notin> set q"
  shows "\<not> sublist (CHR ''.'' # q) (replace_all (CHR ''.'' # q) (CHR '' '' # rep) s)"
proof (induction s rule: measure_induct_rule [of length])
  case (less s)
  let ?p = "CHR ''.'' # q"
  consider "s = []" | "s \<noteq> []" "prefix ?p s" | c cs where "s = c # cs" "\<not> (?p \<noteq> [] \<and> prefix ?p (c # cs))"
    by (cases s) auto
  then show ?case
  proof cases
    case 2
    then have "\<not> sublist ?p (replace_all ?p (CHR '' '' # rep) (drop (length ?p) s))" by (intro less.IH) simp
    then show ?thesis
      using sublist_skip [of "CHR ''.''" "CHR '' '' # rep"] assms(1) replace_hit [OF _ 2(2)] by auto
  next
    case (3 c cs)
    have "\<not> sublist ?p (replace_all ?p (CHR '' '' # rep) cs)" by (rule less.IH) (simp add: 3(1))
    moreover have "\<not> prefix ?p (c # replace_all ?p (CHR '' '' # rep) cs)"
      using 3(2) replace_prefix [OF _ assms(2), of ?p rep cs] by auto
    ultimately have "\<not> sublist ?p (c # replace_all ?p (CHR '' '' # rep) cs)" by (simp only: sublist_Cons_right) blast
    then show ?thesis unfolding 3(1) replace_miss [OF 3(2)] .
  qed simp
qed

lemma replace_absent: "\<not> sublist pat s \<Longrightarrow> replace_all pat rep s = s"
proof (induction s)
  case (Cons c cs)
  then have "\<not> prefix pat (c # cs)" "\<not> sublist pat cs" by (auto simp: sublist_Cons_right)
  then show ?case using Cons.IH by (simp add: replace_miss)
qed simp

lemma methods_plain:
  "m \<in> set METHODS \<Longrightarrow> CHR ''.'' \<notin> set m \<and> CHR '' '' \<notin> set m"
  by (auto simp: METHODS_def)

lemma call_of_Cons: "call_of m = CHR ''.'' # (m @ ''('')" "filter_of m = CHR '' '' # (''| '' @ m @ ''('')"
  by (simp_all add: call_of_def filter_of_def)

lemma replaced_methods:
  assumes "set ms \<subseteq> set METHODS" "m \<in> set METHODS" "m \<in> set ms \<or> \<not> sublist (call_of m) s"
  shows "\<not> sublist (call_of m) (foldl (\<lambda>s m. replace_all (call_of m) (filter_of m) s) s ms)"
  using assms
proof (induction ms arbitrary: s)
  case (Cons k ms)
  have k: "CHR ''.'' \<notin> set (''| '' @ k @ ''('')" "CHR '' '' \<notin> set (m @ ''('')" "CHR '' '' \<notin> set (k @ ''('')"
    using methods_plain [of k] methods_plain [of m] Cons.prems by auto
  have "m \<in> set ms \<or> \<not> sublist (call_of m) (replace_all (call_of k) (filter_of k) s)"
  proof (cases "m = k")
    case True
    then show ?thesis using replace_removes [OF k(1,2)] by (simp add: call_of_Cons)
  next
    case False
    then have "m \<in> set ms \<or> \<not> sublist (call_of m) s" using Cons.prems(3) by auto
    then show ?thesis using sublist_dot [OF k(1,2), of "call_of k" s] by (auto simp: call_of_Cons)
  qed
  then show ?case using Cons.IH [of "replace_all (call_of k) (filter_of k) s"] Cons.prems by simp
qed simp

lemma find_sub_None: "find_sub pat s = None \<longleftrightarrow> \<not> sublist pat s"
  by (induction pat s rule: find_sub.induct) (auto simp: sublist_Cons_right)

text \<open>
  No Python method call is left in a template handed to the engine, and a template without such calls
  is handed over as it is.
\<close>

theorem python_calls_rewritten:
  "(\<forall>m. m \<in> set METHODS \<longrightarrow> \<not> sublist (call_of m) (rewrite_python_str_methods t)) \<and>
   ((\<forall>m. m \<in> set METHODS \<longrightarrow> \<not> sublist (call_of m) t) \<longrightarrow> rewrite_python_str_methods t = t)"
proof (intro conjI impI allI)
  fix m assume "m \<in> set METHODS"
  then show "\<not> sublist (call_of m) (rewrite_python_str_methods t)"
    unfolding rewrite_python_str_methods_def by (intro replaced_methods) simp_all
next
  assume a: "\<forall>m. m \<in> set METHODS \<longrightarrow> \<not> sublist (call_of m) t"
  then have "\<not> sublist (call_of ''split'') t" by (simp add: METHODS_def)
  then have "find_sub ''.split('' t = None" unfolding find_sub_None by (simp add: call_of_def)
  then have "rewrite_split_index t = t" by (subst rewrite_split_index.simps) simp
  moreover have "foldl (\<lambda>s m. replace_all (call_of m) (filter_of m) s) t ms = t" if "set ms \<subseteq> set METHODS" for ms
    using that a by (induction ms) (auto simp: replace_absent)
  ultimately show "rewrite_python_str_methods t = t" by (simp add: rewrite_python_str_methods_def)
qed

theorem python_calls_rewritten_witness:
  "\<not> sublist (call_of ''strip'') (rewrite_python_str_methods ''{{ x.strip() }}'') \<and>
   rewrite_python_str_methods ''{{ x }}'' = ''{{ x }}''"
proof -
  have "CHR ''.'' \<notin> set ''{{ x }}''" by simp
  then have "\<not> sublist (call_of m) ''{{ x }}''" for m
    using set_mono_sublist [of "call_of m" "''{{ x }}''"] by (auto simp: call_of_def)
  then show ?thesis
    using python_calls_rewritten [of "''{{ x }}''"] python_calls_rewritten [of "''{{ x.strip() }}''"] by (simp add: METHODS_def)
qed

lemma paren_quoted: "QUOTE \<notin> set y \<Longrightarrow> paren_loop 1 True False (y @ QUOTE # CHR '')'' # r) = Some (length y + 1)"
  by (induction y) (auto simp: QUOTE_def DQUOTE_def)

lemma find_sub_plain:
  assumes "CHR ''.'' \<notin> set a"
  shows "find_sub (CHR ''.'' # p) (a @ CHR ''.'' # p @ r) = Some (length a)"
  using assms by (induction a) auto

lemma matching_quoted:
  assumes "QUOTE \<notin> set y"
  shows "find_matching_paren ((QUOTE # y @ [QUOTE]) @ CHR '')'' # r) = Some (length y + 2)"
  using paren_quoted [OF assms, of r] by (simp add: find_matching_paren_def)

text \<open>
  An indexed split becomes a filter: with a quoted separator, brackets and method names inside the
  quotes included, \<open>[0]\<close> takes the first part and \<open>[-1]\<close> the last, and the rest of the template is
  rewritten in turn.
\<close>

theorem split_index_rewritten:
  assumes "CHR ''.'' \<notin> set a" "QUOTE \<notin> set y" and x: "x = QUOTE # y @ [QUOTE]"
  shows "rewrite_split_index (a @ ''.split('' @ x @ '')[0]'' @ b) = a @ '' | split('' @ x @ '') | first'' @ rewrite_split_index b \<and>
    rewrite_split_index (a @ ''.split('' @ x @ '')[-1]'' @ b) = a @ '' | split('' @ x @ '') | last'' @ rewrite_split_index b"
proof -
  have step: "rewrite_split_index (a @ ''.split('' @ x @ CHR '')'' # i @ b) =
      (if prefix ''[0]'' (i @ b) then a @ '' | split('' @ x @ '') | first'' @ rewrite_split_index (drop 3 (i @ b))
       else if prefix ''[-1]'' (i @ b) then a @ '' | split('' @ x @ '') | last'' @ rewrite_split_index (drop 4 (i @ b))
       else a @ ''.split('' @ x @ '')'' @ take (first_char_len (i @ b)) (i @ b) @
         rewrite_split_index (drop (first_char_len (i @ b)) (i @ b)))" for i
  proof -
    have "find_sub ''.split('' (a @ ''.split('' @ x @ CHR '')'' # i @ b) = Some (length a)"
      using find_sub_plain [OF assms(1), of "''split(''" "x @ CHR '')'' # i @ b"] by simp
    moreover have "drop (length a + 7) (a @ ''.split('' @ x @ CHR '')'' # i @ b) = x @ CHR '')'' # i @ b" by simp
    moreover have "find_matching_paren (x @ CHR '')'' # i @ b) = Some (length x)"
      using matching_quoted [OF assms(2), of "i @ b"] by (simp add: x)
    ultimately show ?thesis
      by (subst rewrite_split_index.simps) (simp add: Let_def)
  qed
  show ?thesis using step [of "''[0]''"] step [of "''[-1]''"] by simp
qed

theorem split_index_rewritten_witness:
  "rewrite_split_index (''x.split('' @ [QUOTE] @ ''a)'' @ [QUOTE] @ '')[-1]'') = ''x | split('' @ [QUOTE] @ ''a)'' @ [QUOTE] @ '') | last''"
proof -
  have "rewrite_split_index [] = []" by (subst rewrite_split_index.simps) simp
  then show ?thesis
    using split_index_rewritten [of "''x''" "''a)''" "QUOTE # ''a)'' @ [QUOTE]" "[]"] by (simp add: QUOTE_def)
qed

end
