(* ===== verification/Kv_File.thy ===== *)
theory Kv_File
  imports Transformer
begin

text \<open>
  The files a session's key-value caches are saved to (\<open>Src/ML_Engine/context.rs\<close>, format \<open>KVCX\<close>): a
  header with what is needed to load the model again, then two tensors per layer. The reader works on
  positions with 64-bit wrap-around, as in \<open>Tensor_Bytes\<close>. The conversion of a tensor to a list of
  floats and back is the tensor library's.
\<close>

datatype 'e kvfile_error =
    Kf_Eof
  | Kf_Magic
  | Kf_Version u32
  | Kf_Path_Utf8
  | Kf_Template_Utf8
  | Kf_To_Dtype 'e
  | Kf_To_Vec1 'e
  | Kf_From_Vec 'e
  | Kf_Panic

definition KVCX_MAGIC :: bytes where "KVCX_MAGIC = [0x4B, 0x56, 0x43, 0x58]"
definition KVCX_VERSION :: u32 where "KVCX_VERSION = 1"

record kv_meta =
  kv_model_path :: string
  kv_start :: nat
  kv_end :: nat
  kv_rng_state :: u64
  kv_offset :: nat
  kv_eos_token_id :: u32
  kv_chat_template :: "string option"

section \<open>Writing\<close>

definition write_u32_le :: "bytes \<Rightarrow> u32 \<Rightarrow> bytes" where "write_u32_le buf v = buf @ u32_to_le v"
definition write_u64_le :: "bytes \<Rightarrow> u64 \<Rightarrow> bytes" where "write_u64_le buf v = buf @ u64_to_le v"

definition serialize_tensor ::
  "('t, 'q, 'w, 'c, 'e) tensor_lib \<Rightarrow> ('t \<Rightarrow> 'e + u32 list) \<Rightarrow> bytes \<Rightarrow> 't \<Rightarrow> 'e kvfile_error + bytes" where
  "serialize_tensor L to_vec1 buf t =
     rbind (map_err Kf_To_Dtype (tl_to_dtype L t Td_F32)) (\<lambda>t_f32.
     let ds = tl_dims L t_f32 in
     rbind (map_err Kf_To_Vec1 (to_vec1 t_f32)) (\<lambda>flat.
     let buf = write_u32_le buf (of_nat (length ds));
         buf = foldl (\<lambda>buf d. write_u64_le buf (of_nat d)) buf ds;
         buf = write_u64_le buf (of_nat (length flat))
     in Inr (buf @ concat (map u32_to_le flat))))"

fun serialize_kvs ::
  "('t, 'q, 'w, 'c, 'e) tensor_lib \<Rightarrow> ('t \<Rightarrow> 'e + u32 list) \<Rightarrow> bytes \<Rightarrow> ('t \<times> 't) list \<Rightarrow> 'e kvfile_error + bytes" where
  "serialize_kvs L to_vec1 buf [] = Inr buf"
| "serialize_kvs L to_vec1 buf ((k, v) # kvs) =
     rbind (serialize_tensor L to_vec1 buf k) (\<lambda>buf.
     rbind (serialize_tensor L to_vec1 buf v) (\<lambda>buf.
     serialize_kvs L to_vec1 buf kvs))"

definition kv_header :: "kv_meta \<Rightarrow> nat \<Rightarrow> bytes" where
  "kv_header h n =
     (let buf = KVCX_MAGIC;
          buf = write_u32_le buf KVCX_VERSION;
          model_path_bytes = as_bytes (kv_model_path h);
          buf = write_u32_le buf (of_nat (length model_path_bytes));
          buf = buf @ model_path_bytes;
          buf = write_u32_le buf (of_nat (kv_start h));
          buf = write_u32_le buf (of_nat (kv_end h));
          buf = write_u64_le buf (kv_rng_state h);
          buf = write_u64_le buf (of_nat (kv_offset h));
          buf = write_u32_le buf (kv_eos_token_id h);
          ct_bytes = as_bytes (case kv_chat_template h of Some ct \<Rightarrow> ct | None \<Rightarrow> []);
          buf = write_u32_le buf (of_nat (length ct_bytes));
          buf = buf @ ct_bytes
      in write_u32_le buf (of_nat n))"

definition serialize_kv_to_file ::
  "('t, 'q, 'w, 'c, 'e) tensor_lib \<Rightarrow> ('t \<Rightarrow> 'e + u32 list) \<Rightarrow> kv_meta \<Rightarrow> ('t \<times> 't) list \<Rightarrow> 'e kvfile_error + bytes" where
  "serialize_kv_to_file L to_vec1 h kvs = serialize_kvs L to_vec1 (kv_header h (length kvs)) kvs"

section \<open>Reading\<close>

definition kv_take :: "bytes \<Rightarrow> nat \<Rightarrow> nat \<Rightarrow> 'e kvfile_error + bytes \<times> nat" where
  "kv_take data offset cnt =
     (let stop = (offset + cnt) mod usize_max in
      if stop > length data then Inl Kf_Eof
      else if stop < offset then Inl Kf_Panic
      else Inr (take (stop - offset) (drop offset data), stop))"

fun read_shape :: "bytes \<Rightarrow> nat \<Rightarrow> nat \<Rightarrow> 'e kvfile_error + nat list \<times> nat" where
  "read_shape data offset 0 = Inr ([], offset)"
| "read_shape data offset (Suc n) =
     rbind (kv_take data offset 8) (\<lambda>(d, offset).
     rbind (read_shape data offset n) (\<lambda>(ds, offset).
     Inr (unat (u64_from_le d) # ds, offset)))"

text \<open>The data length is taken as a number of bytes.\<close>

definition deserialize_tensor ::
  "(u32 list \<Rightarrow> nat list \<Rightarrow> 'e + 't) \<Rightarrow> bytes \<Rightarrow> nat \<Rightarrow> 'e kvfile_error + 't \<times> nat" where
  "deserialize_tensor from_vec data offset =
     rbind (kv_take data offset 4) (\<lambda>(nd, offset).
     rbind (read_shape data offset (unat (u32_from_le nd))) (\<lambda>(shape, offset).
     rbind (kv_take data offset 8) (\<lambda>(dl, offset).
     rbind (kv_take data offset (unat (u64_from_le dl))) (\<lambda>(raw, offset).
     let elem_count = length raw div 4 in
     rbind (map_err Kf_From_Vec (from_vec (take_u32s elem_count raw) shape)) (\<lambda>t.
     Inr (t, offset))))))"

fun read_kvs ::
  "(u32 list \<Rightarrow> nat list \<Rightarrow> 'e + 't) \<Rightarrow> bytes \<Rightarrow> nat \<Rightarrow> nat \<Rightarrow> 'e kvfile_error + ('t \<times> 't) list" where
  "read_kvs from_vec data offset 0 = Inr []"
| "read_kvs from_vec data offset (Suc n) =
     rbind (deserialize_tensor from_vec data offset) (\<lambda>(k, offset).
     rbind (deserialize_tensor from_vec data offset) (\<lambda>(v, offset).
     rbind (read_kvs from_vec data offset n) (\<lambda>kvs.
     Inr ((k, v) # kvs))))"

definition read_header :: "bytes \<Rightarrow> 'e kvfile_error + kv_meta \<times> nat \<times> nat" where
  "read_header data =
     rbind (kv_take data 0 4) (\<lambda>(magic, offset).
     if magic \<noteq> KVCX_MAGIC then Inl Kf_Magic else
     rbind (kv_take data offset 4) (\<lambda>(version, offset).
     if u32_from_le version \<noteq> KVCX_VERSION then Inl (Kf_Version (u32_from_le version)) else
     rbind (kv_take data offset 4) (\<lambda>(model_path_len, offset).
     rbind (kv_take data offset (unat (u32_from_le model_path_len))) (\<lambda>(model_path_bytes, offset).
     rbind (ok_or Kf_Path_Utf8 (from_utf8 model_path_bytes)) (\<lambda>model_path.
     rbind (kv_take data offset 4) (\<lambda>(start, offset).
     rbind (kv_take data offset 4) (\<lambda>(stop, offset).
     rbind (kv_take data offset 8) (\<lambda>(rng_state, offset).
     rbind (kv_take data offset 8) (\<lambda>(off, offset).
     rbind (kv_take data offset 4) (\<lambda>(eos, offset).
     rbind (kv_take data offset 4) (\<lambda>(ct_len, offset).
     rbind (kv_take data offset (unat (u32_from_le ct_len))) (\<lambda>(ct_bytes, offset).
     rbind (if ct_bytes = [] then Inr None
            else rbind (ok_or Kf_Template_Utf8 (from_utf8 ct_bytes)) (\<lambda>ct. Inr (Some ct))) (\<lambda>ct.
     rbind (kv_take data offset 4) (\<lambda>(num_layers, offset).
     Inr (\<lparr>kv_model_path = model_path, kv_start = unat (u32_from_le start), kv_end = unat (u32_from_le stop),
           kv_rng_state = u64_from_le rng_state, kv_offset = unat (u64_from_le off),
           kv_eos_token_id = u32_from_le eos, kv_chat_template = ct\<rparr>,
          unat (u32_from_le num_layers), offset)))))))))))))))"

definition deserialize_kv_from_file ::
  "(u32 list \<Rightarrow> nat list \<Rightarrow> 'e + 't) \<Rightarrow> bytes \<Rightarrow> 'e kvfile_error + ('t \<times> 't) list \<times> kv_meta" where
  "deserialize_kv_from_file from_vec data =
     rbind (read_header data) (\<lambda>(h, n, offset).
     rbind (read_kvs from_vec data offset n) (\<lambda>kvs.
     Inr (kvs, h)))"

section \<open>The header\<close>

lemma kv_take_at:
  assumes "length data < usize_max" "offset + n \<le> length data"
  shows "kv_take data offset n = Inr (take n (drop offset data), offset + n)"
  using assms by (simp add: kv_take_def Let_def)

definition meta_ok :: "kv_meta \<Rightarrow> bool" where
  "meta_ok h \<longleftrightarrow>
     is_str (kv_model_path h) \<and> length (kv_model_path h) < 2 ^ 32 \<and>
     (case kv_chat_template h of None \<Rightarrow> True | Some ct \<Rightarrow> is_str ct \<and> ct \<noteq> [] \<and> length ct < 2 ^ 32) \<and>
     kv_start h < 2 ^ 32 \<and> kv_end h < 2 ^ 32 \<and> kv_offset h < 2 ^ 64"

definition template_text :: "kv_meta \<Rightarrow> string" where
  "template_text h = (case kv_chat_template h of Some ct \<Rightarrow> ct | None \<Rightarrow> [])"

lemma kv_header_fields:
  "kv_header h n = KVCX_MAGIC @ u32_to_le KVCX_VERSION @ u32_to_le (of_nat (length (kv_model_path h))) @ as_bytes (kv_model_path h) @
     u32_to_le (of_nat (kv_start h)) @ u32_to_le (of_nat (kv_end h)) @ u64_to_le (kv_rng_state h) @
     u64_to_le (of_nat (kv_offset h)) @ u32_to_le (kv_eos_token_id h) @
     u32_to_le (of_nat (length (template_text h))) @ as_bytes (template_text h) @ u32_to_le (of_nat n)"
  by (simp add: kv_header_def write_u32_le_def write_u64_le_def template_text_def Let_def)

lemma length_kv_header: "length (kv_header h n) = 48 + length (kv_model_path h) + length (template_text h)"
  by (simp add: kv_header_fields KVCX_MAGIC_def)

lemma as_bytes_Nil_iff: "as_bytes s = [] \<longleftrightarrow> s = []"
  by (simp add: as_bytes_def)

lemma read_kv_header:
  assumes ok: "meta_ok h" and len: "length (kv_header h n @ r) < usize_max" and n: "n < 2 ^ 32"
  shows "read_header (kv_header h n @ r) = Inr (h, n, length (kv_header h n))"
proof -
  define data where "data = kv_header h n @ r"
  let ?p = "length (kv_model_path h)" and ?t = "length (template_text h)"
  have d: "data = KVCX_MAGIC @ u32_to_le KVCX_VERSION @ u32_to_le (of_nat ?p) @ as_bytes (kv_model_path h) @
     u32_to_le (of_nat (kv_start h)) @ u32_to_le (of_nat (kv_end h)) @ u64_to_le (kv_rng_state h) @
     u64_to_le (of_nat (kv_offset h)) @ u32_to_le (kv_eos_token_id h) @ u32_to_le (of_nat ?t) @ as_bytes (template_text h) @
     u32_to_le (of_nat n) @ r"
    by (simp add: data_def kv_header_fields)
  have ln: "length data = 48 + ?p + ?t + length r" by (simp add: data_def length_kv_header)
  have m: "length KVCX_MAGIC = 4" by (simp add: KVCX_MAGIC_def)
  have lt: "length data < usize_max" using len by (simp add: data_def)
  have parts: "take 4 data = KVCX_MAGIC" "take 4 (drop 4 data) = u32_to_le KVCX_VERSION"
    "take 4 (drop 8 data) = u32_to_le (of_nat ?p)" "take ?p (drop 12 data) = as_bytes (kv_model_path h)"
    "take 4 (drop (12 + ?p) data) = u32_to_le (of_nat (kv_start h))"
    "take 4 (drop (16 + ?p) data) = u32_to_le (of_nat (kv_end h))"
    "take 8 (drop (20 + ?p) data) = u64_to_le (kv_rng_state h)"
    "take 8 (drop (28 + ?p) data) = u64_to_le (of_nat (kv_offset h))"
    "take 4 (drop (36 + ?p) data) = u32_to_le (kv_eos_token_id h)"
    "take 4 (drop (40 + ?p) data) = u32_to_le (of_nat ?t)"
    "take ?t (drop (44 + ?p) data) = as_bytes (template_text h)"
    "take 4 (drop (44 + ?p + ?t) data) = u32_to_le (of_nat n)"
    by (simp_all add: d m)
  have vals: "unat (of_nat ?p :: u32) = ?p" "unat (of_nat ?t :: u32) = ?t" "unat (of_nat (kv_start h) :: u32) = kv_start h"
    "unat (of_nat (kv_end h) :: u32) = kv_end h" "unat (of_nat (kv_offset h) :: u64) = kv_offset h" "unat (of_nat n :: u32) = n"
    using ok n by (auto simp: meta_ok_def template_text_def unat_of_nat split: option.splits)
  have path: "from_utf8 (as_bytes (kv_model_path h)) = Some (kv_model_path h)" using ok by (simp add: meta_ok_def)
  have ct: "(if as_bytes (template_text h) = [] then Inr None
      else rbind (ok_or Kf_Template_Utf8 (from_utf8 (as_bytes (template_text h)))) (\<lambda>ct. Inr (Some ct))) = Inr (kv_chat_template h)"
    using ok by (auto simp: meta_ok_def template_text_def as_bytes_Nil_iff split: option.splits)
  show ?thesis
    unfolding data_def [symmetric] read_header_def
    by (simp add: kv_take_at [OF lt] ln parts vals path ct length_kv_header cong: if_weak_cong)
qed

section \<open>The caches\<close>

definition dim_bytes :: "nat list \<Rightarrow> bytes" where
  "dim_bytes ds = concat (map u64_to_le (map of_nat ds))"

lemma length_dim_bytes [simp]: "length (dim_bytes ds) = 8 * length ds"
  unfolding dim_bytes_def length_concat_le by simp

lemma foldl_dims: "foldl (\<lambda>buf d. write_u64_le buf (of_nat d)) buf ds = buf @ dim_bytes ds"
  by (induction ds arbitrary: buf) (simp_all add: write_u64_le_def dim_bytes_def)

lemma serialize_tensor_Inr:
  assumes "serialize_tensor L to_vec1 buf t = Inr buf'"
  obtains f flat where "tl_to_dtype L t Td_F32 = Inr f" "to_vec1 f = Inr flat"
    "buf' = buf @ u32_to_le (of_nat (length (tl_dims L f))) @ dim_bytes (tl_dims L f) @
       u64_to_le (of_nat (length flat)) @ concat (map u32_to_le flat)"
  using assms
  by (cases "tl_to_dtype L t Td_F32"; cases "to_vec1 (projr (tl_to_dtype L t Td_F32))")
    (auto simp: serialize_tensor_def Let_def foldl_dims write_u32_le_def write_u64_le_def [of "_ @ _"])

lemma serialize_kvs_prefix: "serialize_kvs L to_vec1 buf kvs = Inr data \<Longrightarrow> prefix buf data"
proof (induction kvs arbitrary: buf)
  case (Cons kv kvs)
  obtain k v where kv: "kv = (k, v)" by (cases kv)
  from Cons.prems kv obtain b1 b2 where b: "serialize_tensor L to_vec1 buf k = Inr b1" "serialize_tensor L to_vec1 b1 v = Inr b2"
    "serialize_kvs L to_vec1 b2 kvs = Inr data" by (auto simp: rbind_eq_Inr)
  have "prefix buf b1" "prefix b1 b2"
    by (rule serialize_tensor_Inr [OF b(1)], simp) (rule serialize_tensor_Inr [OF b(2)], simp)
  with Cons.IH [OF b(3)] show ?case by (meson prefix_order.order_trans)
qed simp

lemma read_shape_at:
  assumes "length data < usize_max" "drop offset data = concat (map u64_to_le ws) @ r" "offset \<le> length data"
  shows "read_shape data offset (length ws) = Inr (map unat ws, offset + 8 * length ws)"
  using assms(2,3)
proof (induction ws arbitrary: offset)
  case (Cons w ws)
  have len: "length data - offset = 8 + length (concat (map u64_to_le ws) @ r)"
    using arg_cong [OF Cons.prems(1), of length] by simp
  then have le: "offset + 8 \<le> length data" by linarith
  have dr: "drop (offset + 8) data = concat (map u64_to_le ws) @ r"
    using Cons.prems(1) by (metis add.commute append.assoc append_eq_conv_conj concat.simps(2) drop_drop int_codec_lengths(3) list.simps(9))
  have tk: "take 8 (drop offset data) = u64_to_le w" using Cons.prems(1) by simp
  show ?case using Cons.IH [OF dr le] by (simp add: kv_take_at [OF assms(1) le] tk)
qed simp

text \<open>What the reader makes of the first tensor of the file.\<close>

lemma read_first_tensor:
  fixes from_vec :: "u32 list \<Rightarrow> nat list \<Rightarrow> 'e + 't"
  assumes len: "length data < usize_max" and at: "drop offset data = u32_to_le (of_nat (length ds)) @ dim_bytes ds @
       u64_to_le (of_nat (length flat)) @ concat (map u32_to_le flat) @ r" "offset \<le> length data"
    and ok: "length ds < 2 ^ 32" "\<forall>d \<in> set ds. d < 2 ^ 64" "length flat < 2 ^ 64"
  shows "deserialize_tensor from_vec data offset =
    rbind (map_err Kf_From_Vec (from_vec (take_u32s (length flat div 4) (take (length flat) (concat (map u32_to_le flat) @ r))) ds))
      (\<lambda>t. Inr (t, offset + 12 + 8 * length ds + length flat))"
proof -
  let ?o = "offset + 4" and ?ws = "map of_nat ds :: u64 list"
  have ln: "length data = offset + (12 + 8 * length ds + 4 * length flat + length r)"
    using arg_cong [OF at(1), of length] at(2) by simp
  have d1: "drop ?o data = dim_bytes ds @ u64_to_le (of_nat (length flat)) @ concat (map u32_to_le flat) @ r"
    using at(1) by (metis add.commute append_eq_conv_conj drop_drop int_codec_lengths(2))
  have d2: "drop (?o + 8 * length ds) data = u64_to_le (of_nat (length flat)) @ concat (map u32_to_le flat) @ r"
    using d1 by (metis add.commute append_eq_conv_conj drop_drop length_dim_bytes)
  have d3: "drop (?o + 8 * length ds + 8) data = concat (map u32_to_le flat) @ r"
    using d2 by (metis add.commute append_eq_conv_conj drop_drop int_codec_lengths(3))
  have "map unat ?ws = ds" using ok(2) by (auto intro!: map_idI simp: unat_of_nat)
  then have sh: "(read_shape data ?o (length ds) :: 'e kvfile_error + _) = Inr (ds, ?o + 8 * length ds)"
    using read_shape_at [OF len d1 [unfolded dim_bytes_def], where 'a = 'e] ln by simp
  have vals: "unat (of_nat (length ds) :: u32) = length ds" "unat (of_nat (length flat) :: u64) = length flat"
    using ok(1,3) by (simp_all add: unat_of_nat)
  have t: "take 4 (drop offset data) = u32_to_le (of_nat (length ds))"
    "take 8 (drop (?o + 8 * length ds) data) = u64_to_le (of_nat (length flat))"
    using at(1) d2 by simp_all
  show ?thesis
    using ln unfolding deserialize_tensor_def
    by (simp add: kv_take_at [OF len] t [simplified] vals sh [simplified] d3 [simplified] Let_def) (simp add: ac_simps)
qed

lemma length_take_u32s [simp]: "length (take_u32s n bs) = n"
  by (induction n bs rule: take_u32s.induct) simp_all

lemma member_dvd_prod: "d \<in> set ds \<Longrightarrow> d dvd prod_list (ds :: nat list)"
  by (induction ds) auto

section \<open>Properties\<close>

text \<open>What is needed to resume a session survives the file: model path, layer range, the state of the
  sampler, the position, the end token and the chat template come back as they were saved.\<close>

theorem kv_header_roundtrip:
  assumes "meta_ok h" "length (kv_header h 0) < usize_max"
  shows "rbind (serialize_kv_to_file L to_vec1 h []) (deserialize_kv_from_file from_vec) = Inr ([], h)"
  using assms by (simp add: serialize_kv_to_file_def deserialize_kv_from_file_def read_kv_header [of h 0 "[]", simplified])

definition demo_meta :: kv_meta where
  "demo_meta = \<lparr>kv_model_path = ''m.pgguf'', kv_start = 0, kv_end = 29, kv_rng_state = 7, kv_offset = 12,
     kv_eos_token_id = 151645, kv_chat_template = Some ''{{ x }}''\<rparr>"

lemma demo_meta_ok: "meta_ok demo_meta" "length (kv_header demo_meta n) = 62"
  by (simp_all add: demo_meta_def meta_ok_def ascii_is_str ascii_def length_kv_header template_text_def)

theorem kv_header_roundtrip_witness:
  "rbind (serialize_kv_to_file toy_lib (\<lambda>t. Inr [0]) demo_meta []) (deserialize_kv_from_file (\<lambda>xs ds. Inr (ds, 0))) = Inr ([], demo_meta)"
  by (rule kv_header_roundtrip) (simp_all add: demo_meta_ok usize_max_def)

text \<open>The caches themselves do not: the writer stores the number of elements of a tensor, the reader takes
  it for a number of bytes. Whenever saving succeeds and the first cached tensor has any elements,
  loading the file fails, since the library builds no tensor from a quarter of its elements.
\<close>

theorem saved_caches_unreadable:
  assumes "\<forall>t xs. to_vec1 t = Inr xs \<longrightarrow> length xs = prod_list (tl_dims L t)"
    and "\<forall>xs ds t. from_vec xs ds = Inr t \<longrightarrow> length xs = prod_list ds"
    and "meta_ok h" "length ((k, v) # kvs) < 2 ^ 32" "serialize_kv_to_file L to_vec1 h ((k, v) # kvs) = Inr data"
    and "length data < usize_max" "tl_to_dtype L k Td_F32 = Inr f" "prod_list (tl_dims L f) > 0" "length (tl_dims L f) < 2 ^ 32"
  shows "\<exists>e. deserialize_kv_from_file from_vec data = Inl (Kf_From_Vec e)"
proof -
  let ?ds = "tl_dims L f" and ?h = "kv_header h (length ((k, v) # kvs))"
  from assms(5) obtain b1 b2 where b: "serialize_tensor L to_vec1 ?h k = Inr b1" "serialize_tensor L to_vec1 b1 v = Inr b2"
    "serialize_kvs L to_vec1 b2 kvs = Inr data" by (auto simp: serialize_kv_to_file_def rbind_eq_Inr)
  from serialize_tensor_Inr [OF b(1)] assms(7) obtain flat where flat: "to_vec1 f = Inr flat"
    "b1 = ?h @ u32_to_le (of_nat (length ?ds)) @ dim_bytes ?ds @ u64_to_le (of_nat (length flat)) @ concat (map u32_to_le flat)"
    by (metis Inr_inject)
  have "prefix b1 b2" by (rule serialize_tensor_Inr [OF b(2)]) simp
  with serialize_kvs_prefix [OF b(3)] have "prefix b1 data" by (meson prefix_order.order_trans)
  then obtain r where data: "data = b1 @ r" by (auto simp: prefix_def)
  have n: "length flat = prod_list ?ds" using assms(1) flat(1) by blast
  have fl: "4 * length flat \<le> length data" using data flat(2) by simp
  have small: "d \<le> length flat" if "d \<in> set ?ds" for d
    using that assms(8) unfolding n by (metis dvd_imp_le member_dvd_prod)
  have dr: "data = ?h @ drop (length ?h) data" by (simp add: data flat(2))
  have "length (?h @ drop (length ?h) data) < usize_max" using assms(6) dr by simp
  note hdr = read_kv_header [OF assms(3) this assms(4), folded dr]
  have "deserialize_tensor from_vec data (length ?h) =
    rbind (map_err Kf_From_Vec (from_vec (take_u32s (length flat div 4) (take (length flat) (concat (map u32_to_le flat) @ r))) ?ds))
      (\<lambda>t. Inr (t, length ?h + 12 + 8 * length ?ds + length flat))"
  proof (rule read_first_tensor [OF assms(6)])
    show "drop (length ?h) data = u32_to_le (of_nat (length ?ds)) @ dim_bytes ?ds @
       u64_to_le (of_nat (length flat)) @ concat (map u32_to_le flat) @ r"
      by (simp add: data flat(2))
    show "length flat < 2 ^ 64" "\<forall>d \<in> set ?ds. d < 2 ^ 64"
      using fl assms(6) small by (force simp: usize_max_def)+
  qed (use assms(9) in \<open>simp_all add: data flat(2)\<close>)
  moreover have "from_vec (take_u32s (length flat div 4) bs) ?ds \<noteq> Inr t" for bs t
  proof
    assume "from_vec (take_u32s (length flat div 4) bs) ?ds = Inr t"
    then have "length (take_u32s (length flat div 4) bs) = prod_list ?ds" using assms(2) by blast
    then have "length flat div 4 = length flat" by (simp add: n)
    then show False using assms(8) n by simp
  qed
  ultimately obtain e where "deserialize_tensor from_vec data (length ?h) = Inl (Kf_From_Vec e)"
    by (cases "from_vec (take_u32s (length flat div 4) (take (length flat) (concat (map u32_to_le flat) @ r))) ?ds") auto
  then show ?thesis by (simp add: deserialize_kv_from_file_def hdr)
qed

definition toy_vec :: "nat list \<times> u32 \<Rightarrow> string + u32 list" where
  "toy_vec t = Inr (replicate (prod_list (fst t)) 0)"

definition toy_from_vec :: "u32 list \<Rightarrow> nat list \<Rightarrow> string + nat list \<times> u32" where
  "toy_from_vec xs ds = (if length xs = prod_list ds then Inr (ds, 0) else Inl ''shape'')"

lemma toy_serialize:
  "\<exists>b. serialize_tensor toy_lib toy_vec buf ([2], 1) = Inr b \<and> length b = length buf + 28"
  by (simp add: serialize_tensor_def toy_lib_def toy_vec_def write_u32_le_def write_u64_le_def numeral_2_eq_2)

theorem saved_caches_unreadable_witness:
  "\<exists>data e. serialize_kv_to_file toy_lib toy_vec demo_meta [(([2], 1), ([2], 1))] = Inr data \<and>
     deserialize_kv_from_file toy_from_vec data = Inl (Kf_From_Vec e)"
proof -
  from toy_serialize [of "kv_header demo_meta 1"] obtain b where
    b: "serialize_tensor toy_lib toy_vec (kv_header demo_meta 1) ([2], 1) = Inr b" "length b = 90" by (auto simp: demo_meta_ok)
  from toy_serialize [of b] obtain d where
    d: "serialize_tensor toy_lib toy_vec b ([2], 1) = Inr d" "length d = 118" using b(2) by auto
  have s: "serialize_kv_to_file toy_lib toy_vec demo_meta [(([2], 1), ([2], 1))] = Inr d"
    using b(1) d(1) by (simp add: serialize_kv_to_file_def)
  have "\<exists>e. deserialize_kv_from_file toy_from_vec d = Inl (Kf_From_Vec e)"
    by (rule saved_caches_unreadable [OF _ _ demo_meta_ok(1) _ s, where f = "([2], 1)"])
      (use d(2) in \<open>simp_all add: toy_lib_def toy_vec_def toy_from_vec_def usize_max_def split: if_splits\<close>)
  then show ?thesis using s by blast
qed

end
