(* ===== verification/Ml_Context.thy ===== *)
theory Ml_Context
  imports Complex_Main Model_Loading Kv_File Chat_Template
begin

text \<open>
  The inference session scripts work with (\<open>MlSession\<close> of \<open>Src/ML_Engine/context.rs\<close>): loading and
  unloading of the model and the tokenizer, encoding, forward passes, sampling, and the moving of the
  key-value caches to memory and to files and back. A method on \<open>&mut self\<close> returns its result and the
  session, changed as far as the code got. The libraries, the file system's refusals and the floating
  point operations of sampling are an environment.
\<close>

section \<open>The environment\<close>

text \<open>\<open>me_get\<close>, \<open>me_squeeze\<close>, \<open>me_argmax\<close>, \<open>me_scale_down\<close>, \<open>me_softmax\<close>, \<open>me_to_vec1\<close> and \<open>me_from_vec\<close> are
  tensor operations; \<open>me_zero\<close>, \<open>me_add\<close> (of an \<open>f32\<close> to an \<open>f64\<close>), \<open>me_gt\<close> and \<open>me_ratio\<close> (of two integers)
  are the arithmetic of sampling over the type \<open>'f\<close> of its numbers.\<close>

record ('t, 'q, 'w, 'c, 'e, 'k, 'f) ml_env =
  me_candle :: candle
  me_lib :: "('t, 'q, 'w, 'c, 'e) tensor_lib"
  me_ctx :: "string \<Rightarrow> 'e \<Rightarrow> 'e"
  me_read_content :: "bytes \<Rightarrow> Content option"
  me_read_tensor :: "bytes \<Rightarrow> string \<Rightarrow> 'q option"
  me_hash :: "bytes \<Rightarrow> u32"
  me_sched :: "nat \<Rightarrow> nat"
  me_truncated :: bytes
  me_has_cuda :: "nat \<Rightarrow> bool"
  me_to_device :: "'t \<Rightarrow> device \<Rightarrow> 'e + 't"
  me_synchronize :: "device \<Rightarrow> 'e + unit"
  me_tensor_new :: "u32 list \<Rightarrow> device \<Rightarrow> 'e + 't"
  me_unsqueeze :: "'t \<Rightarrow> nat \<Rightarrow> 'e + 't"
  me_get :: "'t \<Rightarrow> nat \<Rightarrow> 'e + 't"
  me_argmax :: "'t \<Rightarrow> 'e + u32"
  me_scale_down :: "'t \<Rightarrow> u64 \<Rightarrow> 'e + 't"
  me_softmax :: "'t \<Rightarrow> 'e + 't"
  me_to_vec1 :: "'t \<Rightarrow> 'e + u32 list"
  me_from_vec :: "u32 list \<Rightarrow> nat list \<Rightarrow> 'e + 't"
  me_le_zero :: "u64 \<Rightarrow> bool"
  me_zero :: 'f
  me_add :: "'f \<Rightarrow> u32 \<Rightarrow> 'f"
  me_gt :: "'f \<Rightarrow> 'f \<Rightarrow> bool"
  me_ratio :: "nat \<Rightarrow> nat \<Rightarrow> 'f"
  me_tokenizer :: "bytes \<Rightarrow> 'k option"
  me_encode :: "'k \<Rightarrow> string \<Rightarrow> u32 list option"
  me_decode :: "'k \<Rightarrow> u32 list \<Rightarrow> string option"
  me_render :: "string \<Rightarrow> Message list \<Rightarrow> string option"
  me_kvcache_dir :: string
  me_writable :: "string \<Rightarrow> bool"

type_synonym disk = "(string \<times> bytes) list"

definition env_load ::
  "('t, 'q, 'w, 'c, 'e, 'k, 'f) ml_env \<Rightarrow> nat \<Rightarrow> nat \<Rightarrow> string \<Rightarrow> device \<Rightarrow> disk \<Rightarrow>
   ('e load_error + ('t, 'q, 'w, 'c) GGUF_Model) \<times> disk" where
  "env_load E start stop path dev disk =
     GGUF_Load_Model (me_candle E) (me_lib E) (me_ctx E) (me_read_content E) (me_read_tensor E) (me_hash E) (me_sched E)
       (me_truncated E) start stop path dev disk"

section \<open>State\<close>

datatype 'e ml_error =
    Me_Device device_error
  | Me_Load "'e load_error"
  | Me_Extension
  | Me_Tokenizer
  | Me_Analyze gguf_error
  | Me_No_Tokenizer
  | Me_Encode
  | Me_Decode
  | Me_Empty_Tokens
  | Me_Tensorize 'e
  | Me_No_Model
  | Me_Forward 'e
  | Me_Sync 'e
  | Me_Logits 'e
  | Me_Logits_Shape "nat list"
  | Me_Sample 'e
  | Me_No_Path
  | Me_Kv "'e kv_error"
  | Me_To_Device 'e
  | Me_Already_Loaded
  | Me_No_Offloaded_Kv
  | Me_File "'e kvfile_error"
  | Me_Write
  | Me_Read

record ('t, 'q, 'w, 'c, 'k) MlContext =
  sx_model :: "('t, 'q, 'w, 'c) GGUF_Model option"
  sx_tokenizer :: "'k option"
  sx_offset :: nat
  sx_rng_state :: u64
  sx_eos_token_id :: u32
  sx_chat_template :: "string option"
  sx_device :: device
  sx_offloaded_kv :: "('t \<times> 't) list option"
  sx_offloaded_model_path :: "string option"
  sx_offloaded_layer_start :: nat
  sx_offloaded_layer_end :: nat

definition DEFAULT_EOS :: u32 where "DEFAULT_EOS = 151645"

text \<open>\<open>seed\<close> is the time.\<close>

definition MlSession_new ::
  "('t, 'q, 'w, 'c, 'e, 'k, 'f) ml_env \<Rightarrow> u64 \<Rightarrow> string \<Rightarrow> 'e ml_error + ('t, 'q, 'w, 'c, 'k) MlContext" where
  "MlSession_new E seed dev_str =
     rbind (map_err Me_Device (Parse_Device_Str (me_has_cuda E) dev_str)) (\<lambda>dev.
     Inr \<lparr>sx_model = None, sx_tokenizer = None, sx_offset = 0, sx_rng_state = seed, sx_eos_token_id = DEFAULT_EOS,
          sx_chat_template = None, sx_device = dev, sx_offloaded_kv = None, sx_offloaded_model_path = None,
          sx_offloaded_layer_start = 0, sx_offloaded_layer_end = 0\<rparr>)"

section \<open>Models and tokenizers\<close>

definition ml_load_model ::
  "('t, 'q, 'w, 'c, 'e, 'k, 'f) ml_env \<Rightarrow> ('t, 'q, 'w, 'c, 'k) MlContext \<Rightarrow> string \<Rightarrow> nat \<Rightarrow> nat \<Rightarrow> disk \<Rightarrow>
   ('e ml_error + unit) \<times> ('t, 'q, 'w, 'c, 'k) MlContext \<times> disk" where
  "ml_load_model E s path start stop disk =
     (case env_load E start stop path (sx_device s) disk of
        (Inl e, disk) \<Rightarrow> (Inl (Me_Load e), s, disk)
      | (Inr g, disk) \<Rightarrow>
          (Inr (), s\<lparr>sx_model := Some g, sx_offset := 0, sx_offloaded_model_path := Some path,
                    sx_offloaded_layer_start := start, sx_offloaded_layer_end := stop\<rparr>, disk))"

text \<open>The method scripts call takes converted files only.\<close>

definition has_pgguf_extension :: "string \<Rightarrow> bool" where
  "has_pgguf_extension path =
     (let n = takeWhile (\<lambda>c. c \<noteq> CHR ''/'') (rev path);
          ext = takeWhile (\<lambda>c. c \<noteq> CHR ''.'') n
      in length ext < length n \<and> drop (length ext + 1) n \<noteq> [] \<and> rev ext = ''pgguf'')"

definition lua_load_model ::
  "('t, 'q, 'w, 'c, 'e, 'k, 'f) ml_env \<Rightarrow> ('t, 'q, 'w, 'c, 'k) MlContext \<Rightarrow> string \<Rightarrow> nat \<Rightarrow> nat \<Rightarrow> disk \<Rightarrow>
   ('e ml_error + unit) \<times> ('t, 'q, 'w, 'c, 'k) MlContext \<times> disk" where
  "lua_load_model E s path start stop disk =
     (if \<not> has_pgguf_extension path then (Inl Me_Extension, s, disk) else ml_load_model E s path start stop disk)"

definition ml_load_tokenizer ::
  "('t, 'q, 'w, 'c, 'e, 'k, 'f) ml_env \<Rightarrow> ('t, 'q, 'w, 'c, 'k) MlContext \<Rightarrow> string \<Rightarrow> disk \<Rightarrow>
   ('e ml_error + unit) \<times> ('t, 'q, 'w, 'c, 'k) MlContext" where
  "ml_load_tokenizer E s path disk =
     (case rbind (ok_or Me_Tokenizer (Option.bind (map_of disk path) (me_tokenizer E))) (\<lambda>tok.
           rbind (map_err Me_Analyze (GGUF_Analyze (me_candle E) (me_read_content E) disk path)) (\<lambda>info.
           Inr (tok, info))) of
        Inl e \<Rightarrow> (Inl e, s)
      | Inr (tok, info) \<Rightarrow>
          (Inr (), s\<lparr>sx_eos_token_id := eos_token_id info, sx_chat_template := chat_template info, sx_tokenizer := Some tok\<rparr>))"

definition ml_unload :: "('t, 'q, 'w, 'c, 'k) MlContext \<Rightarrow> ('t, 'q, 'w, 'c, 'k) MlContext" where
  "ml_unload s = s\<lparr>sx_model := None, sx_tokenizer := None, sx_offset := 0, sx_eos_token_id := DEFAULT_EOS\<rparr>"

definition has_model :: "('t, 'q, 'w, 'c, 'k) MlContext \<Rightarrow> bool" where
  "has_model s \<longleftrightarrow> sx_model s \<noteq> None"

definition encode_messages ::
  "('t, 'q, 'w, 'c, 'e, 'k, 'f) ml_env \<Rightarrow> ('t, 'q, 'w, 'c, 'k) MlContext \<Rightarrow> Message list \<Rightarrow> 'e ml_error + u32 list" where
  "encode_messages E s messages =
     rbind (ok_or Me_No_Tokenizer (sx_tokenizer s)) (\<lambda>tok.
     ok_or Me_Encode (me_encode E tok (apply_chat_template (me_render E) (sx_chat_template s) messages)))"

text \<open>The older \<open>encode\<close>, with its own format of one user message, and the two read accessors.\<close>

definition ml_encode ::
  "('t, 'q, 'w, 'c, 'e, 'k, 'f) ml_env \<Rightarrow> ('t, 'q, 'w, 'c, 'k) MlContext \<Rightarrow> string \<Rightarrow> 'e ml_error + u32 list" where
  "ml_encode E s txt =
     rbind (ok_or Me_No_Tokenizer (sx_tokenizer s)) (\<lambda>tok.
     ok_or Me_Encode (me_encode E tok
       (''<|im_start|>user'' @ [CHR 0x0A] @ txt @ ''<|im_end|>'' @ [CHR 0x0A] @ ''<|im_start|>assistant'' @ [CHR 0x0A])))"

definition get_eos :: "('t, 'q, 'w, 'c, 'k) MlContext \<Rightarrow> u32" where
  "get_eos s = sx_eos_token_id s"

definition get_offset :: "('t, 'q, 'w, 'c, 'k) MlContext \<Rightarrow> nat" where
  "get_offset s = sx_offset s"

definition lua_encode ::
  "('t, 'q, 'w, 'c, 'e, 'k, 'f) ml_env \<Rightarrow> ('t, 'q, 'w, 'c, 'k) MlContext \<Rightarrow> string \<Rightarrow> 'e ml_error + u32 list" where
  "lua_encode E s txt = encode_messages E s [\<lparr>ms_role = ''user'', ms_content = txt\<rparr>]"

definition ml_decode ::
  "('t, 'q, 'w, 'c, 'e, 'k, 'f) ml_env \<Rightarrow> ('t, 'q, 'w, 'c, 'k) MlContext \<Rightarrow> u32 \<Rightarrow> 'e ml_error + string" where
  "ml_decode E s token_id =
     rbind (ok_or Me_No_Tokenizer (sx_tokenizer s)) (\<lambda>tok.
     ok_or Me_Decode (me_decode E tok (if token_id = sx_eos_token_id s then [] else [token_id])))"

section \<open>Inference\<close>

definition tensorize ::
  "('t, 'q, 'w, 'c, 'e, 'k, 'f) ml_env \<Rightarrow> ('t, 'q, 'w, 'c, 'k) MlContext \<Rightarrow> u32 list \<Rightarrow> 'e ml_error + 't" where
  "tensorize E s token_ids =
     (if token_ids = [] then Inl Me_Empty_Tokens
      else map_err Me_Tensorize (rbind (me_tensor_new E token_ids (sx_device s)) (\<lambda>t. me_unsqueeze E t 0)))"

text \<open>With no offset given the session's own is used and advanced by the length of the input.\<close>

definition ml_forward ::
  "('t, 'q, 'w, 'c, 'e, 'k, 'f) ml_env \<Rightarrow> ('t, 'q, 'w, 'c, 'k) MlContext \<Rightarrow> 't \<Rightarrow> nat option \<Rightarrow>
   ('e ml_error + 't) \<times> ('t, 'q, 'w, 'c, 'k) MlContext" where
  "ml_forward E s tensor offset =
     (case sx_model s of
        None \<Rightarrow> (Inl Me_No_Model, s)
      | Some g \<Rightarrow>
          let off = unwrap_or (sx_offset s) offset;
              ds = tl_dims (me_lib E) tensor;
              seq_len = (if 1 < length ds then ds ! 1 else 1)
          in (case GGUF_Model_Inference (me_lib E) g tensor off of
                (r, g) \<Rightarrow>
                  let s = s\<lparr>sx_model := Some g\<rparr> in
                  (case rbind (map_err Me_Forward r) (\<lambda>out.
                        rbind (map_err Me_Sync (me_synchronize E (sx_device s))) (\<lambda>_. Inr out)) of
                     Inl e \<Rightarrow> (Inl e, s)
                   | Inr out \<Rightarrow> (Inr out, if offset = None then s\<lparr>sx_offset := (sx_offset s + seq_len) mod usize_max\<rparr> else s))))"

definition extract_last_logits :: "('t, 'q, 'w, 'c, 'e, 'k, 'f) ml_env \<Rightarrow> 't \<Rightarrow> 'e ml_error + 't" where
  "extract_last_logits E logits =
     (case tl_dims (me_lib E) logits of
        [_, seq_len, _] \<Rightarrow>
          map_err Me_Logits (rbind (me_get E logits 0) (\<lambda>t. me_get E t (if seq_len = 0 then usize_max - 1 else seq_len - 1)))
      | [_, _] \<Rightarrow> map_err Me_Logits (tl_squeeze (me_lib E) logits 0)
      | [_] \<Rightarrow> Inr logits
      | ds \<Rightarrow> Inl (Me_Logits_Shape ds))"

definition next_rng :: "u64 \<Rightarrow> u64" where
  "next_rng r = r * 6364136223846793005 + 1442695040888963407"

fun pick_token ::
  "('t, 'q, 'w, 'c, 'e, 'k, 'f) ml_env \<Rightarrow> 'f \<Rightarrow> nat \<Rightarrow> 'f \<Rightarrow> u32 \<Rightarrow> u32 list \<Rightarrow> u32" where
  "pick_token E random i cumulative chosen [] = chosen"
| "pick_token E random i cumulative chosen (p # ps) =
     (let cumulative = me_add E cumulative p in
      if me_gt E cumulative random then of_nat i else pick_token E random (i + 1) cumulative chosen ps)"

definition ml_sample ::
  "('t, 'q, 'w, 'c, 'e, 'k, 'f) ml_env \<Rightarrow> ('t, 'q, 'w, 'c, 'k) MlContext \<Rightarrow> 't \<Rightarrow> u64 \<Rightarrow>
   ('e ml_error + u32) \<times> ('t, 'q, 'w, 'c, 'k) MlContext" where
  "ml_sample E s logits temperature =
     (case extract_last_logits E logits of
        Inl e \<Rightarrow> (Inl e, s)
      | Inr last_logits \<Rightarrow>
          if me_le_zero E temperature then (map_err Me_Sample (me_argmax E last_logits), s)
          else
            (case rbind (me_scale_down E last_logits temperature) (\<lambda>scaled.
                  rbind (me_softmax E scaled) (me_to_vec1 E)) of
               Inl e \<Rightarrow> (Inl (Me_Sample e), s)
             | Inr probs \<Rightarrow>
                 let rng = next_rng (sx_rng_state s);
                     random = me_ratio E (unat (drop_bit 33 rng)) 4294967295
                 in (Inr (pick_token E random 0 (me_zero E) (of_nat (if probs = [] then usize_max - 1 else length probs - 1)) probs),
                     s\<lparr>sx_rng_state := rng\<rparr>)))"

definition set_seed :: "('t, 'q, 'w, 'c, 'k) MlContext \<Rightarrow> u64 \<Rightarrow> ('t, 'q, 'w, 'c, 'k) MlContext" where
  "set_seed s seed = s\<lparr>sx_rng_state := seed\<rparr>"

definition reset_kv_cache ::
  "('t, 'q, 'w, 'c, 'e, 'k, 'f) ml_env \<Rightarrow> ('t, 'q, 'w, 'c, 'k) MlContext \<Rightarrow> ('t, 'q, 'w, 'c, 'k) MlContext" where
  "reset_kv_cache E s = s\<lparr>sx_model := map_option (GGUF_Model_Clear_KV_Cache (me_lib E)) (sx_model s)\<rparr>"

section \<open>Offloading\<close>

fun move_kvs :: "('t, 'q, 'w, 'c, 'e, 'k, 'f) ml_env \<Rightarrow> device \<Rightarrow> ('t \<times> 't) list \<Rightarrow> 'e + ('t \<times> 't) list" where
  "move_kvs E dev [] = Inr []"
| "move_kvs E dev ((k, v) # kvs) =
     rbind (me_to_device E k dev) (\<lambda>k. rbind (me_to_device E v dev) (\<lambda>v.
     rbind (move_kvs E dev kvs) (\<lambda>kvs. Inr ((k, v) # kvs))))"

definition offload_to_cpu ::
  "('t, 'q, 'w, 'c, 'e, 'k, 'f) ml_env \<Rightarrow> ('t, 'q, 'w, 'c, 'k) MlContext \<Rightarrow>
   ('e ml_error + unit) \<times> ('t, 'q, 'w, 'c, 'k) MlContext" where
  "offload_to_cpu E s =
     (case rbind (ok_or Me_No_Model (sx_model s)) (\<lambda>g.
           if sx_offloaded_model_path s = None then Inl Me_No_Path else
           rbind (map_err Me_Kv (extract_kv_cache (me_lib E) (gm_model g))) (\<lambda>kvs.
           map_err Me_To_Device (move_kvs E Dev_Cpu kvs))) of
        Inl e \<Rightarrow> (Inl e, s)
      | Inr kvs_cpu \<Rightarrow> (Inr (), s\<lparr>sx_model := None, sx_offloaded_kv := Some kvs_cpu\<rparr>))"

text \<open>The caches are taken out of the session first; an error after that does not put them back.\<close>

definition offload_to_cuda ::
  "('t, 'q, 'w, 'c, 'e, 'k, 'f) ml_env \<Rightarrow> ('t, 'q, 'w, 'c, 'k) MlContext \<Rightarrow> disk \<Rightarrow>
   ('e ml_error + unit) \<times> ('t, 'q, 'w, 'c, 'k) MlContext \<times> disk" where
  "offload_to_cuda E s disk =
     (if sx_model s \<noteq> None then (Inl Me_Already_Loaded, s, disk)
      else case sx_offloaded_kv s of
        None \<Rightarrow> (Inl Me_No_Offloaded_Kv, s, disk)
      | Some kvs \<Rightarrow>
          let s = s\<lparr>sx_offloaded_kv := None\<rparr> in
          (case sx_offloaded_model_path s of
             None \<Rightarrow> (Inl Me_No_Path, s, disk)
           | Some model_path \<Rightarrow>
               (case env_load E (sx_offloaded_layer_start s) (sx_offloaded_layer_end s) model_path (sx_device s) disk of
                  (Inl e, disk) \<Rightarrow> (Inl (Me_Load e), s, disk)
                | (Inr g, disk) \<Rightarrow>
                    (case move_kvs E (sx_device s) kvs of
                       Inl e \<Rightarrow> (Inl (Me_To_Device e), s, disk)
                     | Inr kvs_device \<Rightarrow>
                         (case restore_kv_cache (me_lib E) (gm_model g) kvs_device of
                            (Inl e, _) \<Rightarrow> (Inl (Me_Kv e), s, disk)
                          | (Inr _, m) \<Rightarrow>
                              (Inr (), s\<lparr>sx_model := Some (g\<lparr>gm_model := m\<rparr>), sx_offloaded_model_path := Some model_path\<rparr>, disk))))))"

text \<open>\<open>Path::join\<close>.\<close>

definition path_join :: "string \<Rightarrow> string \<Rightarrow> string" where
  "path_join dir name = (if prefix ''/'' name then name else dir @ ''/'' @ name)"

definition offload_save ::
  "('t, 'q, 'w, 'c, 'e, 'k, 'f) ml_env \<Rightarrow> ('t, 'q, 'w, 'c, 'k) MlContext \<Rightarrow> string \<Rightarrow> disk \<Rightarrow>
   ('e ml_error + unit) \<times> ('t, 'q, 'w, 'c, 'k) MlContext \<times> disk" where
  "offload_save E s file_id disk =
     (let file_path = path_join (me_kvcache_dir E) file_id in
      case rbind (case sx_offloaded_kv s of
                    Some kvs \<Rightarrow> Inr kvs
                  | None \<Rightarrow>
                      rbind (ok_or Me_No_Model (sx_model s)) (\<lambda>g.
                      rbind (map_err Me_Kv (extract_kv_cache (me_lib E) (gm_model g))) (\<lambda>kvs_raw.
                      map_err Me_To_Device (move_kvs E Dev_Cpu kvs_raw)))) (\<lambda>kvs.
           rbind (ok_or Me_No_Path (sx_offloaded_model_path s)) (\<lambda>model_path.
           rbind (map_err Me_File (serialize_kv_to_file (me_lib E) (me_to_vec1 E)
             \<lparr>kv_model_path = model_path, kv_start = sx_offloaded_layer_start s, kv_end = sx_offloaded_layer_end s,
              kv_rng_state = sx_rng_state s, kv_offset = sx_offset s, kv_eos_token_id = sx_eos_token_id s,
              kv_chat_template = sx_chat_template s\<rparr> kvs)) (\<lambda>buf.
           if me_writable E file_path then Inr (kvs, buf) else Inl Me_Write))) of
        Inl e \<Rightarrow> (Inl e, s, disk)
      | Inr (kvs, buf) \<Rightarrow>
          (Inr (), if sx_model s \<noteq> None then s\<lparr>sx_model := None, sx_offloaded_kv := Some kvs\<rparr> else s,
           AList.update file_path buf disk))"

definition offload_load ::
  "('t, 'q, 'w, 'c, 'e, 'k, 'f) ml_env \<Rightarrow> string \<Rightarrow> string \<Rightarrow> disk \<Rightarrow>
   ('e ml_error + ('t, 'q, 'w, 'c, 'k) MlContext) \<times> disk" where
  "offload_load E file_id device_str disk =
     (case rbind (ok_or Me_Read (map_of disk (path_join (me_kvcache_dir E) file_id))) (\<lambda>data.
           rbind (map_err Me_File (deserialize_kv_from_file (me_from_vec E) data)) (\<lambda>(kvs, h).
           rbind (map_err Me_Device (Parse_Device_Str (me_has_cuda E) device_str)) (\<lambda>dev.
           Inr (kvs, h, dev)))) of
        Inl e \<Rightarrow> (Inl e, disk)
      | Inr (kvs, h, dev) \<Rightarrow>
          (case env_load E (kv_start h) (kv_end h) (kv_model_path h) dev disk of
             (Inl e, disk) \<Rightarrow> (Inl (Me_Load e), disk)
           | (Inr g, disk) \<Rightarrow>
               (case rbind (map_err Me_To_Device (move_kvs E dev kvs)) (\<lambda>kvs_device.
                     (case restore_kv_cache (me_lib E) (gm_model g) kvs_device of
                        (Inl e, _) \<Rightarrow> Inl (Me_Kv e) | (Inr _, m) \<Rightarrow> Inr m)) of
                  Inl e \<Rightarrow> (Inl e, disk)
                | Inr m \<Rightarrow>
                    (Inr \<lparr>sx_model = Some (g\<lparr>gm_model := m\<rparr>), sx_tokenizer = None, sx_offset = kv_offset h,
                          sx_rng_state = kv_rng_state h, sx_eos_token_id = kv_eos_token_id h,
                          sx_chat_template = kv_chat_template h, sx_device = dev, sx_offloaded_kv = None,
                          sx_offloaded_model_path = None, sx_offloaded_layer_start = 0, sx_offloaded_layer_end = 0\<rparr>, disk))))"

section \<open>Fresh caches\<close>

definition attn_of :: "('t, 'q, 'w, 'c) AnyModel \<Rightarrow> ('t, 'w, 'c) Attention_Weights list" where
  "attn_of m = (case m of Qwen3 k \<Rightarrow> map ly_self_attn (mw_layers k) | Qwen3Moe k \<Rightarrow> map qm_self_attn (mw_layers k))"

lemma attention_from_fresh: "attention_from L tensors h k d eps rot pre = Inr (a, ts) \<Longrightarrow> at_kv_cache a = tl_kv_new L 2"
  by (auto simp: attention_from_def rbind_eq_Inr split: if_splits)

lemma layers_fresh:
  "Layer_From_Extracted L tensors h k d eps rot i = Inr ly \<Longrightarrow> at_kv_cache (ly_self_attn ly) = tl_kv_new L 2"
  "MoE_Layer_From_Extracted L ctx tensors h k d eps rot i b cfg dt = Inr ly' \<Longrightarrow> at_kv_cache (qm_self_attn ly') = tl_kv_new L 2"
  by (auto simp: Layer_From_Extracted_def MoE_Layer_From_Extracted_def Let_def rbind_eq_Inr dest: attention_from_fresh)

lemma assemble_fresh:
  assumes "assemble cd L c load info dev dt build s e = Inr m"
  shows "\<forall>ly \<in> set (mw_layers m). \<exists>i tensors. build i tensors = Inr ly"
proof
  fix ly assume ly: "ly \<in> set (mw_layers m)"
  from assms obtain blks where "load_blocks (load_block cd c load build) blks = Inr (mw_layers m)"
    by (auto simp: assemble_def rbind_eq_Inr From_Dynamic_def simp del: upt_Suc)
  then have "\<exists>i. load_block cd c load build i = Inr ly"
    using ly unfolding load_blocks_Inr by (auto simp: list_all2_conv_all_nth in_set_conv_nth)
  then show "\<exists>i tensors. build i tensors = Inr ly"
    by (auto simp: load_block_def rbind_eq_Inr Let_def split: sum.splits)
qed

lemma load_any_fresh:
  assumes "load_any cd L ctx c load dev s e = Inr m"
  shows "\<forall>a \<in> set (attn_of m). at_kv_cache a = tl_kv_new L 2"
proof -
  have "\<forall>ly \<in> set (mw_layers k). at_kv_cache (ly_self_attn ly) = tl_kv_new L 2" if "m = Qwen3 k" for k
    using assms that
    by (auto simp: load_any_def Let_def rbind_eq_Inr split: if_splits dest!: assemble_fresh dest: layers_fresh)
  moreover have "\<forall>ly \<in> set (mw_layers k). at_kv_cache (qm_self_attn ly) = tl_kv_new L 2" if "m = Qwen3Moe k" for k
    using assms that
    by (auto simp: load_any_def Let_def rbind_eq_Inr split: if_splits dest!: assemble_fresh dest: layers_fresh)
  ultimately show ?thesis by (cases m) (auto simp: attn_of_def)
qed

lemma env_load_fresh:
  assumes "env_load E start stop path dev disk = (Inr g, disk')"
  shows "\<forall>a \<in> set (attn_of (gm_model g)). at_kv_cache a = tl_kv_new (me_lib E) 2"
proof -
  from assms obtain c load where "load_any (me_candle E) (me_lib E) (me_ctx E) c load dev start stop = Inr (gm_model g)"
    by (auto simp: env_load_def GGUF_Load_Model_def load_content_def Let_def rbind_eq_Inr split: sum.splits prod.splits)
  then show ?thesis by (rule load_any_fresh)
qed

text \<open>Two models that differ in their caches only.\<close>

definition set_caches :: "'c \<Rightarrow> ('t, 'q, 'w, 'c) AnyModel \<Rightarrow> ('t, 'q, 'w, 'c) AnyModel" where
  "set_caches c m =
     (case m of
        Qwen3 k \<Rightarrow> Qwen3 (k\<lparr>mw_layers := map (\<lambda>ly. ly\<lparr>ly_self_attn := (ly_self_attn ly)\<lparr>at_kv_cache := c\<rparr>\<rparr>) (mw_layers k)\<rparr>)
      | Qwen3Moe k \<Rightarrow> Qwen3Moe (k\<lparr>mw_layers := map (\<lambda>ly. ly\<lparr>qm_self_attn := (qm_self_attn ly)\<lparr>at_kv_cache := c\<rparr>\<rparr>) (mw_layers k)\<rparr>))"

definition same_weights :: "('t, 'q, 'w, 'c) AnyModel \<Rightarrow> ('t, 'q, 'w, 'c) AnyModel \<Rightarrow> bool" where
  "same_weights m m' \<longleftrightarrow> (\<forall>c. set_caches c m = set_caches c m')"

text \<open>What the code relies on: appending to an empty cache stores the tensors, and moving a tensor to
  the CPU and back gives the tensor.\<close>

definition fresh_append :: "('t, 'q, 'w, 'c, 'e) tensor_lib \<Rightarrow> bool" where
  "fresh_append L \<longleftrightarrow>
     (\<forall>k v. \<exists>r cache. tl_kv_append L (tl_kv_new L 2) k v = (Inr r, cache) \<and> tl_kv_k L cache = Some k \<and> tl_kv_v L cache = Some v)"

definition moves_back :: "('t, 'q, 'w, 'c, 'e, 'k, 'f) ml_env \<Rightarrow> device \<Rightarrow> bool" where
  "moves_back E dev \<longleftrightarrow> (\<forall>t t'. me_to_device E t Dev_Cpu = Inr t' \<longrightarrow> me_to_device E t' dev = Inr t)"

lemma move_kvs_back:
  "moves_back E dev \<Longrightarrow> move_kvs E Dev_Cpu kvs = Inr kvs' \<Longrightarrow> move_kvs E dev kvs' = Inr kvs"
  by (induction kvs arbitrary: kvs') (auto simp: moves_back_def rbind_eq_Inr)

lemma restore_fresh:
  assumes law: "fresh_append L" and gp: "\<And>a ly. get (put a ly) = a" "\<And>a b ly. put a (put b ly) = put a ly"
  shows "length kvs = length lys \<Longrightarrow> \<forall>ly \<in> set lys. at_kv_cache (get ly) = tl_kv_new L 2 \<Longrightarrow>
    \<exists>lys'. restore_layers L get put lys kvs = (Inr (), lys') \<and> caches_of L (map get lys') = Inr kvs \<and>
      (\<forall>c. map (\<lambda>ly. put ((get ly)\<lparr>at_kv_cache := c\<rparr>) ly) lys' = map (\<lambda>ly. put ((get ly)\<lparr>at_kv_cache := c\<rparr>) ly) lys)"
proof (induction lys arbitrary: kvs)
  case (Cons ly lys)
  then obtain k v kvs' where kvs: "kvs = (k, v) # kvs'" by (cases kvs) auto
  from law obtain r cache where ap: "tl_kv_append L (at_kv_cache (get ly)) k v = (Inr r, cache)"
    "tl_kv_k L cache = Some k" "tl_kv_v L cache = Some v" using Cons.prems(2) by (fastforce simp: fresh_append_def)
  from Cons.IH [of kvs'] Cons.prems kvs obtain lys' where
    "restore_layers L get put lys kvs' = (Inr (), lys')" "caches_of L (map get lys') = Inr kvs'"
    "\<forall>c. map (\<lambda>ly. put ((get ly)\<lparr>at_kv_cache := c\<rparr>) ly) lys' = map (\<lambda>ly. put ((get ly)\<lparr>at_kv_cache := c\<rparr>) ly) lys" by auto
  then show ?case using ap by (simp add: kvs gp)
qed simp

lemma restore_model_fresh:
  assumes "fresh_append L" "\<And>a ly. get (put a ly) = a" "\<And>a b ly. put a (put b ly) = put a ly"
    and "length kvs = length (mw_layers m0)" "\<forall>ly \<in> set (mw_layers m0). at_kv_cache (get ly) = tl_kv_new L 2"
  shows "\<exists>m2. restore_model L get put m0 kvs = (Inr (), m2) \<and> caches_of L (map get (mw_layers m2)) = Inr kvs \<and>
    (\<forall>c. m2\<lparr>mw_layers := map (\<lambda>ly. put ((get ly)\<lparr>at_kv_cache := c\<rparr>) ly) (mw_layers m2)\<rparr> =
         m0\<lparr>mw_layers := map (\<lambda>ly. put ((get ly)\<lparr>at_kv_cache := c\<rparr>) ly) (mw_layers m0)\<rparr>)"
  using restore_fresh [OF assms] by (auto simp: restore_model_def assms(4))

lemma length_caches_of: "caches_of L as = Inr kvs \<Longrightarrow> length kvs = length as"
  by (induction "as" arbitrary: kvs) (auto simp: rbind_eq_Inr)

lemma same_weights_cases:
  assumes "same_weights m0 m"
  obtains k0 k where "m0 = Qwen3 k0" "m = Qwen3 k" "length (mw_layers k0) = length (mw_layers k)"
  | k0 k where "m0 = Qwen3Moe k0" "m = Qwen3Moe k" "length (mw_layers k0) = length (mw_layers k)"
proof -
  have "set_caches undefined m0 = set_caches undefined m" using assms by (simp add: same_weights_def)
  then show ?thesis
    using that by (cases m0; cases m) (auto simp: set_caches_def dest: arg_cong [where f = "\<lambda>k. length (mw_layers k)"])
qed

lemma restore_kv_fresh:
  assumes law: "fresh_append L" and new: "\<forall>a \<in> set (attn_of m0). at_kv_cache a = tl_kv_new L 2"
    and kvs: "extract_kv_cache L m = Inr kvs" and sw: "same_weights m0 m"
  shows "\<exists>m2. restore_kv_cache L m0 kvs = (Inr (), m2) \<and> same_weights m2 m \<and> extract_kv_cache L m2 = Inr kvs"
  using sw
proof (cases rule: same_weights_cases)
  case (1 k0 k)
  have c: "mw_layers k \<noteq> []" "caches_of L (map ly_self_attn (mw_layers k)) = Inr kvs"
    using kvs 1 by (simp_all add: extract_kv_cache_def extract_layers_def split: if_splits)
  have len: "length kvs = length (mw_layers k0)" and kvs_ne: "kvs \<noteq> []"
    using length_caches_of [OF c(2)] c(1) 1 by auto
  then obtain m2 where m2: "restore_model L ly_self_attn (\<lambda>a ly. ly\<lparr>ly_self_attn := a\<rparr>) k0 kvs = (Inr (), m2)"
    "caches_of L (map ly_self_attn (mw_layers m2)) = Inr kvs"
    "\<forall>c. set_caches c (Qwen3 m2) = set_caches c m0"
    using restore_model_fresh [OF law, of ly_self_attn "\<lambda>a ly. ly\<lparr>ly_self_attn := a\<rparr>" kvs k0] new 1
    by (auto simp: set_caches_def attn_of_def)
  have "mw_layers m2 \<noteq> []" using length_caches_of [OF m2(2)] kvs_ne by auto
  then have "extract_kv_cache L (Qwen3 m2) = Inr kvs" using m2(2) by (simp add: extract_kv_cache_def extract_layers_def)
  moreover have "same_weights (Qwen3 m2) m" using m2(3) sw by (simp add: same_weights_def)
  moreover have "restore_kv_cache L m0 kvs = (Inr (), Qwen3 m2)" using m2(1) 1 by (simp add: restore_kv_cache_def)
  ultimately show ?thesis by blast
next
  case (2 k0 k)
  have c: "mw_layers k \<noteq> []" "caches_of L (map qm_self_attn (mw_layers k)) = Inr kvs"
    using kvs 2 by (simp_all add: extract_kv_cache_def extract_layers_def split: if_splits)
  have len: "length kvs = length (mw_layers k0)" and kvs_ne: "kvs \<noteq> []"
    using length_caches_of [OF c(2)] c(1) 2 by auto
  then obtain m2 where m2: "restore_model L qm_self_attn (\<lambda>a ly. ly\<lparr>qm_self_attn := a\<rparr>) k0 kvs = (Inr (), m2)"
    "caches_of L (map qm_self_attn (mw_layers m2)) = Inr kvs"
    "\<forall>c. set_caches c (Qwen3Moe m2) = set_caches c m0"
    using restore_model_fresh [OF law, of qm_self_attn "\<lambda>a ly. ly\<lparr>qm_self_attn := a\<rparr>" kvs k0] new 2
    by (auto simp: set_caches_def attn_of_def)
  have "mw_layers m2 \<noteq> []" using length_caches_of [OF m2(2)] kvs_ne by auto
  then have "extract_kv_cache L (Qwen3Moe m2) = Inr kvs" using m2(2) by (simp add: extract_kv_cache_def extract_layers_def)
  moreover have "same_weights (Qwen3Moe m2) m" using m2(3) sw by (simp add: same_weights_def)
  moreover have "restore_kv_cache L m0 kvs = (Inr (), Qwen3Moe m2)" using m2(1) 2 by (simp add: restore_kv_cache_def)
  ultimately show ?thesis by blast
qed

section \<open>Forward passes change the caches only\<close>

lemma block_keeps_weights:
  "residual_block L ln1 a ln2 ffn x msk off = (r, a') \<Longrightarrow> \<exists>c. a' = a\<lparr>at_kv_cache := c\<rparr>"
  by (auto simp: residual_block_def Attention_Forward_def split: sum.splits prod.splits intro: exI [of _ "at_kv_cache a"])

lemma layers_keep_weights:
  "Layer_Forward L ly x msk off = (r, ly') \<Longrightarrow> ly'\<lparr>ly_self_attn := (ly_self_attn ly')\<lparr>at_kv_cache := c\<rparr>\<rparr> = ly\<lparr>ly_self_attn := (ly_self_attn ly)\<lparr>at_kv_cache := c\<rparr>\<rparr>"
  "MoE_Layer_Forward L my x msk off p = (r, my') \<Longrightarrow> my'\<lparr>qm_self_attn := (qm_self_attn my')\<lparr>at_kv_cache := c\<rparr>\<rparr> = my\<lparr>qm_self_attn := (qm_self_attn my)\<lparr>at_kv_cache := c\<rparr>\<rparr>"
  by (auto simp: Layer_Forward_def MoE_Layer_Forward_def dest!: block_keeps_weights split: prod.splits)

lemma run_layers_keep:
  assumes "\<And>ly x r ly'. f ly x = (r, ly') \<Longrightarrow> w ly' = w ly"
  shows "run_layers f lys h = (r, lys') \<Longrightarrow> map w lys' = map w lys"
proof (induction lys arbitrary: h r lys')
  case (Cons ly lys)
  obtain q ly1 where f: "f ly h = (q, ly1)" by force
  show ?case
  proof (cases q)
    case (Inr h')
    obtain r1 lys1 where r: "run_layers f lys h' = (r1, lys1)" by force
    show ?thesis using Cons.prems Cons.IH [OF r] assms [OF f] by (auto simp: f Inr r)
  qed (use Cons.prems assms [OF f] f in auto)
qed simp

lemma any_forward_weights: "AnyModel_Forward L m x off = (r, m') \<Longrightarrow> same_weights m' m"
proof (cases m)
  case (Qwen3 k)
  assume "AnyModel_Forward L m x off = (r, m')"
  then show ?thesis using run_layers_keep [OF layers_keep_weights(1)]
    by (fastforce simp: AnyModel_Forward_def Qwen3 Model_Forward_def Forward_with_def same_weights_def set_caches_def
        split: prod.splits sum.splits)
next
  case (Qwen3Moe k)
  assume "AnyModel_Forward L m x off = (r, m')"
  then show ?thesis using run_layers_keep [OF layers_keep_weights(2)]
    by (fastforce simp: AnyModel_Forward_def Qwen3Moe Qwen3MoE_Forward_def Forward_with_def same_weights_def set_caches_def
        split: prod.splits sum.splits)
qed

lemma same_weights_sym: "same_weights m m' \<Longrightarrow> same_weights m' m"
  by (simp add: same_weights_def)

lemma same_weights_trans: "same_weights m m' \<Longrightarrow> same_weights m' m'' \<Longrightarrow> same_weights m m''"
  by (simp add: same_weights_def)

lemma same_weights_refl [simp]: "same_weights m m"
  by (simp add: same_weights_def)

fun ml_forwards ::
  "('t, 'q, 'w, 'c, 'e, 'k, 'f) ml_env \<Rightarrow> ('t, 'q, 'w, 'c, 'k) MlContext \<Rightarrow> ('t \<times> nat option) list \<Rightarrow> ('t, 'q, 'w, 'c, 'k) MlContext" where
  "ml_forwards E s [] = s"
| "ml_forwards E s ((x, offset) # xs) = ml_forwards E (snd (ml_forward E s x offset)) xs"

lemma ml_forward_keeps:
  assumes "ml_forward E s x off = (r, s')" "sx_model s = Some g"
  shows "\<exists>m n. s' = s\<lparr>sx_model := Some (g\<lparr>gm_model := m\<rparr>), sx_offset := n\<rparr> \<and> same_weights m (gm_model g)"
proof -
  obtain q m where f: "AnyModel_Forward (me_lib E) (gm_model g) x (unwrap_or (sx_offset s) off) = (q, m)" by force
  have "\<exists>n. s' = s\<lparr>sx_model := Some (g\<lparr>gm_model := m\<rparr>), sx_offset := n\<rparr>"
    using assms f
    by (auto simp: ml_forward_def GGUF_Model_Inference_def Let_def split: sum.splits if_splits
        intro: exI [of _ "sx_offset s"] cong: if_cong)
  then show ?thesis using any_forward_weights [OF f] by blast
qed

lemma ml_forwards_keep:
  "sx_model s = Some g \<Longrightarrow>
    \<exists>m n. ml_forwards E s xs = s\<lparr>sx_model := Some (g\<lparr>gm_model := m\<rparr>), sx_offset := n\<rparr> \<and> same_weights m (gm_model g)"
proof (induction xs arbitrary: s g)
  case Nil
  have "s = s\<lparr>sx_model := Some (g\<lparr>gm_model := gm_model g\<rparr>), sx_offset := sx_offset s\<rparr>" using Nil by simp
  then show ?case by (metis ml_forwards.simps(1) same_weights_refl)
next
  case (Cons y xs)
  obtain x off where y: "y = (x, off)" by force
  obtain r s1 where s1: "ml_forward E s x off = (r, s1)" by force
  obtain m n where m: "s1 = s\<lparr>sx_model := Some (g\<lparr>gm_model := m\<rparr>), sx_offset := n\<rparr>" "same_weights m (gm_model g)"
    using ml_forward_keeps [OF s1 Cons.prems] by blast
  from Cons.IH [of s1 "g\<lparr>gm_model := m\<rparr>"] m(1) obtain m' n' where
    "ml_forwards E s1 xs = s1\<lparr>sx_model := Some (g\<lparr>gm_model := m'\<rparr>), sx_offset := n'\<rparr>" "same_weights m' m" by auto
  then show ?case using m by (auto simp: y s1 intro: same_weights_trans)
qed

section \<open>Offloading and coming back\<close>

lemma offload_to_cpu_ok:
  assumes "offload_to_cpu E s = (Inr (), s')"
  obtains g kvs kvs_cpu where "sx_model s = Some g" "extract_kv_cache (me_lib E) (gm_model g) = Inr kvs"
    "move_kvs E Dev_Cpu kvs = Inr kvs_cpu" "s' = s\<lparr>sx_model := None, sx_offloaded_kv := Some kvs_cpu\<rparr>"
  using assms
  by (auto simp: offload_to_cpu_def ok_or_def rbind_eq_Inr map_err_def split: sum.splits option.splits if_splits)


text \<open>The caches are lost when the model cannot be loaded again: the session is left with neither.\<close>

lemma failed_return_loses_caches:
  assumes "sx_model s = None" "sx_offloaded_kv s = Some kvs" "sx_offloaded_model_path s = Some path"
    and "env_load E (sx_offloaded_layer_start s) (sx_offloaded_layer_end s) path (sx_device s) disk = (Inl e, disk')"
  shows "offload_to_cuda E s disk = (Inl (Me_Load e), s\<lparr>sx_offloaded_kv := None\<rparr>, disk') \<and>
    offload_to_cuda E (s\<lparr>sx_offloaded_kv := None\<rparr>) disk'' = (Inl Me_No_Offloaded_Kv, s\<lparr>sx_offloaded_kv := None\<rparr>, disk'')"
  using assms by (simp add: offload_to_cuda_def Let_def)

section \<open>Sessions over time\<close>

text \<open>One call of a script on its session, with the files it runs on.\<close>

inductive ml_step ::
  "('t, 'q, 'w, 'c, 'e, 'k, 'f) ml_env \<Rightarrow> ('t, 'q, 'w, 'c, 'k) MlContext \<times> disk \<Rightarrow> ('t, 'q, 'w, 'c, 'k) MlContext \<times> disk \<Rightarrow> bool"
  for E where
  st_load: "ml_load_model E s path start stop d = (r, s', d') \<Longrightarrow> ml_step E (s, d) (s', d')"
| st_tokenizer: "ml_load_tokenizer E s path d = (r, s') \<Longrightarrow> ml_step E (s, d) (s', d)"
| st_unload: "ml_step E (s, d) (ml_unload s, d)"
| st_forward: "ml_forward E s x off = (r, s') \<Longrightarrow> ml_step E (s, d) (s', d)"
| st_sample: "ml_sample E s x temp = (r, s') \<Longrightarrow> ml_step E (s, d) (s', d)"
| st_seed: "ml_step E (s, d) (set_seed s seed, d)"
| st_reset: "ml_step E (s, d) (reset_kv_cache E s, d)"
| st_cpu: "offload_to_cpu E s = (r, s') \<Longrightarrow> ml_step E (s, d) (s', d)"
| st_cuda: "offload_to_cuda E s d = (r, s', d') \<Longrightarrow> ml_step E (s, d) (s', d')"
| st_save: "offload_save E s name d = (r, s', d') \<Longrightarrow> ml_step E (s, d) (s', d')"
| st_files: "ml_step E (s, d) (s, d')"

definition path_known :: "('t, 'q, 'w, 'c, 'k) MlContext \<Rightarrow> bool" where
  "path_known s \<longleftrightarrow> sx_model s \<noteq> None \<or> sx_offloaded_kv s \<noteq> None \<longrightarrow> sx_offloaded_model_path s \<noteq> None"

lemma forward_path_known: "ml_forward E s x off = (r, s') \<Longrightarrow> path_known s \<Longrightarrow> path_known s'"
proof (cases "sx_model s")
  case (Some g)
  assume "ml_forward E s x off = (r, s')" "path_known s"
  then show ?thesis using Some by (auto simp: path_known_def dest: ml_forward_keeps)
qed (auto simp: path_known_def ml_forward_def)

lemma sample_path_known: "ml_sample E s x t = (r, s') \<Longrightarrow> path_known s \<Longrightarrow> path_known s'"
  by (auto simp: path_known_def ml_sample_def Let_def split: sum.splits if_splits)

lemma cuda_path_known: "offload_to_cuda E s d = (r, s', d') \<Longrightarrow> path_known s \<Longrightarrow> path_known s'"
  by (auto simp: path_known_def offload_to_cuda_def Let_def split: sum.splits if_splits option.splits prod.splits)

lemma save_path_known: "offload_save E s name d = (r, s', d') \<Longrightarrow> path_known s \<Longrightarrow> path_known s'"
  by (auto simp: path_known_def offload_save_def Let_def split: sum.splits if_splits)

lemma ml_step_path_known: "ml_step E c c' \<Longrightarrow> path_known (fst c) \<Longrightarrow> path_known (fst c')"
proof (induction rule: ml_step.induct)
  case (st_load s path start stop d r s' d')
  then show ?case by (auto simp: path_known_def ml_load_model_def split: sum.splits prod.splits)
next
  case (st_tokenizer s path d r s')
  then show ?case by (auto simp: path_known_def ml_load_tokenizer_def split: sum.splits prod.splits)
next
  case (st_cpu s r s' d)
  then show ?case
    by (cases "sx_model s") (auto simp: path_known_def offload_to_cpu_def split: sum.splits)
qed (auto simp: path_known_def ml_unload_def set_seed_def reset_kv_cache_def
    dest: forward_path_known sample_path_known cuda_path_known save_path_known)


text \<open>A session resumed from a file has no model path: its caches cannot be moved out again.\<close>

lemma resumed_session_stuck:
  assumes "offload_load E name dev d = (Inr s, d')"
  shows "sx_model s \<noteq> None \<and> \<not> path_known s \<and> offload_to_cpu E s = (Inl Me_No_Path, s)"
  using assms
  by (auto simp: offload_load_def path_known_def offload_to_cpu_def split: sum.splits prod.splits)

text \<open>Loading another model keeps the offloaded caches of the one before: saving then writes the old
  caches under the new model's path and range.\<close>

lemma stale_caches_saved:
  assumes "sx_offloaded_kv s = Some kvs" "ml_load_model E s path start stop d = (Inr (), s', d')"
    and "serialize_kv_to_file (me_lib E) (me_to_vec1 E)
      \<lparr>kv_model_path = path, kv_start = start, kv_end = stop, kv_rng_state = sx_rng_state s, kv_offset = 0,
       kv_eos_token_id = sx_eos_token_id s, kv_chat_template = sx_chat_template s\<rparr> kvs = Inr buf"
    and "me_writable E (path_join (me_kvcache_dir E) name)"
  shows "offload_save E s' name d' = (Inr (), s'\<lparr>sx_model := None\<rparr>, AList.update (path_join (me_kvcache_dir E) name) buf d')"
  using assms by (auto simp: ml_load_model_def offload_save_def split: sum.splits prod.splits)

section \<open>Sampling\<close>

text \<open>The running sums of the loop.\<close>

definition mass :: "('t, 'q, 'w, 'c, 'e, 'k, 'f) ml_env \<Rightarrow> u32 list \<Rightarrow> 'f" where
  "mass E ps = foldl (me_add E) (me_zero E) ps"

lemma mass_Nil [simp]: "mass E [] = me_zero E"
  by (simp add: mass_def)

lemma pick_token_first:
  assumes "length qs = i"
  shows "\<exists>j \<le> length ps. (\<forall>l < j. \<not> me_gt E (mass E (qs @ take (Suc l) ps)) random) \<and>
    (if j < length ps then me_gt E (mass E (qs @ take (Suc j) ps)) random \<and> pick_token E random i (mass E qs) c ps = of_nat (i + j)
     else pick_token E random i (mass E qs) c ps = c)"
  using assms
proof (induction ps arbitrary: qs i)
  case (Cons p ps)
  have m: "mass E (qs @ [p]) = me_add E (mass E qs) p" by (simp add: mass_def)
  show ?case
  proof (cases "me_gt E (mass E (qs @ [p])) random")
    case True
    then show ?thesis by (intro exI [of _ 0]) (simp add: m)
  next
    case False
    from Cons.IH [of "qs @ [p]" "Suc i"] Cons.prems obtain j where j: "j \<le> length ps"
      "\<forall>l < j. \<not> me_gt E (mass E (qs @ p # take (Suc l) ps)) random"
      "if j < length ps then me_gt E (mass E (qs @ p # take (Suc j) ps)) random \<and>
         pick_token E random (Suc i) (mass E (qs @ [p])) c ps = of_nat (Suc i + j)
       else pick_token E random (Suc i) (mass E (qs @ [p])) c ps = c" by (auto cong: if_cong)
    have "\<forall>l < Suc j. \<not> me_gt E (mass E (qs @ take (Suc l) (p # ps))) random"
      using j(2) False by (auto simp: less_Suc_eq_0_disj)
    moreover have "pick_token E random i (mass E qs) c (p # ps) = pick_token E random (Suc i) (mass E (qs @ [p])) c ps"
      using False by (simp add: m)
    ultimately show ?thesis using j(1,3) by (intro exI [of _ "Suc j"]) simp
  qed
qed simp

text \<open>The token drawn is the first whose running sum exceeds the random number, or the last token when
  none does; it is always a token of the vocabulary, and the random state advances by one step.\<close>

definition draw :: "('t, 'q, 'w, 'c, 'e, 'k, 'f) ml_env \<Rightarrow> ('t, 'q, 'w, 'c, 'k) MlContext \<Rightarrow> 'f" where
  "draw E s = me_ratio E (unat (drop_bit 33 (next_rng (sx_rng_state s)))) 4294967295"

lemma ml_sample_draws:
  assumes "extract_last_logits E logits = Inr t" "\<not> me_le_zero E temp"
    and "rbind (me_scale_down E t temp) (\<lambda>u. rbind (me_softmax E u) (me_to_vec1 E)) = Inr probs"
    and "probs \<noteq> []" "length probs < 2 ^ 32"
  shows "\<exists>j < length probs. ml_sample E s logits temp = (Inr (of_nat j), s\<lparr>sx_rng_state := next_rng (sx_rng_state s)\<rparr>) \<and>
    (\<forall>l < j. \<not> me_gt E (mass E (take (Suc l) probs)) (draw E s)) \<and>
    (me_gt E (mass E (take (Suc j) probs)) (draw E s) \<or> Suc j = length probs)"
proof -
  let ?c = "of_nat (length probs - 1) :: u32"
  obtain j where j: "j \<le> length probs" "\<forall>l < j. \<not> me_gt E (mass E (take (Suc l) probs)) (draw E s)"
    "if j < length probs then me_gt E (mass E (take (Suc j) probs)) (draw E s) \<and> pick_token E (draw E s) 0 (me_zero E) ?c probs = of_nat j
     else pick_token E (draw E s) 0 (me_zero E) ?c probs = ?c"
    using pick_token_first [of "[]" 0 probs E "draw E s" ?c] by (auto simp: mass_Nil cong: if_cong)
  have s: "ml_sample E s logits temp =
      (Inr (pick_token E (draw E s) 0 (me_zero E) ?c probs), s\<lparr>sx_rng_state := next_rng (sx_rng_state s)\<rparr>)"
    using assms by (simp add: ml_sample_def draw_def Let_def)
  show ?thesis
  proof (cases "j < length probs")
    case True
    then show ?thesis using j s by auto
  next
    case False
    then show ?thesis using j s assms(4)
      by (intro exI [of _ "length probs - 1"]) (auto simp: Suc_diff_Suc)
  qed
qed

text \<open>Exact arithmetic, with \<open>val\<close> the value of an \<open>f32\<close>.\<close>

definition exact_arith :: "('t, 'q, 'w, 'c, 'e, 'k, rat) ml_env \<Rightarrow> (u32 \<Rightarrow> rat) \<Rightarrow> bool" where
  "exact_arith E val \<longleftrightarrow> me_zero E = 0 \<and> (\<forall>f p. me_add E f p = f + val p) \<and> (\<forall>f g. me_gt E f g = (f > g)) \<and>
     (\<forall>a b. me_ratio E a b = of_nat a / of_nat b) \<and> (\<forall>p. val p \<ge> 0)"

lemma mass_exact: "exact_arith E val \<Longrightarrow> mass E ps = sum_list (map val ps)"
  by (induction ps rule: rev_induct) (auto simp: exact_arith_def mass_def)

lemma drop_33: "unat (drop_bit 33 (w :: u64)) < 2147483648"
proof -
  have "unat (drop_bit 33 w) = unat w div 2 ^ 33" unfolding unat_drop_bit_eq by (simp add: drop_bit_eq_div)
  moreover have "unat w < 2 ^ 64" by (rule order.strict_trans2 [OF unsigned_less]) simp
  ultimately show ?thesis by (simp add: less_mult_imp_div_less)
qed

lemma draw_below_half: "exact_arith E val \<Longrightarrow> draw E s < 1 / 2"
proof -
  assume e: "exact_arith E val"
  have "unat (drop_bit 33 (next_rng (sx_rng_state s))) \<le> 2147483647"
    using drop_33 [of "next_rng (sx_rng_state s)"] by simp
  then have "(of_nat (unat (drop_bit 33 (next_rng (sx_rng_state s)))) :: rat) \<le> of_nat 2147483647"
    unfolding of_nat_le_iff .
  then show ?thesis using e by (simp add: draw_def exact_arith_def field_simps)
qed

text \<open>The random number is built from 31 bits and divided by the largest 32-bit number. In exact arithmetic
  it is therefore less than one half, and so is the probability mass before the token that is drawn:
  a token that the first half of the distribution precedes is never drawn.
\<close>

theorem upper_half_never_sampled:
  assumes "exact_arith E val" "extract_last_logits E logits = Inr t" "\<not> me_le_zero E temp"
    and "rbind (me_scale_down E t temp) (\<lambda>u. rbind (me_softmax E u) (me_to_vec1 E)) = Inr probs"
    and "probs \<noteq> []" "length probs < 2 ^ 32"
  shows "\<exists>j < length probs. fst (ml_sample E s logits temp) = Inr (of_nat j) \<and> sum_list (map val (take j probs)) < 1 / 2"
proof -
  obtain j where j: "j < length probs" "ml_sample E s logits temp = (Inr (of_nat j), s\<lparr>sx_rng_state := next_rng (sx_rng_state s)\<rparr>)"
    "\<forall>l < j. \<not> me_gt E (mass E (take (Suc l) probs)) (draw E s)"
    using ml_sample_draws [OF assms(2-6)] by blast
  have "sum_list (map val (take j probs)) < 1 / 2"
  proof (cases j)
    case (Suc l)
    then have "mass E (take j probs) \<le> draw E s" using j(3) assms(1) by (auto simp: exact_arith_def not_less)
    then show ?thesis using mass_exact [OF assms(1)] draw_below_half [OF assms(1), of s] by simp
  qed simp
  then show ?thesis using j by auto
qed

section \<open>A session on a small model\<close>

definition toy_prob :: "u32 \<Rightarrow> rat" where
  "toy_prob p = of_nat (unat p) / 4"

lemma toy_prob_nonneg: "toy_prob p \<ge> 0"
  unfolding toy_prob_def by (rule divide_nonneg_pos [OF of_nat_0_le_iff]) simp

definition toy_env :: "(toy_tensor, u32, u32, (toy_tensor \<times> toy_tensor) option, string, unit, rat) ml_env" where
  "toy_env = \<lparr>
     me_candle = demo_candle, me_lib = toy_lib, me_ctx = (\<lambda>_ e. e), me_read_content = (\<lambda>_. Some tiny_content),
     me_read_tensor = (\<lambda>_. tiny_load), me_hash = (\<lambda>_. 0), me_sched = (\<lambda>_. 0), me_truncated = [], me_has_cuda = (\<lambda>_. False),
     me_to_device = (\<lambda>t _. Inr t), me_synchronize = (\<lambda>_. Inr ()), me_tensor_new = (\<lambda>ts _. Inr ([length ts], 0)),
     me_unsqueeze = (\<lambda>t _. Inr (1 # fst t, snd t)), me_get = (\<lambda>t _. Inr (tl (fst t), snd t)), me_argmax = (\<lambda>_. Inr 0),
     me_scale_down = (\<lambda>t _. Inr t), me_softmax = Inr, me_to_vec1 = (\<lambda>t. Inr [1, 1, 2]),
     me_from_vec = (\<lambda>_ _. Inl ''none''), me_le_zero = (\<lambda>t. t = 0), me_zero = 0,
     me_add = (\<lambda>f p. f + toy_prob p), me_gt = (>), me_ratio = (\<lambda>a b. of_nat a / of_nat b),
     me_tokenizer = (\<lambda>_. Some ()), me_encode = (\<lambda>_ _. None), me_decode = (\<lambda>_ _. None), me_render = (\<lambda>_ _. None),
     me_kvcache_dir = ''kv'', me_writable = (\<lambda>_. True)\<rparr>"

definition toy_session :: "(toy_tensor, u32, u32, (toy_tensor \<times> toy_tensor) option, unit) MlContext" where
  "toy_session = \<lparr>sx_model = None, sx_tokenizer = None, sx_offset = 0, sx_rng_state = 5, sx_eos_token_id = DEFAULT_EOS,
     sx_chat_template = None, sx_device = Dev_Cpu, sx_offloaded_kv = None, sx_offloaded_model_path = None,
     sx_offloaded_layer_start = 0, sx_offloaded_layer_end = 0\<rparr>"

definition toy_disk :: disk where
  "toy_disk = [(''t.pgguf'', [])]"

lemma toy_laws: "fresh_append toy_lib" "moves_back toy_env Dev_Cpu" "exact_arith toy_env toy_prob"
  by (auto simp: fresh_append_def toy_lib_def moves_back_def toy_env_def exact_arith_def toy_prob_nonneg)

lemma toy_attention_caches:
  "\<exists>kv. at_kv_cache (snd (Attention_Forward toy_lib a ([b, l, n], v) msk off)) = Some kv"
  by (simp add: Attention_Forward_def dims3_def attn_qkv_def Rotary_Apply_def dims4_def toy_lib_def Let_def)

lemma toy_layer_caches: "\<exists>kv. at_kv_cache (ly_self_attn (snd (Layer_Forward toy_lib ly ([b, l, n], v) msk off))) = Some kv"
proof -
  have "tl_rmsnorm toy_lib w ([b, l, n], v) = Inr ([b, l, n], w + v)" for w by (simp add: toy_lib_def)
  then show ?thesis
    using toy_attention_caches [of "ly_self_attn ly" b l n "ly_ln1 ly + v" msk off]
    by (cases "Attention_Forward toy_lib (ly_self_attn ly) ([b, l, n], ly_ln1 ly + v) msk off")
      (simp add: Layer_Forward_def residual_block_def)
qed

lemma tiny_loaded:
  assumes "load_any demo_candle toy_lib (\<lambda>_ e. e) tiny_content tiny_load Dev_Cpu 0 2 = Inr m"
  obtains k table hidden ly where "m = Qwen3 k" "mw_layers k = [ly]" "mw_embed_tokens k = Some (table, hidden)"
proof -
  have n: "num_layers (GGUF_Analyze_From_Content demo_candle tiny_content) = 1" by (simp add: num_layers_block_count tiny_info)
  from assms obtain k build dt where k: "m = Qwen3 k"
    "assemble demo_candle toy_lib tiny_content tiny_load (GGUF_Analyze_From_Content demo_candle tiny_content) Dev_Cpu dt build 0 2 = Inr k"
    by (auto simp: load_any_def Let_def rbind_eq_Inr tiny_info ascii_lower_def check_range_def n numeral_2_eq_2 split: if_splits)
  then show ?thesis
    using that
    by (auto simp: assemble_def load_embedding_def rbind_eq_Inr From_Dynamic_def n upt_rec load_blocks_Inr list_all2_Cons1
        simp del: upt_Suc)
qed

lemma toy_convert:
  "\<exists>info. GGUF_Analyze_And_Convert demo_candle (\<lambda>_. Some tiny_content) h sc tr ''t.pgguf'' toy_disk = (Inr (info, ''t.pgguf''), toy_disk)"
proof -
  have b: "Parse_Bitmap_Hex ''7'' = Inr (replicate 32 0)" by code_simp
  have i: "Get_Metadata_Usize demo_candle (metadata tiny_content) ''pleiades.model_id'' = Some 7"
    "Get_Metadata_String demo_candle (metadata tiny_content) ''pleiades.layer_bitmap'' = Some ''7''"
    by (simp_all add: Get_Metadata_Usize_def Get_Metadata_String_def tiny_content_def demo_candle_def)
  show ?thesis by (auto simp: GGUF_Analyze_And_Convert_def toy_disk_def i b Let_def)
qed

lemma toy_load: "\<exists>g. env_load toy_env 0 2 ''t.pgguf'' Dev_Cpu toy_disk = (Inr g, toy_disk) \<and>
  load_any demo_candle toy_lib (\<lambda>_ e. e) tiny_content tiny_load Dev_Cpu 0 2 = Inr (gm_model g)"
proof -
  obtain m where m: "load_any demo_candle toy_lib (\<lambda>_ e. e) tiny_content tiny_load Dev_Cpu 0 2 = Inr m"
    using tiny_loads by blast
  obtain info where c: "GGUF_Analyze_And_Convert demo_candle (\<lambda>_. Some tiny_content) (\<lambda>_. 0) (\<lambda>_. 0) [] ''t.pgguf'' toy_disk
      = (Inr (info, ''t.pgguf''), toy_disk)" using toy_convert by blast
  have r: "resolve_path toy_disk ''t.pgguf'' = Inr ''t.pgguf''" "map_of toy_disk ''t.pgguf'' = Some []"
    by (simp_all add: resolve_path_def toy_disk_def)
  show ?thesis
    by (simp add: c r m env_load_def GGUF_Load_Model_def toy_env_def load_content_def Let_def)
qed

lemma toy_forward_caches:
  assumes "load_any demo_candle toy_lib (\<lambda>_ e. e) tiny_content tiny_load Dev_Cpu 0 2 = Inr m"
  shows "\<exists>kvs. extract_kv_cache toy_lib (snd (AnyModel_Forward toy_lib m ([1, 3], 7) 0)) = Inr kvs"
proof -
  obtain k table hidden ly where k: "m = Qwen3 k" "mw_layers k = [ly]" "mw_embed_tokens k = Some (table, hidden)"
    by (rule tiny_loaded [OF assms])
  define h where "h = ([1, 3, hidden], snd table + 7)"
  have e: "embed toy_lib k ([1, 3], 7) = Inr h" by (simp add: embed_def k toy_lib_def h_def)
  have "\<exists>msk. prepare toy_lib k 0 h = Inr (3, msk)"
    by (simp add: prepare_def tdim_def Causal_Mask_def toy_lib_def h_def)
  then obtain msk where p: "prepare toy_lib k 0 h = Inr (3, msk)" ..
  obtain r ly' where f: "Layer_Forward toy_lib ly h msk 0 = (r, ly')" by (rule prod.exhaust)
  obtain kk vv where "at_kv_cache (ly_self_attn ly') = Some (kk, vv)"
    using toy_layer_caches [of ly 1 3 hidden "snd table + 7" msk 0] f by (auto simp: h_def)
  moreover have "tl_kv_k toy_lib (Some (kk, vv)) = Some kk" "tl_kv_v toy_lib (Some (kk, vv)) = Some vv" by (simp_all add: toy_lib_def)
  moreover have "\<exists>r'. AnyModel_Forward toy_lib m ([1, 3], 7) 0 = (r', Qwen3 (k\<lparr>mw_layers := [ly']\<rparr>))"
    by (cases r) (simp_all add: k AnyModel_Forward_def Model_Forward_def Forward_with_def e p f del: One_nat_def)
  ultimately show ?thesis by (auto simp: extract_kv_cache_def extract_layers_def)
qed



theorem upper_half_never_sampled_witness:
  "\<exists>j < length [1, 1, 2 :: u32]. fst (ml_sample toy_env toy_session ([4], 0) 1) = Inr (of_nat j) \<and>
     sum_list (map toy_prob (take j [1, 1, 2])) < 1 / 2"
  by (rule upper_half_never_sampled [OF toy_laws(3), of "([4], 0)" "([4], 0)" 1])
    (simp_all add: toy_env_def extract_last_logits_def toy_lib_def)

end
