(* ===== verification/Script_Streams.thy ===== *)
theory Script_Streams
  imports Tensor_Protocol Rendezvous Model_Loading
begin

text \<open>
  The tensor streams scripts use: the functions of \<open>caps.network\<close> in \<open>Src/VM/capability_binding.rs\<close> and
  of \<open>local_tensor\<close> in \<open>Src/VM/local_stream.rs\<close>. A function that fails raises an error of the script; a
  stream is what is still to be read of it or what has been written to it. The last section puts the
  parts of a model on nodes that hand their tensors on over such streams, as the worker scripts do.
\<close>

section \<open>Functions of scripts\<close>

text \<open>The text before a cause is the one the binding adds.\<close>

datatype script_error =
    Se_Tensor tensor_error
  | Se_Io string io_error
  | Se_Eof
  | Se_Timeout string
  | Se_Panic

definition RECV_BUFFER :: nat where "RECV_BUFFER = 256 * 1024"

definition net_send_tensor :: "tensor \<Rightarrow> u64 \<Rightarrow> out_stream \<Rightarrow> script_error + out_stream" where
  "net_send_tensor t offset stream =
     rbind (map_err Se_Tensor (tensor_to_bytes t)) (\<lambda>bs.
     map_err (Se_Io ''send_tensor: '') (Send_Tensor_Frame offset bs stream))"

definition net_recv_tensor ::
  "(nat \<Rightarrow> bool) \<Rightarrow> (tensor_dtype \<Rightarrow> u64 list \<Rightarrow> u32 list \<Rightarrow> tensor option) \<Rightarrow> bytes \<Rightarrow> string \<Rightarrow>
   (script_error + (device \<times> tensor) \<times> u64) \<times> bytes" where
  "net_recv_tensor has_cuda from_vec stream dev =
     (case Receive_Tensor_Frame stream (Tensor_Buffer_New RECV_BUFFER) of
        (Inl e, _, stream) \<Rightarrow> (Inl (Se_Io ''recv_tensor: '' e), stream)
      | (Inr offset, buffer, stream) \<Rightarrow>
          (if offset = TENSOR_EOF_OFFSET then Inl Se_Eof
           else rbind (ok_or Se_Panic (As_Slice buffer)) (\<lambda>bs.
                rbind (map_err Se_Tensor (bytes_to_tensor_str has_cuda from_vec bs dev)) (\<lambda>t. Inr (t, offset))), stream))"

definition net_send_eof :: "out_stream \<Rightarrow> script_error + out_stream" where
  "net_send_eof stream = map_err (Se_Io ''send_eof: '') (Send_EOF stream)"

definition loc_send_tensor :: "tensor \<Rightarrow> u64 \<Rightarrow> out_stream \<Rightarrow> script_error + out_stream" where
  "loc_send_tensor t offset stream =
     rbind (map_err Se_Tensor (tensor_to_bytes t)) (\<lambda>bs.
     map_err (Se_Io ''send_tensor: '') (local_send_frame offset bs stream))"

text \<open>The local function does not look for the end marker.\<close>

definition loc_recv_tensor ::
  "(nat \<Rightarrow> bool) \<Rightarrow> (tensor_dtype \<Rightarrow> u64 list \<Rightarrow> u32 list \<Rightarrow> tensor option) \<Rightarrow> bytes \<Rightarrow> string \<Rightarrow>
   (script_error + (device \<times> tensor) \<times> u64) \<times> bytes" where
  "loc_recv_tensor has_cuda from_vec stream dev =
     (case local_recv_frame stream (Tensor_Buffer_New RECV_BUFFER) of
        (Inl e, _, stream) \<Rightarrow> (Inl (Se_Io ''recv_tensor: '' e), stream)
      | (Inr offset, buffer, stream) \<Rightarrow>
          (rbind (ok_or Se_Panic (As_Slice buffer)) (\<lambda>bs.
           rbind (map_err Se_Tensor (bytes_to_tensor_str has_cuda from_vec bs dev)) (\<lambda>t. Inr (t, offset))), stream))"

definition loc_send_eof :: "out_stream \<Rightarrow> script_error + out_stream" where
  "loc_send_eof stream = map_err (Se_Io ''send_eof: '') (local_send_eof stream)"

text \<open>\<open>open_stream\<close> makes a connected pair, keeps one end and leaves the other at the hub; \<open>others\<close> is what
  else happens at the hub between the polls of \<open>accept_stream\<close>, as many as its time allows.\<close>

definition loc_open_stream :: "string \<Rightarrow> 's \<times> 's \<Rightarrow> 's local_hub \<Rightarrow> 's \<times> 's local_hub" where
  "loc_open_stream name pair hub = (fst pair, lh_open name (snd pair) hub)"

definition loc_accept_stream ::
  "string \<Rightarrow> ('s local_hub \<Rightarrow> 's local_hub) list \<Rightarrow> 's local_hub \<Rightarrow> (script_error + 's) \<times> 's local_hub" where
  "loc_accept_stream name others hub =
     (case lh_accept name others hub of (r, hub) \<Rightarrow> (ok_or (Se_Timeout name) r, hub))"

section \<open>A tensor over a stream\<close>

text \<open>What a stream carries: 32-bit elements, as many as the shape says, below the size limit of a frame.
  The offset of the end marker cannot be an offset.\<close>

definition sendable :: "(tensor_dtype \<Rightarrow> u64 list \<Rightarrow> u32 list \<Rightarrow> tensor option) \<Rightarrow> tensor \<Rightarrow> bool" where
  "sendable from_vec t \<longleftrightarrow>
     tensor_wf t \<and> (tn_dtype t = Td_F32 \<or> tn_dtype t = Td_U32) \<and>
     9 + 8 * length (tn_dims t) + 4 * length (tn_data t) \<le> 536870912 \<and>
     from_vec (tn_dtype t) (tn_dims t) (tn_data t) = Some t"

lemma sendable_bytes:
  assumes "sendable from_vec t"
  obtains bs where "tensor_to_bytes t = Inr bs" "bytes_to_tensor from_vec bs = Inr t" "length bs \<le> 536870912" "bs \<noteq> []"
proof -
  define c :: u8 where "c = (if tn_dtype t = Td_F32 then 0 else 1)"
  let ?bs = "[c] @ u64_to_le (of_nat (length (tn_dims t))) @ concat (map u64_to_le (tn_dims t)) @ concat (map u32_to_le (tn_data t))"
  have wf: "tensor_wf t" using assms by (simp add: sendable_def)
  have c: "tn_dtype t = (if c = 0 then Td_F32 else Td_U32)" "c = 0 \<or> c = 1"
    using assms by (auto simp: c_def sendable_def)
  have "bytes_to_tensor from_vec ?bs = Inr t"
    using assms c by (subst bytes_to_tensor_parts) (simp_all add: sendable_def tensor_wf_def)
  moreover have "length ?bs \<le> 536870912" using assms by (simp add: sendable_def)
  ultimately show ?thesis using tensor_to_bytes_wf [OF wf c] by (intro that [of ?bs]) simp_all
qed

lemma recv_frame_bytes:
  assumes "tensor_ok (off, bs)"
  shows "\<exists>b. Receive_Tensor_Frame (tensor_frame (off, bs) @ s) b0 = (Inr off, b, s) \<and> As_Slice b = Some bs"
    and "\<exists>b. local_recv_frame (tensor_frame (off, bs) @ s) b0 = (Inr off, b, s) \<and> As_Slice b = Some bs"
proof -
  have 1: "frame_view Receive_Tensor_Frame b0 (tensor_frame (off, bs) @ s) = Inr ((off, bs), s)"
    using assms tensor_ok_local [OF assms]
    by (simp add: frame_view_Receive tensor_reader_frame tensor_ok_def MAX_TENSOR_SIZE_def)
  have 2: "frame_view local_recv_frame b0 (tensor_frame (off, bs) @ s) = Inr ((off, bs), s)"
    using tensor_ok_local [OF assms] by (simp add: frame_view_local tensor_reader_frame)
  obtain r b s' where R: "Receive_Tensor_Frame (tensor_frame (off, bs) @ s) b0 = (r, b, s')" by (metis prod_cases3)
  obtain r2 b2 s2 where L: "local_recv_frame (tensor_frame (off, bs) @ s) b0 = (r2, b2, s2)" by (metis prod_cases3)
  show "\<exists>b. Receive_Tensor_Frame (tensor_frame (off, bs) @ s) b0 = (Inr off, b, s) \<and> As_Slice b = Some bs"
    using 1 by (auto simp: frame_view_def R split: sum.splits option.splits)
  show "\<exists>b. local_recv_frame (tensor_frame (off, bs) @ s) b0 = (Inr off, b, s) \<and> As_Slice b = Some bs"
    using 2 by (auto simp: frame_view_def L split: sum.splits option.splits)
qed

text \<open>One send and the receive that meets it, on either kind of stream.\<close>

lemma tensor_hop:
  assumes "sendable from_vec t" "off \<noteq> TENSOR_EOF_OFFSET" "Parse_Device_Str has_cuda dev = Inr d"
  obtains bs where "net_send_tensor t off out = map_err (Se_Io ''send_tensor: '') (write_all bs out)"
    "loc_send_tensor t off out = map_err (Se_Io ''send_tensor: '') (write_all bs out)"
    "\<forall>s. net_recv_tensor has_cuda from_vec (bs @ s) dev = (Inr ((d, t), off), s)"
    "\<forall>s. loc_recv_tensor has_cuda from_vec (bs @ s) dev = (Inr ((d, t), off), s)"
proof -
  from assms(1) obtain bs where bs: "tensor_to_bytes t = Inr bs" "bytes_to_tensor from_vec bs = Inr t"
    "length bs \<le> 536870912" "bs \<noteq> []" by (rule sendable_bytes)
  have ok: "tensor_ok (off, bs)" using bs(3,4) assms(2) by (simp add: tensor_ok_def)
  have "net_recv_tensor has_cuda from_vec (tensor_frame (off, bs) @ s) dev = (Inr ((d, t), off), s)" for s
    using recv_frame_bytes(1) [OF ok, of s "Tensor_Buffer_New RECV_BUFFER"] assms(2,3) bs(2)
    by (auto simp: net_recv_tensor_def bytes_to_tensor_str_def)
  moreover have "loc_recv_tensor has_cuda from_vec (tensor_frame (off, bs) @ s) dev = (Inr ((d, t), off), s)" for s
    using recv_frame_bytes(2) [OF ok, of s "Tensor_Buffer_New RECV_BUFFER"] assms(3) bs(2)
    by (auto simp: loc_recv_tensor_def bytes_to_tensor_str_def)
  ultimately show ?thesis
    using that [of "tensor_frame (off, bs)"] bs(1)
    by (simp add: net_send_tensor_def loc_send_tensor_def Send_Tensor_Frame_eq local_send_frame_eq)
qed


section \<open>A session of tensors\<close>

fun send_tensors ::
  "(tensor \<Rightarrow> u64 \<Rightarrow> out_stream \<Rightarrow> script_error + out_stream) \<Rightarrow> (tensor \<times> u64) list \<Rightarrow> out_stream \<Rightarrow> script_error + out_stream" where
  "send_tensors send [] out = Inr out"
| "send_tensors send ((t, off) # ms) out = rbind (send t off out) (send_tensors send ms)"

fun recv_tensors ::
  "(bytes \<Rightarrow> (script_error + 'a) \<times> bytes) \<Rightarrow> nat \<Rightarrow> bytes \<Rightarrow> (script_error + 'a) list" where
  "recv_tensors recv 0 s = []"
| "recv_tensors recv (Suc n) s = (case recv s of (r, s') \<Rightarrow> r # recv_tensors recv n s')"

lemma recv_eof:
  "net_recv_tensor has_cuda from_vec (tensor_frame (TENSOR_EOF_OFFSET, []) @ s) dev = (Inl Se_Eof, s)"
  "Parse_Device_Str has_cuda dev = Inr d \<Longrightarrow>
   loc_recv_tensor has_cuda from_vec (tensor_frame (TENSOR_EOF_OFFSET, []) @ s) dev = (Inl (Se_Tensor Te_Short_Header), s)"
  using recv_frame_bytes [of TENSOR_EOF_OFFSET "[]" s "Tensor_Buffer_New RECV_BUFFER"]
  by (auto simp: tensor_ok_def net_recv_tensor_def loc_recv_tensor_def bytes_to_tensor_str_def bytes_to_tensor_def)

lemma tensors_over:
  assumes "Parse_Device_Str has_cuda dev = Inr d"
    and "\<forall>(t, off) \<in> set ms. sendable from_vec t \<and> off \<noteq> TENSOR_EOF_OFFSET" "room out = None"
  shows "\<exists>bs. send_tensors net_send_tensor ms out = Inr (out\<lparr>sent := sent out @ bs\<rparr>) \<and>
      send_tensors loc_send_tensor ms out = Inr (out\<lparr>sent := sent out @ bs\<rparr>) \<and>
      (\<forall>s n. recv_tensors (\<lambda>s. net_recv_tensor has_cuda from_vec s dev) (length ms + n) (bs @ s) =
         map (\<lambda>(t, off). Inr ((d, t), off)) ms @ recv_tensors (\<lambda>s. net_recv_tensor has_cuda from_vec s dev) n s) \<and>
      (\<forall>s n. recv_tensors (\<lambda>s. loc_recv_tensor has_cuda from_vec s dev) (length ms + n) (bs @ s) =
         map (\<lambda>(t, off). Inr ((d, t), off)) ms @ recv_tensors (\<lambda>s. loc_recv_tensor has_cuda from_vec s dev) n s)"
  using assms(2,3)
proof (induction ms arbitrary: out)
  case Nil
  show ?case by (intro exI [of _ "[]"]) simp
next
  case (Cons m ms)
  obtain t off where m: "m = (t, off)" by force
  have "sendable from_vec t" "off \<noteq> TENSOR_EOF_OFFSET" using Cons.prems by (auto simp: m)
  then obtain bs where bs: "net_send_tensor t off out = map_err (Se_Io ''send_tensor: '') (write_all bs out)"
    "loc_send_tensor t off out = map_err (Se_Io ''send_tensor: '') (write_all bs out)"
    "\<forall>s. net_recv_tensor has_cuda from_vec (bs @ s) dev = (Inr ((d, t), off), s)"
    "\<forall>s. loc_recv_tensor has_cuda from_vec (bs @ s) dev = (Inr ((d, t), off), s)"
    using assms(1) by (rule tensor_hop)
  have w: "write_all bs out = Inr (out\<lparr>sent := sent out @ bs\<rparr>)" using Cons.prems(2) by (simp add: write_all_def)
  from Cons.IH [of "out\<lparr>sent := sent out @ bs\<rparr>"] Cons.prems obtain bs' where IH:
    "send_tensors net_send_tensor ms (out\<lparr>sent := sent out @ bs\<rparr>) = Inr (out\<lparr>sent := (sent out @ bs) @ bs'\<rparr>)"
    "send_tensors loc_send_tensor ms (out\<lparr>sent := sent out @ bs\<rparr>) = Inr (out\<lparr>sent := (sent out @ bs) @ bs'\<rparr>)"
    "\<forall>s n. recv_tensors (\<lambda>s. net_recv_tensor has_cuda from_vec s dev) (length ms + n) (bs' @ s) =
       map (\<lambda>(t, off). Inr ((d, t), off)) ms @ recv_tensors (\<lambda>s. net_recv_tensor has_cuda from_vec s dev) n s"
    "\<forall>s n. recv_tensors (\<lambda>s. loc_recv_tensor has_cuda from_vec s dev) (length ms + n) (bs' @ s) =
       map (\<lambda>(t, off). Inr ((d, t), off)) ms @ recv_tensors (\<lambda>s. loc_recv_tensor has_cuda from_vec s dev) n s"
    by (auto simp del: append_assoc)
  show ?case
    using bs w IH by (intro exI [of _ "bs @ bs'"]) (simp add: m)
qed

text \<open>C12: What a script sends over a stream, on the network or in the process, is what the script at the other
  end receives: the same tensors on its device with the same offsets, in order. The end marker that
  follows is an error of its own on the network; a local stream reports it as a tensor too short.
\<close>

theorem tensors_over_streams:
  assumes "Parse_Device_Str has_cuda dev = Inr d"
    and "\<forall>(t, off) \<in> set ms. sendable from_vec t \<and> off \<noteq> TENSOR_EOF_OFFSET"
  shows "\<exists>out lout. rbind (send_tensors net_send_tensor ms fresh_out) net_send_eof = Inr out \<and>
      rbind (send_tensors loc_send_tensor ms fresh_out) loc_send_eof = Inr lout \<and>
      recv_tensors (\<lambda>s. net_recv_tensor has_cuda from_vec s dev) (length ms + 1) (sent out) =
        map (\<lambda>(t, off). Inr ((d, t), off)) ms @ [Inl Se_Eof] \<and>
      recv_tensors (\<lambda>s. loc_recv_tensor has_cuda from_vec s dev) (length ms + 1) (sent lout) =
        map (\<lambda>(t, off). Inr ((d, t), off)) ms @ [Inl (Se_Tensor Te_Short_Header)]"
proof -
  let ?e = "tensor_frame (TENSOR_EOF_OFFSET, [])"
  have f: "room fresh_out = None" "sent fresh_out = []" by (simp_all add: fresh_out_def)
  obtain bs where bs: "send_tensors net_send_tensor ms fresh_out = Inr (fresh_out\<lparr>sent := bs\<rparr>)"
    "send_tensors loc_send_tensor ms fresh_out = Inr (fresh_out\<lparr>sent := bs\<rparr>)"
    "\<forall>s n. recv_tensors (\<lambda>s. net_recv_tensor has_cuda from_vec s dev) (length ms + n) (bs @ s) =
         map (\<lambda>(t, off). Inr ((d, t), off)) ms @ recv_tensors (\<lambda>s. net_recv_tensor has_cuda from_vec s dev) n s"
    "\<forall>s n. recv_tensors (\<lambda>s. loc_recv_tensor has_cuda from_vec s dev) (length ms + n) (bs @ s) =
         map (\<lambda>(t, off). Inr ((d, t), off)) ms @ recv_tensors (\<lambda>s. loc_recv_tensor has_cuda from_vec s dev) n s"
    using tensors_over [OF assms f(1)] by (auto simp: f)
  have e: "net_send_eof (fresh_out\<lparr>sent := bs\<rparr>) = Inr (fresh_out\<lparr>sent := bs @ ?e\<rparr>)"
    "loc_send_eof (fresh_out\<lparr>sent := bs\<rparr>) = Inr (fresh_out\<lparr>sent := bs @ ?e\<rparr>)"
    by (simp_all add: net_send_eof_def loc_send_eof_def Send_EOF_eq local_send_eof_eq write_all_def f)
  have r: "net_recv_tensor has_cuda from_vec ?e dev = (Inl Se_Eof, [])"
    "loc_recv_tensor has_cuda from_vec ?e dev = (Inl (Se_Tensor Te_Short_Header), [])"
    using recv_eof(1) [of has_cuda from_vec "[]" dev] recv_eof(2) [OF assms(1), of from_vec "[]"] by simp_all
  show ?thesis
    using bs(3) [rule_format, of 1 ?e] bs(4) [rule_format, of 1 ?e]
    by (intro exI [of _ "fresh_out\<lparr>sent := bs @ ?e\<rparr>"]) (simp add: bs(1,2) e r)
qed

definition plain_from_vec :: "tensor_dtype \<Rightarrow> u64 list \<Rightarrow> u32 list \<Rightarrow> tensor option" where
  "plain_from_vec dt ds es = Some \<lparr>tn_dtype = dt, tn_dims = ds, tn_data = es\<rparr>"

theorem tensors_over_streams_witness:
  "\<exists>out. rbind (send_tensors net_send_tensor [(\<lparr>tn_dtype = Td_F32, tn_dims = [2, 1], tn_data = [5, 6]\<rparr>, 0)] fresh_out) net_send_eof = Inr out \<and>
     recv_tensors (\<lambda>s. net_recv_tensor (\<lambda>_. False) plain_from_vec s ''cpu'') 2 (sent out) =
       [Inr ((Dev_Cpu, \<lparr>tn_dtype = Td_F32, tn_dims = [2, 1], tn_data = [5, 6]\<rparr>), 0), Inl Se_Eof]"
proof -
  have d: "Parse_Device_Str (\<lambda>_. False) ''cpu'' = Inr Dev_Cpu" by code_simp
  have m: "\<forall>(t, off) \<in> set [(\<lparr>tn_dtype = Td_F32, tn_dims = [2, 1], tn_data = [5, 6]\<rparr>, 0)].
      sendable plain_from_vec t \<and> off \<noteq> TENSOR_EOF_OFFSET"
    by (simp add: sendable_def tensor_wf_def elem_count_def plain_from_vec_def TENSOR_EOF_OFFSET_def)
  from tensors_over_streams [OF d m] show ?thesis by (auto simp: numeral_2_eq_2)
qed

section \<open>Models across nodes\<close>

text \<open>
  One transfer between nodes: the tensor is sent over a fresh stream with the offset and received at the
  other end. \<open>view\<close> is what the code sees of a tensor of the library (element type, shape, elements)
  and \<open>back\<close> the tensor the library builds from it on the receiving device.
\<close>

definition relay ::
  "(nat \<Rightarrow> bool) \<Rightarrow> (tensor_dtype \<Rightarrow> u64 list \<Rightarrow> u32 list \<Rightarrow> tensor option) \<Rightarrow> string \<Rightarrow>
   ('t \<Rightarrow> tensor) \<Rightarrow> (device \<times> tensor \<Rightarrow> 't) \<Rightarrow> nat \<Rightarrow> 't \<Rightarrow> script_error + 't \<times> nat" where
  "relay has_cuda from_vec dev view back off x =
     rbind (net_send_tensor (view x) (of_nat off) fresh_out) (\<lambda>out.
     rbind (fst (net_recv_tensor has_cuda from_vec (sent out) dev)) (\<lambda>(dt, off').
     Inr (back dt, unat off')))"

text \<open>A chain of workers: the coordinator sends its input to the first, each receives a tensor, runs its
  part of the model at the offset that came with it and sends the result on, the last one back to the
  coordinator. An error is one of a forward pass or one of a stream.\<close>

fun wire_pipeline ::
  "(nat \<Rightarrow> 't \<Rightarrow> script_error + 't \<times> nat) \<Rightarrow> ('m \<Rightarrow> 't \<Rightarrow> nat \<Rightarrow> ('e + 't) \<times> 'm) \<Rightarrow> 'm list \<Rightarrow> 't \<Rightarrow> nat \<Rightarrow>
   (('e + script_error) + 't) \<times> 'm list" where
  "wire_pipeline hop fwd [] x off = (rbind (map_err Inr (hop off x)) (\<lambda>(y, _). Inr y), [])"
| "wire_pipeline hop fwd (m # ms) x off =
     (case hop off x of
        Inl e \<Rightarrow> (Inl (Inr e), m # ms)
      | Inr (x', off') \<Rightarrow>
          (case fwd m x' off' of
             (Inl e, m') \<Rightarrow> (Inl (Inl e), m' # ms)
           | (Inr y, m') \<Rightarrow> (case wire_pipeline hop fwd ms y off' of (r, ms') \<Rightarrow> (r, m' # ms'))))"

text \<open>Every tensor that goes from node to node in a pass, and in a series of passes, can be sent.\<close>

fun pass_sendable :: "('t \<Rightarrow> bool) \<Rightarrow> ('m \<Rightarrow> 't \<Rightarrow> nat \<Rightarrow> ('e + 't) \<times> 'm) \<Rightarrow> 'm list \<Rightarrow> 't \<Rightarrow> nat \<Rightarrow> bool" where
  "pass_sendable ok fwd [] x off \<longleftrightarrow> ok x"
| "pass_sendable ok fwd (m # ms) x off \<longleftrightarrow>
     ok x \<and> (case fst (fwd m x off) of Inl _ \<Rightarrow> True | Inr y \<Rightarrow> pass_sendable ok fwd ms y off)"

fun steps_sendable :: "('t \<Rightarrow> bool) \<Rightarrow> ('m \<Rightarrow> 't \<Rightarrow> nat \<Rightarrow> ('e + 't) \<times> 'm) \<Rightarrow> 'm list \<Rightarrow> ('t \<times> nat) list \<Rightarrow> bool" where
  "steps_sendable ok fwd ms [] \<longleftrightarrow> True"
| "steps_sendable ok fwd ms ((x, off) # steps) \<longleftrightarrow>
     off < 18446744073709551615 \<and> pass_sendable ok fwd ms x off \<and> steps_sendable ok fwd (snd (pipeline fwd ms x off)) steps"

lemma relay_ok:
  assumes "sendable from_vec (view x)" "off < 18446744073709551615" "Parse_Device_Str has_cuda dev = Inr d"
    and "back (d, view x) = x"
  shows "relay has_cuda from_vec dev view back off x = Inr (x, off)"
proof -
  have u: "unat (of_nat off :: u64) = off" using assms(2) by (simp add: unat_of_nat)
  have "(of_nat off :: u64) \<noteq> TENSOR_EOF_OFFSET"
  proof
    assume "(of_nat off :: u64) = TENSOR_EOF_OFFSET"
    from arg_cong [OF this, of unat] show False using u assms(2) by (simp add: TENSOR_EOF_OFFSET_def)
  qed
  with assms(1) obtain bs where bs: "net_send_tensor (view x) (of_nat off) fresh_out = map_err (Se_Io ''send_tensor: '') (write_all bs fresh_out)"
    "\<forall>s. net_recv_tensor has_cuda from_vec (bs @ s) dev = (Inr ((d, view x), of_nat off), s)"
    using assms(3) by (rule tensor_hop)
  have "write_all bs fresh_out = Inr (fresh_out\<lparr>sent := bs\<rparr>)" by (simp add: write_all_def fresh_out_def)
  then show ?thesis
    using bs(1) bs(2) [rule_format, of "[]"] by (simp add: relay_def u assms(4))
qed

lemma wire_pipeline_same:
  assumes "\<forall>x. ok x \<longrightarrow> hop off x = Inr (x, off)"
  shows "pass_sendable ok fwd ms x off \<Longrightarrow>
    wire_pipeline hop fwd ms x off = (map_err Inl (fst (pipeline fwd ms x off)), snd (pipeline fwd ms x off))"
proof (induction ms arbitrary: x)
  case (Cons m ms)
  obtain r m' where f: "fwd m x off = (r, m')" by force
  show ?case
  proof (cases r)
    case (Inr y)
    then show ?thesis using Cons.IH [of y] Cons.prems assms
      by (cases "run_layers (\<lambda>m h. fwd m h off) ms y") (simp add: f pipeline_def)
  qed (use Cons.prems assms f in \<open>simp add: pipeline_def\<close>)
qed (use assms in \<open>simp add: pipeline_def\<close>)

lemma wire_steps_same:
  assumes "\<forall>x off. ok x \<and> off < 18446744073709551615 \<longrightarrow> hop off x = Inr (x, off)"
  shows "steps_sendable ok fwd ms steps \<Longrightarrow>
    run_steps (wire_pipeline hop fwd) ms steps = map (map_err Inl) (run_steps (pipeline fwd) ms steps)"
proof (induction steps arbitrary: ms)
  case (Cons st steps)
  obtain x off where st: "st = (x, off)" by force
  have "wire_pipeline hop fwd ms x off = (map_err Inl (fst (pipeline fwd ms x off)), snd (pipeline fwd ms x off))"
    using Cons.prems assms by (intro wire_pipeline_same [of ok]) (simp_all add: st)
  then show ?case
    using Cons.IH [of "snd (pipeline fwd ms x off)"] Cons.prems by (cases "pipeline fwd ms x off") (simp add: st)
qed simp

text \<open>A tensor of the receiving device \<open>d\<close> that a stream can carry.\<close>

definition carried ::
  "(tensor_dtype \<Rightarrow> u64 list \<Rightarrow> u32 list \<Rightarrow> tensor option) \<Rightarrow> device \<Rightarrow> ('t \<Rightarrow> tensor) \<Rightarrow> (device \<times> tensor \<Rightarrow> 't) \<Rightarrow> 't \<Rightarrow> bool" where
  "carried from_vec d view back x \<longleftrightarrow> sendable from_vec (view x) \<and> back (d, view x) = x"

lemma wire_equals_pipeline:
  assumes "Parse_Device_Str has_cuda dev = Inr d" "steps_sendable (carried from_vec d view back) fwd ms steps"
  shows "run_steps (wire_pipeline (relay has_cuda from_vec dev view back) fwd) ms steps =
    map (map_err Inl) (run_steps (pipeline fwd) ms steps)"
  by (rule wire_steps_same [OF _ assms(2)]) (simp add: carried_def relay_ok [OF _ _ assms(1)])

section \<open>A small model across nodes\<close>

text \<open>The toy tensors as the streams see them: every element is the one number.\<close>

definition toy_view :: "toy_tensor \<Rightarrow> tensor" where
  "toy_view x = \<lparr>tn_dtype = Td_F32, tn_dims = map of_nat (fst x), tn_data = replicate (prod_list (fst x)) (snd x)\<rparr>"

definition toy_back :: "device \<times> tensor \<Rightarrow> toy_tensor" where
  "toy_back dt = (map unat (tn_dims (snd dt)), hd (tn_data (snd dt)))"

lemma toy_carried:
  assumes "0 < n" "n \<le> 3"
  shows "carried plain_from_vec d toy_view toy_back ([1, n], v)" "carried plain_from_vec d toy_view toy_back ([1, n, 2], v)"
proof -
  have "n = 1 \<or> n = 2 \<or> n = 3" using assms by linarith
  then show "carried plain_from_vec d toy_view toy_back ([1, n], v)" "carried plain_from_vec d toy_view toy_back ([1, n, 2], v)"
    by (auto simp: carried_def sendable_def tensor_wf_def elem_count_def toy_view_def toy_back_def plain_from_vec_def)
qed

lemma toy_forward_dims:
  assumes "AnyModel_Forward toy_lib (Qwen3 k) x off = (r, m')"
  shows "\<exists>k'. m' = Qwen3 k' \<and> mw_embed_tokens k' = mw_embed_tokens k \<and>
    (\<forall>y. r = Inr y \<longrightarrow> fst y = (case mw_embed_tokens k of Some (_, h) \<Rightarrow> fst x @ [h] | None \<Rightarrow> fst x))"
proof -
  let ?fwd = "\<lambda>ly x msk off (_ :: bool). Layer_Forward toy_lib ly x msk off"
  have d: "tl_dims toy_lib = fst" by (simp add: toy_lib_def)
  obtain r' k' where f: "Forward_with toy_lib ?fwd k x off = (r', k')" by (rule prod.exhaust)
  then have k': "m' = Qwen3 k'" "Forward_with toy_lib ?fwd k x off = (r, k')"
    using assms by (simp_all add: AnyModel_Forward_def Model_Forward_def)
  have "mw_embed_tokens (k\<lparr>mw_layers := mw_layers k'\<rparr>) = mw_embed_tokens k" by simp
  then have "mw_embed_tokens k' = mw_embed_tokens k" using qwen3.forward_shape [OF k'(2)] by simp
  moreover have "fst y = (case mw_embed_tokens k of Some (_, h) \<Rightarrow> fst x @ [h] | None \<Rightarrow> fst x)" if y: "r = Inr y" for y
  proof -
    obtain h l msk z lys where h: "embed toy_lib k x = Inr h" "output_head toy_lib k l z = Inr y"
      "run_layers (\<lambda>ly x. Layer_Forward toy_lib ly x msk off) (mw_layers k) h = (Inr z, lys)"
      using k'(2) y by (auto simp: Forward_with_def rbind_eq_Inr split: sum.splits prod.splits)
    have "fst z = fst h"
      by (rule run_layers_invariant [OF _ h(3)])
        (auto simp: Layer_Forward_def d dest!: residual_keeps_dims [OF toy_add_shape] split: prod.splits)
    moreover have "fst y = fst z" using h(2) by (auto simp: output_head_def toy_lib_def split: option.splits)
    moreover have "fst h = (case mw_embed_tokens k of Some (_, h) \<Rightarrow> fst x @ [h] | None \<Rightarrow> fst x)"
      using h(1) by (auto simp: embed_def toy_lib_def split: option.splits)
    ultimately show ?thesis by simp
  qed
  ultimately show ?thesis using k'(1) by blast
qed

lemma toy_steps_sendable:
  "mw_embed_tokens k1 = Some (t, 2) \<Longrightarrow> mw_embed_tokens k2 = None \<Longrightarrow>
   \<forall>(x, off) \<in> set steps. off < 18446744073709551615 \<and> (\<exists>n v. x = ([1, n], v) \<and> 0 < n \<and> n \<le> 3) \<Longrightarrow>
   steps_sendable (carried plain_from_vec d toy_view toy_back) (AnyModel_Forward toy_lib) [Qwen3 k1, Qwen3 k2] steps"
proof (induction steps arbitrary: k1 k2)
  case (Cons st steps)
  obtain n v off where st: "st = (([1, n], v), off)" "0 < n" "n \<le> 3" "off < 18446744073709551615" using Cons.prems(3) by fastforce
  obtain r1 m1 where f1: "AnyModel_Forward toy_lib (Qwen3 k1) ([1, n], v) off = (r1, m1)" by force
  obtain k1' where k1': "m1 = Qwen3 k1'" "mw_embed_tokens k1' = Some (t, 2)" "\<forall>y. r1 = Inr y \<longrightarrow> fst y = [1, n, 2]"
    using toy_forward_dims [OF f1] Cons.prems(1) by auto
  show ?case
  proof (cases r1)
    case (Inl e)
    then have "pipeline (AnyModel_Forward toy_lib) [Qwen3 k1, Qwen3 k2] ([1, n], v) off = (Inl e, [Qwen3 k1', Qwen3 k2])"
      by (simp add: pipeline_def f1 k1'(1) del: One_nat_def)
    then show ?thesis using Cons.IH [of k1' k2] Cons.prems k1' st toy_carried(1) [OF st(2,3)] Inl
      by (simp add: f1 del: One_nat_def)
  next
    case (Inr y)
    obtain w where w: "y = ([1, n, 2], w)" using k1'(3) Inr by (cases y) auto
    obtain r2 m2 where f2: "AnyModel_Forward toy_lib (Qwen3 k2) y off = (r2, m2)" by force
    obtain k2' where k2': "m2 = Qwen3 k2'" "mw_embed_tokens k2' = None" "\<forall>z. r2 = Inr z \<longrightarrow> fst z = [1, n, 2]"
      using toy_forward_dims [OF f2] Cons.prems(2) w by auto
    have p: "snd (pipeline (AnyModel_Forward toy_lib) [Qwen3 k1, Qwen3 k2] ([1, n], v) off) = [Qwen3 k1', Qwen3 k2']"
      by (cases r2) (simp_all add: pipeline_def f1 Inr f2 k1'(1) k2'(1) del: One_nat_def)
    have "case r2 of Inl _ \<Rightarrow> True | Inr z \<Rightarrow> carried plain_from_vec d toy_view toy_back z"
      using k2'(3) toy_carried(2) [OF st(2,3), of d] by (auto split: sum.splits simp del: One_nat_def)
    then show ?thesis
      using Cons.IH [OF k1'(2) k2'(2)] Cons.prems(3) toy_carried [OF st(2,3)] st(4)
      by (cases r2) (simp_all add: st(1) f1 Inr f2 p w [symmetric] del: One_nat_def, simp_all add: w del: One_nat_def)
  qed
qed simp

lemma tiny_parts:
  assumes "load_any demo_candle toy_lib (\<lambda>_ e. e) tiny_content tiny_load Dev_Cpu 0 0 = Inr m1"
    and "load_any demo_candle toy_lib (\<lambda>_ e. e) tiny_content tiny_load Dev_Cpu 1 2 = Inr m2"
  shows "\<exists>k1 t k2. m1 = Qwen3 k1 \<and> mw_embed_tokens k1 = Some (t, 2) \<and> m2 = Qwen3 k2 \<and> mw_embed_tokens k2 = None"
proof -
  have "embedding_length (GGUF_Analyze_From_Content demo_candle tiny_content) = 2"
    by (simp add: GGUF_Analyze_From_Content_def tiny_content_def demo_candle_def Get_Metadata_String_def Get_Metadata_Usize_def Let_def)
  then show ?thesis
    using assms
    by (auto simp: load_any_def Let_def rbind_eq_Inr tiny_info ascii_lower_def assemble_def load_embedding_def From_Dynamic_def
        split: if_splits)
qed

text \<open>The same for the files the model is split into.\<close>

lemma tiny_split_parts:
  assumes "load_any demo_candle toy_lib (\<lambda>_ e. e) tiny_content tiny_load Dev_Cpu 0 2 = Inr m"
    and "GGUF_Split_Model demo_candle tiny_content tiny_load ''t'' 0 0 False = Inr out1"
    and "GGUF_Split_Model demo_candle tiny_content tiny_load ''t'' 1 2 False = Inr out2"
    and "[load_any demo_candle toy_lib (\<lambda>_ e. e) (content_of out1) (map_of (so_tensors out1)) Dev_Cpu 0 0,
      load_any demo_candle toy_lib (\<lambda>_ e. e) (content_of out2) (map_of (so_tensors out2)) Dev_Cpu 1 2] = map Inr ms"
  shows "\<exists>k1 t k2. ms = [Qwen3 k1, Qwen3 k2] \<and> mw_embed_tokens k1 = Some (t, 2) \<and> mw_embed_tokens k2 = None"
proof -
  have n: "num_layers (GGUF_Analyze_From_Content demo_candle tiny_content) + 1 = 2" by (simp add: num_layers_block_count tiny_info)
  obtain m1 m2 where l: "load_any demo_candle toy_lib (\<lambda>_ e. e) tiny_content tiny_load Dev_Cpu 0 0 = Inr m1"
    "load_any demo_candle toy_lib (\<lambda>_ e. e) tiny_content tiny_load Dev_Cpu 1 2 = Inr m2"
    using load_parts [OF assms(1) [folded n] tiny_info(4) refl, of "[(0, 0), (1, 2)]"]
    unfolding n by (auto simp: Cons_eq_map_conv)
  have u: "\<And>w. cd_to_u32 demo_candle (Gv_U32 w) = Some w" by (simp add: demo_candle_def)
  have S: "split_of demo_candle tiny_content tiny_load ''t'' 0 0 False out1 (content_of out1)"
    "split_of demo_candle tiny_content tiny_load ''t'' 1 2 False out2 (content_of out2)"
    using assms(2,3) load_any_arch [OF assms(1)] by (simp_all add: split_of_def reads_back_content_of tiny_content_def)
  have "load_any demo_candle toy_lib (\<lambda>_ e. e) (content_of out1) (map_of (so_tensors out1)) Dev_Cpu 0 0 = Inr m1"
    by (rule load_any_same [OF u S(1) _ _ _ _ tiny_info(4) l(1)]) simp_all
  moreover have "load_any demo_candle toy_lib (\<lambda>_ e. e) (content_of out2) (map_of (so_tensors out2)) Dev_Cpu 1 2 = Inr m2"
    by (rule load_any_same [OF u S(2) _ _ _ _ tiny_info(4) l(2)]) simp_all
  ultimately have "ms = [m1, m2]" using assms(4) by (auto simp: Cons_eq_map_conv)
  then show ?thesis using tiny_parts [OF l] by auto
qed

end
