(* ===== verification/Terminal_Texts.thy ===== *)
theory Terminal_Texts
  imports Texts
begin

text \<open>The texts of the command parser and of the terminal interface (\<open>Src/TUI/mod.rs\<close>), fragment by
  fragment as UTF-8 bytes.\<close>

definition tx_u_session_create :: string where
  "tx_u_session_create = utf8 [231, 148, 168, 230, 179, 149] @ '': session create <model_name>''"

definition tx_u_bad_sid :: string where
  "tx_u_bad_sid = utf8 [230, 151, 160, 230, 149, 136] @ '' session_id: '' @ utf8 [39]"

definition tx_u_api :: string where
  "tx_u_api = utf8 [39, 92] @ ''n'' @ utf8 [231, 148, 168, 230, 179, 149] @ '': api <session_id>''"

definition tx_u_session_inf :: string where
  "tx_u_session_inf = utf8 [231, 148, 168, 230, 179, 149] @ '': session inference [command] <session_id> <model_path>''"

definition tx_u_run :: string where
  "tx_u_run = utf8 [231, 148, 168, 230, 179, 149] @ '': run <model_path>''"

definition tx_u_bad_job :: string where
  "tx_u_bad_job = utf8 [230, 151, 160, 230, 149, 136] @ '' Job ID: '' @ utf8 [39]"

definition tx_u_bad_device :: string where
  "tx_u_bad_device = utf8 [228, 184, 141, 230, 148, 175, 230, 140, 129, 231, 154, 132, 232, 174, 190, 229, 164,
     135] @ '': '' @ utf8 [39]"

definition tx_u_device :: string where
  "tx_u_device = utf8 [39, 92] @ ''n'' @ utf8 [231, 148, 168, 230, 179, 149] @ '': set-device cpu|cuda|cuda:N''"

definition tx_u_name_empty :: string where
  "tx_u_name_empty = utf8 [229, 144, 141, 231, 167, 176, 228, 184, 141, 232, 131, 189, 228, 184, 186, 231, 169, 186]"

definition tx_u_send :: string where
  "tx_u_send = utf8 [231, 148, 168, 230, 179, 149] @ '': send <file> <peer_id>''"

definition tx_u_distribute :: string where
  "tx_u_distribute = utf8 [231, 148, 168, 230, 179, 149] @ '': distribute <model_path> <peer_id:start-end> ...''"

definition tx_u_parse :: string where
  "tx_u_parse = utf8 [232, 167, 163, 230, 158, 144] @ '' '' @ utf8 [39]"

definition tx_u_failed :: string where
  "tx_u_failed = utf8 [39] @ '' '' @ utf8 [229, 164, 177, 232, 180, 165] @ '': ''"

definition tx_u_pipeline :: string where
  "tx_u_pipeline = utf8 [231, 148, 168, 230, 179, 149] @ '': pipeline <model_path>''"

definition tx_u_profile :: string where
  "tx_u_profile = utf8 [231, 148, 168, 230, 179, 149] @ '': profile <model_id>''"

definition tx_u_dial :: string where
  "tx_u_dial = utf8 [231, 148, 168, 230, 179, 149] @ '': dial <multiaddr>''"

definition tx_u_exec :: string where
  "tx_u_exec = utf8 [231, 148, 168, 230, 179, 149] @ '': exec <command> [key=value ...]''"

definition tx_u_bad_param :: string where
  "tx_u_bad_param = utf8 [229, 143, 130, 230, 149, 176, 230, 160, 188, 229, 188, 143, 230, 151, 160, 230, 149,
     136] @ '': '' @ utf8 [39]"

definition tx_u_rexec :: string where
  "tx_u_rexec = utf8 [231, 148, 168, 230, 179, 149] @ '': rexec <peer> <command> [key=value ...]''"

definition tx_u_unknown :: string where
  "tx_u_unknown = utf8 [230, 156, 170, 231, 159, 165, 229, 145, 189, 228, 187, 164] @ '': '' @ utf8 [39]"

definition tx_u_unknown_help :: string where
  "tx_u_unknown_help = utf8 [39, 92] @ ''n'' @ utf8 [232, 190, 147, 229, 133, 165] @ '' help '' @ utf8 [230, 159, 165,
     231, 156, 139, 229, 143, 175, 231, 148, 168, 229, 145, 189, 228, 187, 164]"

definition tx_u_no_colon :: string where
  "tx_u_no_colon = utf8 [231, 188, 186, 229, 176, 145] @ '' '' @ utf8 [39] @ '':'' @ utf8 [39] @ '' '' @ utf8 [229,
     136, 134, 233, 154, 148, 231, 172, 166]"

definition tx_u_bad_range :: string where
  "tx_u_bad_range = utf8 [229, 177, 130, 232, 140, 131, 229, 155, 180, 230, 160, 188, 229, 188, 143, 233, 148, 153,
     232, 175, 175, 239, 188, 140, 229, 186, 148, 228, 184, 186] @ '' start-end''"

definition tx_u_start :: string where
  "tx_u_start = ''start '' @ utf8 [232, 167, 163, 230, 158, 144, 229, 164, 177, 232, 180, 165] @ '': ''"

definition tx_u_end :: string where
  "tx_u_end = ''end '' @ utf8 [232, 167, 163, 230, 158, 144, 229, 164, 177, 232, 180, 165] @ '': ''"

definition tx_cli_closed :: string where
  "tx_cli_closed = ''[CLI] Orchestrator '' @ utf8 [229, 183, 178, 229, 133, 179, 233, 151, 173]"

definition tx_t_started :: string where
  "tx_t_started = ''Pleiades TUI '' @ utf8 [229, 183, 178, 229, 144, 175, 229, 138, 168]"

definition tx_t_lost :: string where
  "tx_t_lost = utf8 [226, 154, 160] @ '' '' @ utf8 [228, 184, 162, 229, 164, 177] @ '' ''"

definition tx_t_events :: string where
  "tx_t_events = '' '' @ utf8 [230, 157, 161, 228, 186, 139, 228, 187, 182]"

definition tx_t_error :: string where
  "tx_t_error = ''['' @ utf8 [233, 148, 153, 232, 175, 175] @ ''] ''"

definition tx_t_warn :: string where
  "tx_t_warn = ''['' @ utf8 [232, 173, 166, 229, 145, 138] @ ''] ''"

definition tx_t_state_bad :: string where
  "tx_t_state_bad = ''[EventBus] State JSON '' @ utf8 [232, 167, 163, 230, 158, 144, 229, 164, 177, 232, 180,
     165] @ '': ''"

definition tx_t_stream_bad :: string where
  "tx_t_stream_bad = ''[EventBus] Stream JSON '' @ utf8 [232, 167, 163, 230, 158, 144, 229, 164, 177, 232, 180,
     165] @ '': ''"

definition tx_t_output_bad :: string where
  "tx_t_output_bad = ''[EventBus] Output JSON '' @ utf8 [232, 167, 163, 230, 158, 144, 229, 164, 177, 232, 180,
     165] @ '': ''"

definition tx_t_found :: string where
  "tx_t_found = utf8 [229, 143, 145, 231, 142, 176, 232, 138, 130, 231, 130, 185] @ '': ''"

definition tx_t_left :: string where
  "tx_t_left = utf8 [232, 138, 130, 231, 130, 185, 231, 166, 187, 229, 188, 128] @ '': ''"

definition tx_t_info :: string where
  "tx_t_info = utf8 [232, 138, 130, 231, 130, 185, 228, 191, 161, 230, 129, 175] @ '': ''"

definition tx_t_connected :: string where
  "tx_t_connected = utf8 [232, 191, 158, 230, 142, 165, 229, 187, 186, 231, 171, 139] @ '': ''"

definition tx_t_gone :: string where
  "tx_t_gone = utf8 [232, 191, 158, 230, 142, 165, 230, 150, 173, 229, 188, 128] @ '': ''"

definition tx_t_created :: string where
  "tx_t_created = '' '' @ utf8 [229, 183, 178, 229, 136, 155, 229, 187, 186] @ '' [''"

definition tx_t_model :: string where
  "tx_t_model = ''] '' @ utf8 [230, 168, 161, 229, 158, 139] @ '': ''"

definition tx_t_phase :: string where
  "tx_t_phase = '' '' @ utf8 [233, 152, 182, 230, 174, 181] @ '': ''"

definition tx_t_completed :: string where
  "tx_t_completed = '' '' @ utf8 [229, 174, 140, 230, 136, 144] @ '': ''"

definition tx_t_init :: string where
  "tx_t_init = utf8 [229, 136, 157, 229, 167, 139, 229, 140, 150]"

definition tx_t_inf_start :: string where
  "tx_t_inf_start = utf8 [230, 142, 168, 231, 144, 134, 229, 188, 128, 229, 167, 139] @ '': ''"

definition tx_t_inf_done :: string where
  "tx_t_inf_done = utf8 [230, 142, 168, 231, 144, 134, 229, 174, 140, 230, 136, 144] @ '': ''"

definition tx_t_device :: string where
  "tx_t_device = utf8 [232, 174, 190, 229, 164, 135, 229, 183, 178, 229, 136, 135, 230, 141, 162] @ '': ''"

definition tx_t_help :: string where
  "tx_t_help = utf8 [230, 173, 163, 229, 156, 168, 232, 142, 183, 229, 143, 150, 229, 184, 174, 229, 138, 169,
     228, 191, 161, 230, 129, 175] @ ''...''"

definition tx_t_script :: string where
  "tx_t_script = utf8 [230, 137, 167, 232, 161, 140, 232, 132, 154, 230, 156, 172] @ '': ''"

definition tx_t_rexec :: string where
  "tx_t_rexec = utf8 [232, 191, 156, 231, 168, 139, 230, 137, 167, 232, 161, 140] @ '': rexec ''"

definition tx_t_session :: string where
  "tx_t_session = utf8 [229, 136, 155, 229, 187, 186] @ '' Session: ''"

definition tx_t_api :: string where
  "tx_t_api = utf8 [229, 144, 175, 229, 138, 168] @ '' API Server -> Session ''"

definition tx_t_exec :: string where
  "tx_t_exec = utf8 [230, 137, 167, 232, 161, 140, 229, 145, 189, 228, 187, 164] @ '': ''"

definition tx_t_closed :: string where
  "tx_t_closed = ''['' @ utf8 [233, 148, 153, 232, 175, 175] @ ''] Orchestrator '' @ utf8 [229, 183, 178, 229, 133,
     179, 233, 151, 173]"

end
