(* ===== verification/User_Commands.thy ===== *)
theory User_Commands
  imports Orchestrator Terminal_Texts
begin

text \<open>
  The command line: \<open>parse_user_command\<close> of \<open>Src/TUI/mod.rs\<close>, which the terminal interface and the
  command line mode share, and the line loop of \<open>Src/CLI/mod.rs\<close>. A rejected line has the text shown
  to the user; a line for the caller itself (empty, quit, clear) has no command.
\<close>

section \<open>Words\<close>

text \<open>\<open>split_whitespace\<close>: \<open>take_word\<close> reads up to the next white space sequence.\<close>

fun take_word :: "string \<Rightarrow> string \<times> string" where
  "take_word [] = ([], [])"
| "take_word (c # s) =
     (if \<exists>w \<in> set ws_seqs. w \<noteq> [] \<and> prefix w (c # s) then ([], c # s)
      else case take_word s of (w, r) \<Rightarrow> (c # w, r))"

lemma take_word_shorter: "length (snd (take_word s)) \<le> length s"
  by (induction s rule: take_word.induct) (auto split: prod.splits)

lemma trim_start_shorter: "length (trim_start s) \<le> length s"
proof (induction s rule: trim_start.induct)
  case (1 s)
  show ?case
  proof (cases "find (\<lambda>w. w \<noteq> [] \<and> prefix w s) ws_seqs")
    case None
    then show ?thesis by (subst trim_start.simps) simp
  next
    case (Some w)
    then show ?thesis using 1 [OF Some] by (subst trim_start.simps) simp
  qed
qed

lemma trim_start_head:
  assumes "trim_start s = c # t"
  shows "\<not> (\<exists>w \<in> set ws_seqs. w \<noteq> [] \<and> prefix w (c # t))"
  using assms
proof (induction s rule: trim_start.induct)
  case (1 s)
  show ?case
  proof (cases "find (\<lambda>w. w \<noteq> [] \<and> prefix w s) ws_seqs")
    case None
    then have "trim_start s = s" by (subst trim_start.simps) simp
    then show ?thesis using None 1(2) unfolding find_None_iff by metis
  next
    case (Some w)
    then have "trim_start s = trim_start (drop (length w) s)" by (subst trim_start.simps) simp
    then show ?thesis using 1(1) [OF Some] 1(2) by simp
  qed
qed

function split_whitespace :: "string \<Rightarrow> string list" where
  "split_whitespace s =
     (case trim_start s of
        [] \<Rightarrow> []
      | t \<Rightarrow> (case take_word t of (w, r) \<Rightarrow> w # split_whitespace r))"
  by pat_completeness auto
termination
proof (relation "measure length")
  fix s c t w r assume t: "trim_start s = c # t" and w: "(w, r) = take_word (c # t)"
  have "\<not> (\<exists>v \<in> set ws_seqs. v \<noteq> [] \<and> prefix v (c # t))" by (rule trim_start_head [OF t])
  then have "take_word (c # t) = (c # fst (take_word t), snd (take_word t))" by (simp add: case_prod_unfold)
  then have "r = snd (take_word t)" using w by simp
  then show "(r, s) \<in> measure length"
    using take_word_shorter [of t] trim_start_shorter [of s] t by simp
qed simp

declare split_whitespace.simps [simp del]

text \<open>\<open>split_once\<close> and \<open>rsplitn(2, c)\<close>, the latter as the parts before and after the last \<open>c\<close>.\<close>

definition split_once :: "char \<Rightarrow> string \<Rightarrow> (string \<times> string) option" where
  "split_once c s = (case dropWhile (\<lambda>x. x \<noteq> c) s of [] \<Rightarrow> None | _ # t \<Rightarrow> Some (takeWhile (\<lambda>x. x \<noteq> c) s, t))"

definition rsplit_once :: "char \<Rightarrow> string \<Rightarrow> (string \<times> string) option" where
  "rsplit_once c s = (case split_once c (rev s) of None \<Rightarrow> None | Some (b, a) \<Rightarrow> Some (rev a, rev b))"

section \<open>Parsing a line\<close>

definition USIZE_MAX :: nat where "USIZE_MAX = 18446744073709551615"

definition Parse_Peer_Assignment :: "string \<Rightarrow> string + (string \<times> nat \<times> nat)" where
  "Parse_Peer_Assignment arg =
     (case rsplit_once (CHR '':'') arg of
        None \<Rightarrow> Inl tx_u_no_colon
      | Some (peer_id, range_str) \<Rightarrow>
          (case split_on (CHR ''-'') range_str of
             [a, b] \<Rightarrow>
               rbind (map_err (\<lambda>e. tx_u_start @ show_parse_int_error e) (parse_uint USIZE_MAX a)) (\<lambda>start.
               rbind (map_err (\<lambda>e. tx_u_end @ show_parse_int_error e) (parse_uint USIZE_MAX b)) (\<lambda>stop.
               Inr (peer_id, start, stop)))
           | _ \<Rightarrow> Inl tx_u_bad_range))"

fun parse_assignments :: "string list \<Rightarrow> string + (string \<times> nat \<times> nat) list" where
  "parse_assignments [] = Inr []"
| "parse_assignments (a # as) =
     rbind (map_err (\<lambda>e. tx_u_parse @ a @ tx_u_failed @ e) (Parse_Peer_Assignment a)) (\<lambda>p.
     rbind (parse_assignments as) (\<lambda>ps. Inr (p # ps)))"

fun parse_params :: "string list \<Rightarrow> params \<Rightarrow> string + params" where
  "parse_params [] acc = Inr acc"
| "parse_params (a # as) acc =
     (case split_once (CHR ''='') a of
        None \<Rightarrow> Inl (tx_u_bad_param @ a @ [CHR 0x27])
      | Some (k, v) \<Rightarrow> parse_params as (AList.update k v acc))"

definition parse_id :: "(string \<Rightarrow> string) \<Rightarrow> string \<Rightarrow> string + u64" where
  "parse_id msg s = (case parse_uint 18446744073709551615 s of Inr n \<Rightarrow> Inr (of_nat n) | Inl _ \<Rightarrow> Inl (msg s))"

text \<open>A word that must not be empty.\<close>

definition nonempty :: "string \<Rightarrow> string \<Rightarrow> (string \<Rightarrow> UserCommand) \<Rightarrow> string + UserCommand option" where
  "nonempty usage s f = (let s = str_trim s in if s = [] then Inl usage else Inr (Some (f s)))"

definition parse_api :: "string \<Rightarrow> string + UserCommand option" where
  "parse_api s = rbind (parse_id (\<lambda>s. tx_u_bad_sid @ s @ tx_u_api) (str_trim s)) (\<lambda>sid. Inr (Some (Uc_Api sid)))"

definition parse_session_inference :: "string \<Rightarrow> string + UserCommand option" where
  "parse_session_inference rest =
     (let bad = (\<lambda>s. tx_u_bad_sid @ s @ [CHR 0x27]) in
      case split_whitespace rest of
        [s, m] \<Rightarrow> rbind (parse_id bad s) (\<lambda>sid. Inr (Some (Uc_SessionInference ''single_inf'' sid m)))
      | c # s # m # _ \<Rightarrow> rbind (parse_id bad s) (\<lambda>sid. Inr (Some (Uc_SessionInference c sid m)))
      | _ \<Rightarrow> Inl tx_u_session_inf)"

text \<open>\<open>lower\<close> is \<open>to_lowercase\<close>.\<close>

definition parse_set_device :: "(string \<Rightarrow> string) \<Rightarrow> string \<Rightarrow> string + UserCommand option" where
  "parse_set_device lower d =
     (let d = lower (str_trim d) in
      if d \<noteq> ''cpu'' \<and> d \<noteq> ''cuda'' \<and> \<not> prefix ''cuda:'' d then Inl (tx_u_bad_device @ d @ tx_u_device)
      else Inr (Some (Uc_SetDevice d)))"

definition parse_send :: "string \<Rightarrow> string + UserCommand option" where
  "parse_send rest = (case split_whitespace rest of [f, p] \<Rightarrow> Inr (Some (Uc_Send f p)) | _ \<Rightarrow> Inl tx_u_send)"

definition parse_distribute :: "string \<Rightarrow> string + UserCommand option" where
  "parse_distribute rest =
     (case split_whitespace rest of
        m # p # ps \<Rightarrow> rbind (parse_assignments (p # ps)) (\<lambda>peers. Inr (Some (Uc_DistributeModel m peers)))
      | _ \<Rightarrow> Inl tx_u_distribute)"

definition parse_pipeline :: "string \<Rightarrow> string + UserCommand option" where
  "parse_pipeline rest =
     (case split_whitespace rest of
        [] \<Rightarrow> Inl tx_u_pipeline
      | m # _ \<Rightarrow> if m = [] then Inl tx_u_pipeline else Inr (Some (Uc_Execute ''pipeline'' [(''model_path'', m)])))"

definition parse_exec :: "string \<Rightarrow> string + UserCommand option" where
  "parse_exec rest =
     (case split_whitespace rest of
        [] \<Rightarrow> Inl tx_u_exec
      | c # args \<Rightarrow> if c = [] then Inl tx_u_exec
          else rbind (parse_params args []) (\<lambda>ps. Inr (Some (Uc_Execute c ps))))"

definition parse_rexec :: "string \<Rightarrow> string + UserCommand option" where
  "parse_rexec rest =
     (case split_whitespace rest of
        p # c # args \<Rightarrow> rbind (parse_params args []) (\<lambda>ps. Inr (Some (Uc_ExecRemote p c ps)))
      | _ \<Rightarrow> Inl tx_u_rexec)"

definition parse_cancel :: "string \<Rightarrow> string + UserCommand option" where
  "parse_cancel s = rbind (parse_id (\<lambda>s. tx_u_bad_job @ s @ [CHR 0x27]) (str_trim s)) (\<lambda>j. Inr (Some (Uc_Cancel j)))"

text \<open>The commands that take arguments, in the order the code tries them; \<open>api\<close> has a second spelling.\<close>

definition argument_commands :: "(string \<Rightarrow> string) \<Rightarrow> (string \<times> (string \<Rightarrow> string + UserCommand option)) list" where
  "argument_commands lower =
     [(''session create '', \<lambda>r. nonempty tx_u_session_create r Uc_Session),
      (''api '', parse_api), (''API '', parse_api),
      (''session inference '', parse_session_inference),
      (''run '', \<lambda>r. nonempty tx_u_run r (Uc_Run [])), (''cancel '', parse_cancel),
      (''set-device '', parse_set_device lower),
      (''set-name '', \<lambda>r. nonempty tx_u_name_empty r Uc_SetName), (''send '', parse_send),
      (''distribute '', parse_distribute), (''pipeline '', parse_pipeline),
      (''profile '', \<lambda>r. nonempty tx_u_profile r Uc_Profile), (''dial '', \<lambda>r. nonempty tx_u_dial r Uc_Dial),
      (''exec '', parse_exec), (''rexec '', parse_rexec)]"

definition plain_commands :: "(string \<times> UserCommand) list" where
  "plain_commands =
     [(''help'', Uc_Help), (''display-peer'', Uc_DisplayPeer), (''dp'', Uc_DisplayPeer), (''ls'', Uc_List),
      (''flush'', Uc_Flush), (''reload'', Uc_Reload)]"

text \<open>No plain command starts with the name of an argument command and a space, so the order between the
  two groups, which the code mixes, does not matter.\<close>

definition parse_user_command :: "(string \<Rightarrow> string) \<Rightarrow> string \<Rightarrow> string + UserCommand option" where
  "parse_user_command lower input =
     (let t = str_trim input in
      if t = [] \<or> t = ''quit'' \<or> t = ''exit'' \<or> t = ''clear'' then Inr None
      else case map_of plain_commands t of
        Some cmd \<Rightarrow> Inr (Some cmd)
      | None \<Rightarrow>
          (case find (\<lambda>(p, _). prefix p t) (argument_commands lower) of
             Some (p, parse) \<Rightarrow> parse (drop (length p) t)
           | None \<Rightarrow> Inl (tx_u_unknown @ t @ tx_u_unknown_help)))"

section \<open>Text of words\<close>

definition word :: "string \<Rightarrow> bool" where
  "word s \<longleftrightarrow> s \<noteq> [] \<and> list_all graphic s"

lemma trim_ends:
  assumes "s \<noteq> []" "graphic (hd s)" "graphic (last s)"
  shows "str_trim s = s"
proof -
  have "trim_start s = s" using assms(1,2) trim_start_graphic by (cases s) auto
  moreover have "trim_rev (rev s) = rev s"
  proof (cases "rev s")
    case (Cons d u)
    then have "last s = d" by (metis hd_rev list.sel(1))
    then show ?thesis using assms(3) Cons trim_rev_graphic by simp
  qed (use assms(1) in simp)
  ultimately show ?thesis by (simp add: str_trim_def)
qed

lemma word_trim [simp]: "word s \<Longrightarrow> str_trim s = s"
  by (simp add: word_def)

lemma ws_seqs_eval: "ws_seqs =
    [[CHR 0x09], [CHR 0x0A], [CHR 0x0B], [CHR 0x0C], [CHR 0x0D],
     [CHR 0x20], [CHR 0xC2, CHR 0x85], [CHR 0xC2, CHR 0xA0], [CHR 0xE1, CHR 0x9A, CHR 0x80], [CHR 0xE2, CHR 0x80, CHR 0xA8],
     [CHR 0xE2, CHR 0x80, CHR 0xA9], [CHR 0xE2, CHR 0x80, CHR 0xAF], [CHR 0xE2, CHR 0x81, CHR 0x9F], [CHR 0xE3, CHR 0x80, CHR 0x80], [CHR 0xE2, CHR 0x80, CHR 0x80],
     [CHR 0xE2, CHR 0x80, CHR 0x81], [CHR 0xE2, CHR 0x80, CHR 0x82], [CHR 0xE2, CHR 0x80, CHR 0x83], [CHR 0xE2, CHR 0x80, CHR 0x84], [CHR 0xE2, CHR 0x80, CHR 0x85],
     [CHR 0xE2, CHR 0x80, CHR 0x86], [CHR 0xE2, CHR 0x80, CHR 0x87], [CHR 0xE2, CHR 0x80, CHR 0x88], [CHR 0xE2, CHR 0x80, CHR 0x89], [CHR 0xE2, CHR 0x80, CHR 0x8A]]"
  by code_simp

lemma space_ws: "\<exists>w \<in> set ws_seqs. w \<noteq> [] \<and> prefix w (CHR '' '' # s)"
  by (rule bexI [of _ "[CHR '' '']"]) (simp_all add: ws_seqs_eval)

lemma take_word_graphic:
  "list_all graphic w \<Longrightarrow> take_word (w @ CHR '' '' # r) = (w, CHR '' '' # r)" "list_all graphic w \<Longrightarrow> take_word w = (w, [])"
  using space_ws graphic_no_prefix by (induction w) (simp_all del: prefix_Cons, blast+)

lemma trim_start_space: "trim_start (CHR '' '' # s) = trim_start s"
proof -
  have "find (\<lambda>w. w \<noteq> [] \<and> prefix w (CHR '' '' # s)) ws_seqs = Some [CHR '' '']"
    by (simp add: ws_seqs_eval)
  then show ?thesis by (subst trim_start.simps) simp
qed

lemma split_ws_words: "list_all word ws \<Longrightarrow> split_whitespace (join_with [CHR '' ''] ws) = ws"
proof (induction "[CHR '' '']" ws rule: join_with.induct)
  case 1
  have "trim_start [] = []" using trim_start_shorter [of "[]"] by simp
  then show ?case by (simp add: split_whitespace.simps)
next
  case (2 p)
  obtain c t where p: "p = c # t" "graphic c" using 2 by (cases p) (auto simp: word_def)
  have "split_whitespace [] = []" using trim_start_shorter [of "[]"] by (simp add: split_whitespace.simps)
  then show ?case using 2 p take_word_graphic(2) [of p]
    by (subst split_whitespace.simps) (simp add: trim_start_graphic word_def)
next
  case (3 p q ps)
  obtain c t where p: "p = c # t" "graphic c" using 3 by (cases p) (auto simp: word_def)
  let ?r = "join_with [CHR '' ''] (q # ps)"
  have "split_whitespace (CHR '' '' # ?r) = split_whitespace ?r"
    by (subst (1 2) split_whitespace.simps) (simp add: trim_start_space)
  moreover have "take_word (p @ CHR '' '' # ?r) = (p, CHR '' '' # ?r)"
    using 3 by (intro take_word_graphic(1)) (simp add: word_def)
  ultimately show ?case using 3 p
    by (subst split_whitespace.simps) (simp add: trim_start_graphic)
qed

section \<open>What a user types\<close>

definition param_text :: "string \<times> string \<Rightarrow> string" where
  "param_text kv = fst kv @ ''='' @ snd kv"

definition assignment_text :: "string \<times> nat \<times> nat \<Rightarrow> string" where
  "assignment_text a = (case a of (p, s, e) \<Rightarrow> p @ '':'' @ show_nat s @ ''-'' @ show_nat e)"

definition line :: "string \<Rightarrow> string list \<Rightarrow> string" where
  "line p ws = p @ join_with [CHR '' ''] ws"

definition cmd_text :: "UserCommand \<Rightarrow> string" where
  "cmd_text cmd =
     (case cmd of
        Uc_Execute c ps \<Rightarrow> line ''exec '' (c # map param_text ps)
      | Uc_Run _ m \<Rightarrow> line ''run '' [m]
      | Uc_Cancel j \<Rightarrow> line ''cancel '' [show_u64 j]
      | Uc_Quit \<Rightarrow> ''quit''
      | Uc_DisplayPeer \<Rightarrow> ''dp''
      | Uc_SetDevice d \<Rightarrow> line ''set-device '' [d]
      | Uc_DistributeModel m ps \<Rightarrow> line ''distribute '' (m # map assignment_text ps)
      | Uc_List \<Rightarrow> ''ls''
      | Uc_Send f p \<Rightarrow> line ''send '' [f, p]
      | Uc_Profile m \<Rightarrow> line ''profile '' [m]
      | Uc_Help \<Rightarrow> ''help''
      | Uc_Flush \<Rightarrow> ''flush''
      | Uc_SetName n \<Rightarrow> line ''set-name '' [n]
      | Uc_Reload \<Rightarrow> ''reload''
      | Uc_Session m \<Rightarrow> line ''session create '' [m]
      | Uc_SessionInference c s m \<Rightarrow> line ''session inference '' [c, show_u64 s, m]
      | Uc_Api s \<Rightarrow> line ''api '' [show_u64 s]
      | Uc_ExecRemote p c ps \<Rightarrow> line ''rexec '' (p # c # map param_text ps)
      | Uc_Dial a \<Rightarrow> line ''dial '' [a])"

text \<open>The commands that can be typed: their words are printable ASCII; a parameter's key has no equals sign.\<close>

definition params_ok :: "params \<Rightarrow> bool" where
  "params_ok ps \<longleftrightarrow> distinct (map fst ps) \<and>
     list_all (\<lambda>(k, v). list_all graphic k \<and> CHR ''='' \<notin> set k \<and> list_all graphic v) ps"

definition typeable :: "(string \<Rightarrow> string) \<Rightarrow> UserCommand \<Rightarrow> bool" where
  "typeable lower cmd \<longleftrightarrow>
     (case cmd of
        Uc_Execute c ps \<Rightarrow> word c \<and> params_ok ps
      | Uc_Run script m \<Rightarrow> script = [] \<and> word m
      | Uc_Quit \<Rightarrow> False
      | Uc_SetDevice d \<Rightarrow> word d \<and> lower d = d \<and> (d = ''cpu'' \<or> d = ''cuda'' \<or> prefix ''cuda:'' d)
      | Uc_DistributeModel m ps \<Rightarrow> word m \<and> ps \<noteq> [] \<and>
          list_all (\<lambda>(p, s, e). list_all graphic p \<and> s \<le> USIZE_MAX \<and> e \<le> USIZE_MAX) ps
      | Uc_Send f p \<Rightarrow> word f \<and> word p
      | Uc_Profile m \<Rightarrow> word m
      | Uc_SetName n \<Rightarrow> word n
      | Uc_Session m \<Rightarrow> word m
      | Uc_SessionInference c s m \<Rightarrow> word c \<and> word m
      | Uc_ExecRemote p c ps \<Rightarrow> word p \<and> word c \<and> params_ok ps
      | Uc_Dial a \<Rightarrow> word a
      | _ \<Rightarrow> True)"

lemma graphic_show_nat: "list_all graphic (show_nat n)"
proof -
  have "graphic (digit_char d)" if "d < 10" for d using that by (auto simp: graphic_def digit_char_def)
  then show ?thesis using set_show_nat [of n] by (auto simp: list_all_iff)
qed

lemma word_show_u64 [simp]: "word (show_u64 w)"
  by (simp add: word_def show_u64_def graphic_show_nat)

lemma parse_id_show [simp]: "parse_id msg (show_u64 w) = Inr w"
proof -
  have "parse_uint 18446744073709551615 (show_u64 w) = Inr (unat w)"
    unfolding show_u64_def using unat_u64_less [of w] by (intro parse_uint_show) simp
  then show ?thesis by (simp add: parse_id_def)
qed

lemma not_word_Nil [simp]: "\<not> word []"
  by (simp add: word_def)

lemma split_two_words: "word a \<Longrightarrow> word b \<Longrightarrow> split_whitespace (a @ CHR '' '' # b) = [a, b]"
  using split_ws_words [of "[a, b]"] by simp

lemma split_three_words: "word a \<Longrightarrow> word b \<Longrightarrow> word c \<Longrightarrow> split_whitespace (a @ CHR '' '' # b @ CHR '' '' # c) = [a, b, c]"
  using split_ws_words [of "[a, b, c]"] by simp

lemma join_last: "ws \<noteq> [] \<Longrightarrow> list_all word ws \<Longrightarrow> join_with [CHR '' ''] ws \<noteq> [] \<and> graphic (last (join_with [CHR '' ''] ws))"
  by (induction "[CHR '' '']" ws rule: join_with.induct) (auto simp: word_def list_all_iff last_append)

text \<open>The names of the argument commands.\<close>

definition argument_names :: "string list" where
  "argument_names =
     [''session create '', ''api '', ''API '', ''session inference '', ''run '', ''cancel '', ''set-device '', ''set-name '',
      ''send '', ''distribute '', ''pipeline '', ''profile '', ''dial '', ''exec '', ''rexec '']"

lemma argument_names_fst: "map fst (argument_commands lower) = argument_names"
  by (simp add: argument_names_def argument_commands_def)

lemma argument_names_ok:
  "list_all (\<lambda>p. p \<noteq> [] \<and> graphic (hd p) \<and> CHR '' '' \<in> set p) argument_names" "distinct argument_names"
  "list_all (\<lambda>p. list_all (\<lambda>q. p \<noteq> q \<longrightarrow> \<not> prefix p q) argument_names) argument_names"
  by code_simp+

lemma find_argument:
  assumes "(p, f) \<in> set (argument_commands lower)"
  shows "find (\<lambda>(q, _). prefix q (p @ r)) (argument_commands lower) = Some (p, f)"
proof (rule find_unique [OF assms])
  fix qg assume q: "qg \<in> set (argument_commands lower)" "case qg of (q, _) \<Rightarrow> prefix q (p @ r)"
  obtain q g where qg: "qg = (q, g)" by force
  have m: "p \<in> set argument_names" "q \<in> set argument_names"
    using assms q(1) unfolding argument_names_fst [symmetric, of lower] qg by force+
  have "prefix q (p @ r)" "prefix p (p @ r)" using q(2) qg by simp_all
  then have "prefix p q \<or> prefix q p" using prefix_same_cases by blast
  then have "q = p" using argument_names_ok(3) m by (auto simp: list_all_iff)
  moreover have "distinct (map fst (argument_commands lower))" using argument_names_ok(2) by (simp only: argument_names_fst)
  ultimately show "qg = (p, f)" using assms q(1) qg by (metis eq_key_imp_eq_value)
qed simp

lemma argument_line:
  assumes "(p, f) \<in> set (argument_commands lower)" "ws \<noteq> []" "list_all word ws"
  shows "parse_user_command lower (line p ws) = f (join_with [CHR '' ''] ws)"
proof -
  define r where "r = join_with [CHR '' ''] ws"
  have r: "r \<noteq> []" "graphic (last r)" using join_last [OF assms(2,3)] by (simp_all add: r_def)
  have "p \<in> set argument_names" using assms(1) unfolding argument_names_fst [symmetric, of lower] by force
  then have h: "p \<noteq> []" "graphic (hd p)" "CHR '' '' \<in> set p" using argument_names_ok(1) by (simp_all add: list_all_iff)
  have t: "str_trim (p @ r) = p @ r" using h r by (intro trim_ends) simp_all
  have n: "x \<noteq> p @ r" if "CHR '' '' \<notin> set x" for x using that h by auto
  have "CHR '' '' \<notin> \<Union> (set ` ({''quit'', ''exit'', ''clear''} \<union> fst ` set plain_commands))" by code_simp
  then have "p @ r \<noteq> ''quit''" "p @ r \<noteq> ''exit''" "p @ r \<noteq> ''clear''" "p @ r \<notin> fst ` set plain_commands"
    using n by (blast, blast, blast, blast)
  then have "p @ r \<noteq> ''quit''" "p @ r \<noteq> ''exit''" "p @ r \<noteq> ''clear''" "map_of plain_commands (p @ r) = None"
    by (simp_all add: map_of_eq_None_iff)
  then show ?thesis using h t find_argument [OF assms(1), of r] by (simp add: parse_user_command_def line_def r_def)
qed

lemma split_once_first [simp]: "c \<notin> set k \<Longrightarrow> split_once c (k @ c # v) = Some (k, v)"
proof -
  assume "c \<notin> set k"
  then have "takeWhile (\<lambda>x. x \<noteq> c) k = k" "dropWhile (\<lambda>x. x \<noteq> c) k = []"
    by (auto simp: takeWhile_eq_all_conv dropWhile_eq_Nil_conv)
  then show ?thesis
    using \<open>c \<notin> set k\<close> by (simp add: split_once_def takeWhile_append dropWhile_append)
qed

lemma rsplit_once_last: "c \<notin> set v \<Longrightarrow> rsplit_once c (k @ c # v) = Some (k, v)"
  by (simp add: rsplit_once_def)

lemma params_parsed:
  "params_ok ps \<Longrightarrow> fst ` set ps \<inter> fst ` set acc = {} \<Longrightarrow> parse_params (map param_text ps) acc = Inr (acc @ ps)"
proof (induction ps arbitrary: acc)
  case (Cons kv ps)
  obtain k v where kv: "kv = (k, v)" by force
  have k: "CHR ''='' \<notin> set k" "k \<notin> fst ` set ps" "params_ok ps" using Cons.prems(1) by (auto simp: params_ok_def kv)
  have "AList.update k v acc = acc @ [(k, v)]"
    using Cons.prems(2) by (intro update_absent) (auto simp: kv map_of_eq_None_iff)
  then show ?case using Cons.IH [of "acc @ [(k, v)]"] Cons.prems(2) k by (simp add: kv param_text_def)
qed simp

lemma params_words: "params_ok ps \<Longrightarrow> list_all word (map param_text ps)"
  by (auto simp: params_ok_def list_all_iff word_def param_text_def graphic_def)

lemma show_nat_no_sign: "CHR '':'' \<notin> set (show_nat n)" "CHR ''-'' \<notin> set (show_nat n)"
  using show_nat_chars [of _ n] by fastforce+

lemma assignment_parsed:
  "s \<le> USIZE_MAX \<Longrightarrow> e \<le> USIZE_MAX \<Longrightarrow> Parse_Peer_Assignment (assignment_text (p, s, e)) = Inr (p, s, e)"
proof -
  assume b: "s \<le> USIZE_MAX" "e \<le> USIZE_MAX"
  have "rsplit_once (CHR '':'') (p @ CHR '':'' # show_nat s @ CHR ''-'' # show_nat e) = Some (p, show_nat s @ CHR ''-'' # show_nat e)"
    by (rule rsplit_once_last) (simp add: show_nat_no_sign)
  then show ?thesis using b by (simp add: Parse_Peer_Assignment_def assignment_text_def show_nat_no_sign)
qed

lemma assignments_parsed:
  "list_all (\<lambda>(p, s, e). list_all graphic p \<and> s \<le> USIZE_MAX \<and> e \<le> USIZE_MAX) ps \<Longrightarrow>
   parse_assignments (map assignment_text ps) = Inr ps \<and> list_all word (map assignment_text ps)"
proof (induction ps)
  case (Cons a ps)
  obtain p s e where a: "a = (p, s, e)" by (metis prod_cases3)
  have "graphic (CHR '':'')" "graphic (CHR ''-'')" by (simp_all add: graphic_def)
  then have "word (assignment_text a)"
    using Cons.prems graphic_show_nat by (simp add: a assignment_text_def word_def)
  then show ?case using Cons assignment_parsed [of s e p] by (simp add: a)
qed simp

lemma plain_line: "(t, cmd) \<in> set plain_commands \<Longrightarrow> parse_user_command lower t = Inr (Some cmd)"
proof -
  assume m: "(t, cmd) \<in> set plain_commands"
  have "list_all (\<lambda>(t, _). list_all graphic t) plain_commands" "distinct (map fst plain_commands)"
    "\<forall>(t, _) \<in> set plain_commands. t \<noteq> [] \<and> t \<noteq> ''quit'' \<and> t \<noteq> ''exit'' \<and> t \<noteq> ''clear''"
    by (simp_all add: plain_commands_def graphic_def)
  then have "str_trim t = t" "map_of plain_commands t = Some cmd" "t \<noteq> []" "t \<noteq> ''quit''" "t \<noteq> ''exit''" "t \<noteq> ''clear''"
    using m by (auto simp: list_all_iff intro!: str_trim_graphic)
  then show ?thesis by (simp add: parse_user_command_def)
qed

lemmas line_parsers =
  parse_exec_def parse_rexec_def parse_cancel_def parse_api_def parse_session_inference_def parse_send_def
  parse_distribute_def parse_set_device_def nonempty_def

lemma typed_parsed:
  assumes "typeable lower cmd"
  shows "parse_user_command lower (cmd_text cmd) = Inr (Some cmd)"
proof -
  have arg: "parse_user_command lower (line p ws) = f (join_with [CHR '' ''] ws)"
    if "(p, f) \<in> set (argument_commands lower)" "ws \<noteq> []" "list_all word ws" for p f ws
    using that by (rule argument_line)
  note split = split_ws_words
  show ?thesis
  proof (cases cmd)
    case (Uc_Execute c ps)
    have w: "word c" "params_ok ps" using assms by (simp_all add: Uc_Execute typeable_def)
    then have "list_all word (c # map param_text ps)" using params_words by simp
    moreover have "(''exec '', parse_exec) \<in> set (argument_commands lower)" by (simp add: argument_commands_def)
    ultimately have "parse_user_command lower (cmd_text cmd) = parse_exec (join_with [CHR '' ''] (c # map param_text ps))"
      unfolding Uc_Execute cmd_text_def by (simp add: arg)
    then show ?thesis
      using split [of "c # map param_text ps"] w params_words [OF w(2)] params_parsed [OF w(2), of "[]"]
      by (simp add: parse_exec_def word_def Uc_Execute)
  next
    case (Uc_ExecRemote p c ps)
    have w: "word p" "word c" "params_ok ps" using assms by (simp_all add: Uc_ExecRemote typeable_def)
    then have "list_all word (p # c # map param_text ps)" using params_words by simp
    moreover have "(''rexec '', parse_rexec) \<in> set (argument_commands lower)" by (simp add: argument_commands_def)
    ultimately have "parse_user_command lower (cmd_text cmd) = parse_rexec (join_with [CHR '' ''] (p # c # map param_text ps))"
      unfolding Uc_ExecRemote cmd_text_def by (simp add: arg)
    then show ?thesis
      using split [of "p # c # map param_text ps"] w params_words [OF w(3)] params_parsed [OF w(3), of "[]"]
      by (simp add: parse_rexec_def Uc_ExecRemote)
  next
    case (Uc_DistributeModel m ps)
    have w: "word m" "ps \<noteq> []" "parse_assignments (map assignment_text ps) = Inr ps" "list_all word (map assignment_text ps)"
      using assms assignments_parsed by (simp_all add: Uc_DistributeModel typeable_def)
    moreover have "(''distribute '', parse_distribute) \<in> set (argument_commands lower)" by (simp add: argument_commands_def)
    ultimately have "parse_user_command lower (cmd_text cmd) = parse_distribute (join_with [CHR '' ''] (m # map assignment_text ps))"
      unfolding Uc_DistributeModel cmd_text_def by (simp add: arg)
    then show ?thesis
      using split [of "m # map assignment_text ps"] w
      by (cases ps) (simp_all add: parse_distribute_def Uc_DistributeModel)
  qed (use assms in \<open>auto simp: typeable_def cmd_text_def plain_line plain_commands_def argument_commands_def arg
        split_two_words split_three_words line_parsers\<close>)
qed

section \<open>The command line mode\<close>

text \<open>What the line loop gets: a line, the end of the input, or a read error; \<open>open\<close> tells whether the core
  still takes commands. The loop returns the commands the core has got from it and the texts it has
  printed on the error output.\<close>

datatype cli_input = Ci_Line string | Ci_Eof | Ci_Error

fun stdin_repl :: "(string \<Rightarrow> string) \<Rightarrow> bool \<Rightarrow> cli_input list \<Rightarrow> UserCommand list \<times> string list" where
  "stdin_repl lower open [] = ([], [])"
| "stdin_repl lower open (Ci_Eof # ins) = (if open then [Uc_Quit] else [], [])"
| "stdin_repl lower open (Ci_Error # ins) = ([], [])"
| "stdin_repl lower open (Ci_Line l # ins) =
     (let line = str_trim l in
      if line = [] then stdin_repl lower open ins
      else if line = ''quit'' \<or> line = ''exit'' then (if open then [Uc_Quit] else [], [])
      else case parse_user_command lower line of
        Inr (Some cmd) \<Rightarrow>
          if open then (case stdin_repl lower open ins of (cs, es) \<Rightarrow> (cmd # cs, es))
          else ([], [tx_cli_closed])
      | Inr None \<Rightarrow> stdin_repl lower open ins
      | Inl msg \<Rightarrow> (case stdin_repl lower open ins of (cs, es) \<Rightarrow> (cs, msg # es)))"

lemma line_trim: "graphic c \<Longrightarrow> ws \<noteq> [] \<Longrightarrow> list_all word ws \<Longrightarrow> str_trim (line (c # p) ws) = line (c # p) ws"
  using join_last [of ws] by (intro trim_ends) (simp_all add: line_def)

lemma letters_graphic: "list_all graphic ''abcdefghijklmnopqrstuvwxyz''"
  by (simp add: graphic_def)

lemma cmd_text_trim:
  assumes "typeable lower cmd"
  shows "str_trim (cmd_text cmd) = cmd_text cmd"
proof -
  note graphics = letters_graphic [simplified]
  have plain: "str_trim t = t" if "(t, c) \<in> set plain_commands" for t c
    using that graphics by (auto simp: plain_commands_def graphic_def intro!: str_trim_graphic)
  have w: "list_all word (map assignment_text ps)"
    if "list_all (\<lambda>(p, s, e). list_all graphic p \<and> s \<le> USIZE_MAX \<and> e \<le> USIZE_MAX) ps" for ps
    using assignments_parsed [OF that] by simp
  show ?thesis
  proof (cases cmd)
    case Uc_Quit
    then show ?thesis using assms by (simp add: typeable_def)
  qed (use assms w params_words in \<open>simp add: typeable_def cmd_text_def line_trim graphics plain [of _ cmd] plain_commands_def\<close>)+
qed

lemma cmd_text_no_local:
  assumes "typeable lower cmd"
  shows "cmd_text cmd \<noteq> []" "cmd_text cmd \<noteq> ''quit''" "cmd_text cmd \<noteq> ''exit''"
  using typed_parsed [OF assms] cmd_text_trim [OF assms] by (auto simp: parse_user_command_def Let_def split: if_splits)

text \<open>C18: Every command the parser knows can be typed, and what is typed for it is read as this command, with
  its words, numbers, layer assignments and parameters as they were: the core gets from the command line
  exactly the commands typed there, in order, then the quit request, and nothing that follows.
\<close>

theorem typed_session:
  assumes "list_all (typeable lower) cmds"
  shows "stdin_repl lower True (map (Ci_Line \<circ> cmd_text) cmds @ Ci_Line ''quit'' # rest) = (cmds @ [Uc_Quit], [])"
  using assms
proof (induction cmds)
  case Nil
  have "str_trim ''quit'' = ''quit''" by (rule str_trim_graphic) (simp add: graphic_def)
  then show ?case by simp
next
  case (Cons cmd cmds)
  then show ?case using cmd_text_trim [of lower cmd] cmd_text_no_local [of lower cmd] typed_parsed [of lower cmd] by simp
qed

theorem typed_session_witness:
  "stdin_repl id True (map (Ci_Line \<circ> cmd_text) [Uc_ExecRemote ''n1'' ''run'' [(''model'', ''a=b'')], Uc_Cancel 7] @ Ci_Line ''quit'' # [Ci_Eof]) =
     ([Uc_ExecRemote ''n1'' ''run'' [(''model'', ''a=b'')], Uc_Cancel 7] @ [Uc_Quit], []) \<and>
   cmd_text (Uc_ExecRemote ''n1'' ''run'' [(''model'', ''a=b'')]) = ''rexec n1 run model=a=b''"
  by (rule conjI, rule typed_session)
    (simp_all add: typeable_def params_ok_def word_def graphic_def cmd_text_def line_def param_text_def)

end
