(* ===== verification/Terminal.thy ===== *)
theory Terminal
  imports User_Commands
begin

text \<open>
  The terminal interface: its state and the operations on it (\<open>Src/TUI/app.rs\<close>), the handling of bus
  events, keys, the mouse and command lines, and the loop around them (\<open>Src/TUI/mod.rs\<close>). Drawing is the
  terminal library's. A slice or an insertion outside the character boundaries of a text panics, which
  is the result \<open>None\<close>.
\<close>

section \<open>State\<close>

text \<open>Floats are their bits. An area is its first row and its height.\<close>

datatype View_Mode = Vm_Idle | Vm_Busy | Vm_Busy_Coordinator

datatype Transfer_Direction = Td_Send | Td_Receive

datatype Job_State =
    Js_Idle
  | Js_File_Transfer Transfer_Direction string string u64 u64
  | Js_Inference string nat string string

record Command_Output =
  co_text :: string
  co_token_count :: nat
  co_tok_per_sec :: u64
  co_total_secs :: u64
  co_completed :: bool

record ModelDisplay =
  md_file_name :: string
  md_layer_range :: string

record SessionDisplay =
  sd_session_id :: u64
  sd_model_id :: string
  sd_slots :: string

record Peer_Display =
  pd_name :: string
  pd_peer_id :: string
  pd_is_local :: bool
  pd_connected :: bool
  pd_models :: "ModelDisplay list"
  pd_sessions :: "SessionDisplay list"

record App =
  ap_view_mode :: View_Mode
  ap_device :: string
  ap_logs :: "string list"
  ap_log_scroll :: nat
  ap_peers :: "Peer_Display list"
  ap_job :: Job_State
  ap_output :: Command_Output
  ap_command_scroll :: nat
  ap_input_buffer :: string
  ap_cursor :: nat
  ap_active_job :: "u64 option"
  ap_should_quit :: bool
  ap_commands :: "string list"
  ap_log_area :: "u16 \<times> u16"
  ap_command_area :: "u16 \<times> u16"

definition Command_Output_New :: Command_Output where
  "Command_Output_New = \<lparr>co_text = [], co_token_count = 0, co_tok_per_sec = 0, co_total_secs = 0, co_completed = False\<rparr>"

definition App_New :: App where
  "App_New = \<lparr>ap_view_mode = Vm_Idle, ap_device = ''cpu'', ap_logs = [], ap_log_scroll = 0, ap_peers = [], ap_job = Js_Idle,
     ap_output = Command_Output_New, ap_command_scroll = 0, ap_input_buffer = [], ap_cursor = 0, ap_active_job = None,
     ap_should_quit = False, ap_commands = [], ap_log_area = (0, 0), ap_command_area = (0, 0)\<rparr>"

section \<open>Operations\<close>

text \<open>The environment: the time of day as shown, \<open>serde_json\<close> (an error has its text), \<open>as_f64\<close>, \<open>{:.1}\<close> of a
  float, and \<open>to_uppercase\<close> and \<open>to_lowercase\<close>.\<close>

record tui_env =
  te_time :: string
  te_parse :: "string \<Rightarrow> string + json"
  te_f64 :: "json \<Rightarrow> u64 option"
  te_fixed1 :: "u64 \<Rightarrow> string"
  te_upper :: "string \<Rightarrow> string"
  te_lower :: "string \<Rightarrow> string"

definition Add_Log :: "tui_env \<Rightarrow> string \<Rightarrow> App \<Rightarrow> App" where
  "Add_Log te msg a =
     (let logs = ap_logs a @ [''['' @ te_time te @ ''] '' @ msg] in
      a\<lparr>ap_logs := logs, ap_log_scroll := if length logs > 50 then length logs - 50 else ap_log_scroll a\<rparr>)"

definition peer_position :: "string \<Rightarrow> Peer_Display list \<Rightarrow> nat" where
  "peer_position peer_id ps = length (takeWhile (\<lambda>p. pd_peer_id p \<noteq> peer_id) ps)"

definition Update_Peer :: "string \<Rightarrow> string \<Rightarrow> bool \<Rightarrow> bool \<Rightarrow> App \<Rightarrow> App" where
  "Update_Peer peer_id name is_local connected a =
     (let ps = ap_peers a; pos = peer_position peer_id ps;
          fresh = \<lparr>pd_name = name, pd_peer_id = peer_id, pd_is_local = is_local, pd_connected = connected,
            pd_models = [], pd_sessions = []\<rparr>
      in if pos < length ps then
           (let p = (ps ! pos)\<lparr>pd_connected := connected, pd_is_local := is_local\<rparr>;
                p = (if name \<noteq> [] then p\<lparr>pd_name := name\<rparr> else p)
            in if is_local \<and> pos \<noteq> 0 then a\<lparr>ap_peers := p # take pos ps @ drop (pos + 1) ps\<rparr>
               else a\<lparr>ap_peers := ps[pos := p]\<rparr>)
         else if is_local then a\<lparr>ap_peers := fresh # ps\<rparr>
         else a\<lparr>ap_peers := ps @ [fresh]\<rparr>)"

definition modify_peer :: "string \<Rightarrow> (Peer_Display \<Rightarrow> Peer_Display) \<Rightarrow> App \<Rightarrow> App" where
  "modify_peer peer_id f a =
     (let ps = ap_peers a; pos = peer_position peer_id ps in
      if pos < length ps then a\<lparr>ap_peers := ps[pos := f (ps ! pos)]\<rparr> else a)"

definition Update_Peer_Models :: "string \<Rightarrow> ModelDisplay list \<Rightarrow> App \<Rightarrow> App" where
  "Update_Peer_Models peer_id ms = modify_peer peer_id (\<lambda>p. p\<lparr>pd_models := ms\<rparr>)"

definition Update_Peer_Sessions :: "string \<Rightarrow> SessionDisplay list \<Rightarrow> App \<Rightarrow> App" where
  "Update_Peer_Sessions peer_id ss = modify_peer peer_id (\<lambda>p. p\<lparr>pd_sessions := ss\<rparr>)"

definition Remove_Peer :: "string \<Rightarrow> App \<Rightarrow> App" where
  "Remove_Peer peer_id a = a\<lparr>ap_peers := filter (\<lambda>p. pd_peer_id p \<noteq> peer_id) (ap_peers a)\<rparr>"

definition Scroll_Up :: "App \<Rightarrow> App" where
  "Scroll_Up a = (if ap_log_scroll a > 0 then a\<lparr>ap_log_scroll := ap_log_scroll a - 1\<rparr> else a)"

definition Scroll_Down :: "App \<Rightarrow> App" where
  "Scroll_Down a = (if ap_log_scroll a < length (ap_logs a) - 1 then a\<lparr>ap_log_scroll := ap_log_scroll a + 1\<rparr> else a)"

definition Scroll_Command_Up :: "App \<Rightarrow> App" where
  "Scroll_Command_Up a = (if ap_command_scroll a > 0 then a\<lparr>ap_command_scroll := ap_command_scroll a - 1\<rparr> else a)"

definition Scroll_Command_Down :: "App \<Rightarrow> App" where
  "Scroll_Command_Down a = a\<lparr>ap_command_scroll := min (ap_command_scroll a + 1) USIZE_MAX\<rparr>"

text \<open>A character is its UTF-8 bytes. \<open>String::insert\<close> panics when the position is no boundary.\<close>

definition Input_Char :: "string \<Rightarrow> App \<Rightarrow> App option" where
  "Input_Char c a =
     (let s = ap_input_buffer a; i = ap_cursor a in
      if char_boundary s i
      then Some (a\<lparr>ap_input_buffer := take i s @ c @ drop i s, ap_cursor := i + length c\<rparr>) else None)"

text \<open>The start of the last character of a text.\<close>

definition last_char_start :: "string \<Rightarrow> nat" where
  "last_char_start s = length s - length (takeWhile (\<lambda>c. cont_byte (of_char c)) (rev s)) - 1"

definition nats_of :: "string \<Rightarrow> nat list" where
  "nats_of s = map of_char s"

definition Delete_Char :: "App \<Rightarrow> App option" where
  "Delete_Char a =
     (let s = ap_input_buffer a; i = ap_cursor a in
      if i > 0 then
        (case str_slice s 0 i of
           None \<Rightarrow> None
         | Some pre \<Rightarrow>
             let prev = last_char_start pre; w = utf8_len (nats_of (drop prev s)) in
             if w = 0 then None else Some (a\<lparr>ap_input_buffer := take prev s @ drop (prev + w) s, ap_cursor := prev\<rparr>))
      else Some a)"

definition Clear_Input :: "App \<Rightarrow> App" where
  "Clear_Input a = a\<lparr>ap_input_buffer := [], ap_cursor := 0\<rparr>"

definition Take_Input :: "App \<Rightarrow> string \<times> App" where
  "Take_Input a = (ap_input_buffer a, Clear_Input a)"

definition set_available_commands :: "string list \<Rightarrow> App \<Rightarrow> App" where
  "set_available_commands cs a = a\<lparr>ap_commands := cs\<rparr>"

section \<open>Bus events\<close>

datatype tui_event = Te_Notify NotifyLevel string | Te_State string | Te_Stream string | Te_Output string

text \<open>\<open>v[key]\<close>, \<open>v.get(key)\<close> and the conversions of a JSON value.\<close>

definition jget :: "string \<Rightarrow> json \<Rightarrow> json option" where
  "jget k v = (case v of J_Obj fs \<Rightarrow> map_of fs k | _ \<Rightarrow> None)"

definition jat :: "json \<Rightarrow> string \<Rightarrow> json" where
  "jat v k = unwrap_or J_Null (jget k v)"

definition as_str :: "json \<Rightarrow> string option" where
  "as_str v = (case v of J_Str s \<Rightarrow> Some s | _ \<Rightarrow> None)"

definition as_bool :: "json \<Rightarrow> bool option" where
  "as_bool v = (case v of J_Bool b \<Rightarrow> Some b | _ \<Rightarrow> None)"

definition as_u64 :: "json \<Rightarrow> u64 option" where
  "as_u64 v = (case v of J_Num n \<Rightarrow> if n < 18446744073709551616 then Some (of_nat n) else None | _ \<Rightarrow> None)"

definition str_or :: "string \<Rightarrow> json \<Rightarrow> string \<Rightarrow> string" where
  "str_or d v k = unwrap_or d (as_str (jat v k))"

definition u64_or :: "u64 \<Rightarrow> json \<Rightarrow> string \<Rightarrow> u64" where
  "u64_or d v k = unwrap_or d (as_u64 (jat v k))"

definition parse_one_model :: "json \<Rightarrow> ModelDisplay option" where
  "parse_one_model v =
     Option.bind (Option.bind (jget ''file_name'' v) as_str) (\<lambda>file_name.
     Some \<lparr>md_file_name = file_name, md_layer_range = unwrap_or ''?'' (Option.bind (jget ''layer_range'' v) as_str)\<rparr>)"

definition parse_models_json :: "(string \<Rightarrow> string + json) \<Rightarrow> json option \<Rightarrow> ModelDisplay list" where
  "parse_models_json parse v =
     (case v of
        Some (J_Arr a) \<Rightarrow> List.map_filter parse_one_model a
      | Some (J_Str s) \<Rightarrow> (case parse s of Inr (J_Arr a) \<Rightarrow> List.map_filter parse_one_model a | _ \<Rightarrow> [])
      | _ \<Rightarrow> [])"

definition parse_one_session :: "json \<Rightarrow> SessionDisplay option" where
  "parse_one_session v =
     Option.bind (Option.bind (jget ''session_id'' v) as_u64) (\<lambda>sid.
     Option.bind (Option.bind (jget ''model_id'' v) as_str) (\<lambda>mid.
     Option.bind (Option.bind (jget ''occupied_slots'' v) as_u64) (\<lambda>occupied.
     Option.bind (Option.bind (jget ''total_slots'' v) as_u64) (\<lambda>slots.
     Some \<lparr>sd_session_id = sid, sd_model_id = mid, sd_slots = show_u64 occupied @ ''/'' @ show_u64 slots\<rparr>))))"

definition parse_sessions_json :: "json option \<Rightarrow> SessionDisplay list" where
  "parse_sessions_json v = (case v of Some (J_Arr a) \<Rightarrow> List.map_filter parse_one_session a | _ \<Rightarrow> [])"

end
