(* ===== verification/Panels.thy ===== *)
theory Panels
  imports Terminal
begin

text \<open>
  What the panels of the terminal show (\<open>Src/TUI/command_panel.rs\<close>, \<open>log_panel.rs\<close>, \<open>job_panel.rs\<close>,
  \<open>network_panel.rs\<close>): texts, colours that carry meaning, and the line count that bounds the scroll
  position. Placing them on the screen is the terminal library's. Cutting an identifier within a character
  panics, which is \<open>None\<close>.
\<close>

section \<open>Lines of a text\<close>

text \<open>\<open>str::lines\<close>: a line break may be preceded by a carriage return, and the text after the last one
  counts when it is not empty.\<close>

definition strip_cr :: "string \<Rightarrow> string" where
  "strip_cr s = (if s \<noteq> [] \<and> last s = CHR 0x0D then butlast s else s)"

definition str_lines :: "string \<Rightarrow> string list" where
  "str_lines s = (let ps = split_on (CHR 0x0A) s in map strip_cr (butlast ps) @ (if last ps = [] then [] else [last ps]))"

definition char_count :: "string \<Rightarrow> nat" where
  "char_count s = length (filter (\<lambda>c. \<not> cont_byte (of_char c)) s)"

definition Estimate_Visual_Line_Count :: "string \<Rightarrow> nat \<Rightarrow> nat" where
  "Estimate_Visual_Line_Count txt width =
     (if width = 0 then 1
      else if str_lines txt = [] then 1
      else sum_list (map (\<lambda>l. if char_count l = 0 then 1 else (char_count l + width - 1) div width) (str_lines txt)))"

section \<open>The command panel\<close>

definition panel_text :: "Command_Output \<Rightarrow> string" where
  "panel_text out =
     (if co_text out = [] then utf8 [231, 173, 137, 229, 190, 133, 230, 142, 168, 231, 144, 134, 232, 190, 147, 229, 135, 186] @ ''...''
      else if \<not> co_completed out then co_text out @ utf8 [226, 150, 136] else co_text out)"

definition tx_p_bar :: string where
  "tx_p_bar = '' '' @ utf8 [226, 148, 130] @ '' ''"

text \<open>The status line, span by span.\<close>

definition status_line :: "tui_env \<Rightarrow> Command_Output \<Rightarrow> string list" where
  "status_line te out =
     (let tok = show_nat (co_token_count out) @ '' tok''; bar = tx_p_bar; spd = te_fixed1 te (co_tok_per_sec out) @ '' tok/s'';
          secs = te_fixed1 te (co_total_secs out) @ ''s''
      in if co_completed out then 
          [utf8 [226, 156, 147] @ '' '', tok, bar, spd, bar, utf8 [230, 128, 187, 232, 128, 151, 230, 151, 182] @ '' '' @ secs]
        else [tok, bar, spd, bar, secs])"

section \<open>The log panel\<close>

datatype colour = Co_Red | Co_Green | Co_Yellow | Co_White | Co_Cyan

definition contains :: "string \<Rightarrow> string \<Rightarrow> bool" where
  "contains s t = list_ex (\<lambda>i. prefix t (drop i s)) [0..<Suc (length s)]"

definition log_colour :: "string \<Rightarrow> colour" where
  "log_colour l =
     (if contains l (''['' @ utf8 [233, 148, 153, 232, 175, 175] @ '']'') \<or> contains l ''ERROR'' \<or> contains l (utf8 [229, 164, 177, 232, 180, 165]) then Co_Red
      else if contains l (utf8 [226, 156, 147]) \<or> contains l (utf8 [229, 174, 140, 230, 136, 144]) then Co_Green
      else if contains l (utf8 [232, 173, 166, 229, 145, 138]) \<or> contains l ''WARN'' then Co_Yellow
      else Co_White)"

section \<open>The job panel\<close>

text \<open>\<open>s[..8]\<close> and the last four bytes, as both panels cut identifiers.\<close>

definition cut_id :: "string \<Rightarrow> string option" where
  "cut_id s =
     Option.bind (str_slice s 0 8) (\<lambda>a. Option.bind (str_slice s (length s - 4) (length s)) (\<lambda>b. Some (a @ ''...'' @ b)))"

definition peer_short :: "string \<Rightarrow> string option" where
  "peer_short peer = (if length peer > 12 then cut_id peer else Some peer)"

definition inference_info :: "tui_env \<Rightarrow> string \<Rightarrow> nat \<Rightarrow> string \<Rightarrow> string \<Rightarrow> string \<Rightarrow> string" where
  "inference_info te model n lrange phase dev =
     (let d = te_upper te dev in
      if n > 1 then ''  '' @ model @ tx_p_bar @ show_nat n @ utf8 [229, 143, 176, 232, 174, 190, 229, 164, 135] @ tx_p_bar @ lrange @ tx_p_bar @ d @ tx_p_bar @ utf8 [233, 152, 182, 230, 174, 181] @ '': '' @ phase
      else ''  '' @ model @ tx_p_bar @ lrange @ tx_p_bar @ d @ tx_p_bar @ utf8 [233, 152, 182, 230, 174, 181] @ '': '' @ phase)"

text \<open>The text of the panel: its line when no file is transferred, else the title of the progress bar.\<close>

definition job_text :: "tui_env \<Rightarrow> string \<Rightarrow> Job_State \<Rightarrow> string option" where
  "job_text te dev j =
     (case j of
        Js_Idle \<Rightarrow> Some (''  '' @ utf8 [231, 138, 182, 230, 128, 129] @ '': '' @ utf8 [231, 169, 186, 233, 151, 178] @ tx_p_bar @ utf8 [232, 174, 190, 229, 164, 135] @ '': '' @ te_upper te dev)
      | Js_Inference m n r p \<Rightarrow> Some (inference_info te m n r p dev)
      | Js_File_Transfer d f peer _ _ \<Rightarrow>
          map_option (\<lambda>p.
            '' '' @ utf8 [226, 154, 153, 239, 184, 143] @ '' Job: '' @ 
            (case d of Td_Send \<Rightarrow> utf8 [240, 159, 147, 164] @ '' '' @ utf8 [229, 143, 145, 233, 128, 129] | Td_Receive \<Rightarrow> utf8 [240, 159, 147, 165] @ '' '' @ utf8 [230, 142, 165, 230, 148, 182]) @ '' '' @ f @ '' '' @ utf8 [226, 134, 146] @ '' '' @ p @ '' '') (peer_short peer))"

section \<open>The network panel\<close>

definition Truncate_Peer_Id :: "string \<Rightarrow> string option" where
  "Truncate_Peer_Id s = (if length s > 16 then cut_id s else Some s)"

definition display_name :: "Peer_Display \<Rightarrow> string option" where
  "display_name p =
     (if pd_name p = [] then Truncate_Peer_Id (pd_peer_id p)
      else map_option (\<lambda>s. pd_name p @ ''#'' @ s)
        (if length (pd_peer_id p) \<ge> 4 then str_slice (pd_peer_id p) (length (pd_peer_id p) - 4) (length (pd_peer_id p))
         else Some (pd_peer_id p)))"

definition peer_icon :: "Peer_Display \<Rightarrow> string \<times> colour" where
  "peer_icon p =
     (if pd_is_local p then (utf8 [240, 159, 143, 160], Co_Cyan)
      else if pd_connected p then (utf8 [226, 151, 143], Co_Green) else (utf8 [226, 151, 139], Co_Red))"

definition peer_status :: "Peer_Display \<Rightarrow> string" where
  "peer_status p =
     (if pd_is_local p then utf8 [230, 156, 172, 230, 156, 186]
      else if pd_connected p then utf8 [229, 183, 178, 232, 191, 158, 230, 142, 165]
      else utf8 [229, 183, 178, 230, 150, 173, 229, 188, 128])"

definition model_line :: "ModelDisplay \<Rightarrow> string" where
  "model_line m = ''    '' @ md_file_name m @ '' ['' @ md_layer_range m @ '']''"

definition session_line :: "SessionDisplay \<Rightarrow> string" where
  "session_line s = ''    session '' @ show_u64 (sd_session_id s) @ '' ('' @ sd_model_id s @ '') [slots '' @ sd_slots s @ '']''"

definition peer_lines :: "Peer_Display \<Rightarrow> string list option" where
  "peer_lines p =
     map_option (\<lambda>n. (''  '' @ fst (peer_icon p) @ '' '' @ n @ '' '' @ peer_status p) # map model_line (pd_models p) @ map session_line (pd_sessions p))
       (display_name p)"

definition network_lines :: "Peer_Display list \<Rightarrow> string list option" where
  "network_lines ps =
     (if ps = [] then Some [''  '' @ utf8 [231, 173, 137, 229, 190, 133, 232, 138, 130, 231, 130, 185, 232, 191, 158, 230, 142, 165] @ ''...'']
      else map_option concat (those (map peer_lines ps)))"

end
