(* ===== verification/Terminal_Events.thy ===== *)
theory Terminal_Events
  imports Panels
begin

text \<open>
  What the terminal interface does with what reaches it (\<open>Src/TUI/mod.rs\<close>): the events of the bus, keys,
  the mouse, the lines typed, and the loop that takes them in turn; drawing only counts for what it
  changes of the state and for the identifiers it cuts. Commands for the core are returned in the order they are sent. A panic is \<open>None\<close>.
\<close>

unbundle bit_operations_syntax

section \<open>Events of the bus\<close>

definition hex_layers :: "u8 list \<Rightarrow> nat list" where
  "hex_layers bs = concat (map (\<lambda>i. map (\<lambda>b. i * 8 + b) (filter (\<lambda>b. (bs ! i) AND push_bit b 1 \<noteq> 0) [0..<8])) [0..<length bs])"

fun hex_bytes :: "string \<Rightarrow> nat \<Rightarrow> nat \<Rightarrow> u8 list option option" where
  "hex_bytes hex i 0 = Some (Some [])"
| "hex_bytes hex i (Suc n) =
     (case str_slice hex (i * 2) (i * 2 + 2) of
        None \<Rightarrow> None
      | Some p \<Rightarrow>
          (case u8_from_hex p of
             Inl _ \<Rightarrow> Some None
           | Inr b \<Rightarrow>
               (case hex_bytes hex (Suc i) n of
                  None \<Rightarrow> None
                | Some None \<Rightarrow> Some None
                | Some (Some bs) \<Rightarrow> Some (Some (b # bs)))))"

text \<open>The outer option is the panic, the inner one the function's own.\<close>

definition bitmap_hex_to_layer_range :: "string \<Rightarrow> string option option" where
  "bitmap_hex_to_layer_range hex =
     (if length hex < 64 then Some None
      else map_option (\<lambda>r. Option.bind r (\<lambda>bs.
             case hex_layers bs of [] \<Rightarrow> None | l # ls \<Rightarrow> Some (join_with '','' (map show_run (layer_runs l l ls)))))
           (hex_bytes hex 0 32))"

definition job_label :: "u64 \<Rightarrow> string" where
  "job_label j = ''Job #'' @ show_u64 j"

definition label_or :: "string \<Rightarrow> string \<Rightarrow> string" where
  "label_or name peer_id = (if name = [] then peer_id else name)"

definition set_phase :: "string \<Rightarrow> Job_State \<Rightarrow> Job_State" where
  "set_phase phase j = (case j of Js_Inference m d l _ \<Rightarrow> Js_Inference m d l phase | _ \<Rightarrow> j)"

definition peer_info_updated :: "tui_env \<Rightarrow> json \<Rightarrow> App \<Rightarrow> App" where
  "peer_info_updated te v a =
     (let p = str_or ''?'' v ''peer_id''; name = str_or [] v ''peer_name'';
          a = Update_Peer p name (unwrap_or False (as_bool (jat v ''is_local''))) True a;
          a = Update_Peer_Models p (parse_models_json (te_parse te) (jget ''models'' v)) a;
          a = Update_Peer_Sessions p (parse_sessions_json (jget ''sessions'' v)) a
      in if name \<noteq> [] then Add_Log te (tx_t_info @ name) a else a)"

definition job_created_msg :: "json \<Rightarrow> string" where
  "job_created_msg v =
     (let kind = str_or ''?'' v ''kind''; model = str_or [] v ''model''
      in job_label (u64_or 0 v ''job_id'') @ tx_t_created @ kind @ (if model = [] then '']'' else tx_t_model @ model))"

definition inference_started :: "tui_env \<Rightarrow> json \<Rightarrow> App \<Rightarrow> App" where
  "inference_started te v a =
     (let m = str_or ''?'' v ''model''; d = unat (u64_or 1 v ''devices''); l = str_or ''?'' v ''layers''
      in Add_Log te (tx_t_inf_start @ m @ '' ['' @ l @ '']'') (a\<lparr>ap_job := Js_Inference m d l tx_t_init, ap_view_mode := Vm_Busy\<rparr>))"

definition inference_completed :: "tui_env \<Rightarrow> json \<Rightarrow> App \<Rightarrow> App" where
  "inference_completed te v a =
     (let n = unat (u64_or 0 v ''tokens''); s = unwrap_or 0 (te_f64 te (jat v ''tok_per_sec''));
          t = unwrap_or 0 (te_f64 te (jat v ''total_secs''))
      in Add_Log te (tx_t_inf_done @ show_nat n @ '' tokens, '' @ te_fixed1 te s @ '' tok/s, '' @ te_fixed1 te t @ ''s'')
           (a\<lparr>ap_output := \<lparr>co_text = str_or [] v ''text'', co_token_count = n, co_tok_per_sec = s, co_total_secs = t, co_completed = True\<rparr>,
              ap_job := Js_Idle\<rparr>))"

definition job_completed :: "tui_env \<Rightarrow> json \<Rightarrow> App \<Rightarrow> App" where
  "job_completed te v a =
     (let a = Add_Log te (job_label (u64_or 0 v ''job_id'') @ tx_t_completed @ str_or ''?'' v ''result'') a
      in if ap_view_mode a \<noteq> Vm_Busy_Coordinator then a\<lparr>ap_job := Js_Idle, ap_view_mode := Vm_Idle\<rparr> else a)"

definition handle_state :: "tui_env \<Rightarrow> json \<Rightarrow> App \<Rightarrow> App" where
  "handle_state te v a =
     (let t = as_str (jat v ''type''); p = str_or ''?'' v ''peer_id''; name = str_or [] v ''peer_name'' in
      if t = Some ''peer_discovered'' then Add_Log te (tx_t_found @ label_or name p) (Update_Peer p name False False a)
      else if t = Some ''peer_left'' then Add_Log te (tx_t_left @ p) (Remove_Peer p a)
      else if t = Some ''peer_info_updated'' then peer_info_updated te v a
      else if t = Some ''peer_connected'' then Add_Log te (tx_t_connected @ label_or name p) (Update_Peer p name False True a)
      else if t = Some ''peer_disconnected'' then Add_Log te (tx_t_gone @ label_or name p) (Update_Peer p name False False a)
      else if t = Some ''job_created'' then Add_Log te (job_created_msg v) a
      else if t = Some ''job_phase_changed'' then
        (let ph = str_or ''?'' v ''phase''; a = Add_Log te (job_label (u64_or 0 v ''job_id'') @ tx_t_phase @ ph) a
         in a\<lparr>ap_job := set_phase ph (ap_job a)\<rparr>)
      else if t = Some ''job_completed'' then job_completed te v a
      else if t = Some ''inference_started'' then inference_started te v a
      else if t = Some ''inference_completed'' then inference_completed te v a
      else if t = Some ''device_changed'' then
        (let d = str_or ''?'' v ''device'' in (Add_Log te (tx_t_device @ te_upper te d) a)\<lparr>ap_device := d\<rparr>)
      else a)"

definition handle_stream :: "json \<Rightarrow> App \<Rightarrow> App" where
  "handle_stream v a =
     (let t = as_str (jat v ''type'') in
      if t = Some ''token'' then
        (let out = ap_output a; txt = co_text out @ str_or [] v ''text'' in
         a\<lparr>ap_output := out\<lparr>co_text := txt, co_token_count := co_token_count out + 1\<rparr>, ap_view_mode := Vm_Busy_Coordinator,
           ap_command_scroll := length (str_lines txt) - 1\<rparr>)
      else if t = Some ''file_progress'' then
        a\<lparr>ap_job := Js_File_Transfer (if str_or ''send'' v ''dir'' = ''send'' then Td_Send else Td_Receive) (str_or ''?'' v ''name'')
            (str_or ''?'' v ''peer'') (u64_or 0 v ''sent'') (u64_or 0 v ''total'')\<rparr>
      else a)"

fun entry_ranges :: "json list \<Rightarrow> string \<Rightarrow> string option" where
  "entry_ranges [] txt = Some txt"
| "entry_ranges (e # es) txt =
     (case (as_str (jat e ''file_name''), as_str (jat e ''layer_bitmap'')) of
        (Some name, Some hex) \<Rightarrow>
          (case bitmap_hex_to_layer_range hex of
             None \<Rightarrow> None
           | Some None \<Rightarrow> entry_ranges es txt
           | Some (Some r) \<Rightarrow> entry_ranges es (txt @ [CHR 0x0A] @ ''  '' @ name @ '' layers: '' @ r))
      | _ \<Rightarrow> entry_ranges es txt)"

definition as_array :: "json \<Rightarrow> json list option" where
  "as_array v = (case v of J_Arr vs \<Rightarrow> Some vs | _ \<Rightarrow> None)"

definition handle_output :: "json \<Rightarrow> App \<Rightarrow> App option" where
  "handle_output v a =
     (let t = as_str (jat v ''type'') in
      if t = Some ''cmd_result'' then
        map_option (\<lambda>txt. a\<lparr>ap_output := (ap_output a)\<lparr>co_text := txt, co_completed := unwrap_or True (as_bool (jat v ''completed''))\<rparr>,
            ap_command_scroll := 0\<rparr>)
          (entry_ranges (unwrap_or [] (as_array (jat v ''entries''))) (str_or [] v ''text''))
      else if t = Some ''help'' then
        Some (a\<lparr>ap_output := (ap_output a)\<lparr>co_text := str_or [] v ''text'', co_completed := True\<rparr>\<rparr>)
      else Some a)"

definition Handle_Bus_Event :: "tui_env \<Rightarrow> tui_event \<Rightarrow> App \<Rightarrow> App option" where
  "Handle_Bus_Event te e a =
     (case e of
        Te_Notify lv msg \<Rightarrow>
          Some (Add_Log te (case lv of Lv_Error \<Rightarrow> tx_t_error @ msg | Lv_Warn \<Rightarrow> tx_t_warn @ msg | Lv_Info \<Rightarrow> msg) a)
      | Te_State p \<Rightarrow>
          (case te_parse te p of Inl err \<Rightarrow> Some (Add_Log te (tx_t_state_bad @ err) a) | Inr v \<Rightarrow> Some (handle_state te v a))
      | Te_Stream p \<Rightarrow>
          (case te_parse te p of Inl err \<Rightarrow> Some (Add_Log te (tx_t_stream_bad @ err) a) | Inr v \<Rightarrow> Some (handle_stream v a))
      | Te_Output p \<Rightarrow>
          (case te_parse te p of Inl err \<Rightarrow> Some (Add_Log te (tx_t_output_bad @ err) a) | Inr v \<Rightarrow> handle_output v a))"

section \<open>Commands, keys and the mouse\<close>

definition command_label :: "UserCommand \<Rightarrow> string" where
  "command_label cmd =
     (case cmd of
        Uc_Execute c _ \<Rightarrow> tx_t_script @ c
      | Uc_ExecRemote p c _ \<Rightarrow> tx_t_rexec @ p @ '' '' @ c
      | Uc_Session m \<Rightarrow> tx_t_session @ m
      | Uc_Api s \<Rightarrow> tx_t_api @ show_u64 s
      | Uc_SessionInference c s _ \<Rightarrow> ''ML Thread ('' @ c @ '') -> Session '' @ show_u64 s
      | Uc_Run _ m \<Rightarrow> tx_t_exec @ ''run '' @ m
      | Uc_Cancel j \<Rightarrow> tx_t_exec @ ''cancel '' @ show_u64 j
      | Uc_DisplayPeer \<Rightarrow> tx_t_exec @ ''display-peer''
      | Uc_SetDevice d \<Rightarrow> tx_t_exec @ ''set-device '' @ d
      | Uc_List \<Rightarrow> tx_t_exec @ ''ls''
      | Uc_Flush \<Rightarrow> tx_t_exec @ ''flush''
      | Uc_Reload \<Rightarrow> tx_t_exec @ ''reload''
      | Uc_SetName n \<Rightarrow> tx_t_exec @ ''set-name '' @ n
      | Uc_Send f p \<Rightarrow> tx_t_exec @ ''send '' @ f @ utf8 [32, 226, 134, 146, 32] @ p
      | Uc_DistributeModel m _ \<Rightarrow> tx_t_exec @ ''distribute '' @ m
      | Uc_Profile m \<Rightarrow> tx_t_exec @ ''profile '' @ m
      | Uc_Dial d \<Rightarrow> tx_t_exec @ ''dial '' @ d
      | _ \<Rightarrow> [])"

text \<open>\<open>open\<close>: the core still takes commands.\<close>

definition Handle_Command_Input :: "tui_env \<Rightarrow> bool \<Rightarrow> string \<Rightarrow> App \<Rightarrow> App \<times> UserCommand list" where
  "Handle_Command_Input te open input a =
     (let t = str_trim input in
      if t = ''quit'' \<or> t = ''exit'' then (a\<lparr>ap_should_quit := True\<rparr>, [])
      else if t = ''clear'' then (a\<lparr>ap_logs := [], ap_log_scroll := 0\<rparr>, [])
      else
        (let a = a\<lparr>ap_output := Command_Output_New, ap_command_scroll := 0\<rparr>;
             a = (if t = ''help'' then a\<lparr>ap_output := (ap_output a)\<lparr>co_text := tx_t_help\<rparr>\<rparr> else a)
         in case parse_user_command (te_lower te) t of
              Inr (Some cmd) \<Rightarrow>
                (let a = (if command_label cmd \<noteq> [] then Add_Log te (command_label cmd) a else a)
                 in if open then (a, [cmd]) else ((Add_Log te tx_t_closed a)\<lparr>ap_should_quit := True\<rparr>, []))
            | Inr None \<Rightarrow> (a, [])
            | Inl msg \<Rightarrow> (a\<lparr>ap_output := (ap_output a)\<lparr>co_text := msg, co_completed := True\<rparr>\<rparr>, [])))"

text \<open>A character key carries the bytes of its character.\<close>

datatype key = K_Enter | K_Esc | K_Backspace | K_Up | K_Down | K_PageUp | K_PageDown | K_Char string | K_Other

definition Handle_Key_Event :: "tui_env \<Rightarrow> bool \<Rightarrow> key \<Rightarrow> bool \<Rightarrow> App \<Rightarrow> (App \<times> UserCommand list) option" where
  "Handle_Key_Event te open k ctrl a =
     (if ctrl \<and> k = K_Char ''c'' then Some (a\<lparr>ap_should_quit := True\<rparr>, [])
      else case k of
        K_Enter \<Rightarrow>
          (case Take_Input a of (input, a) \<Rightarrow>
             Some (if input \<noteq> [] then Handle_Command_Input te open input a else (a, [])))
      | K_Esc \<Rightarrow> Some (Clear_Input a, [])
      | K_Backspace \<Rightarrow> map_option (\<lambda>a. (a, [])) (Delete_Char a)
      | K_Up \<Rightarrow> Some (if ctrl then Scroll_Command_Up a else Scroll_Up a, [])
      | K_Down \<Rightarrow> Some (if ctrl then Scroll_Command_Down a else Scroll_Down a, [])
      | K_PageUp \<Rightarrow> Some ((Scroll_Command_Up ^^ 5) a, [])
      | K_PageDown \<Rightarrow> Some ((Scroll_Command_Down ^^ 5) a, [])
      | K_Char c \<Rightarrow> map_option (\<lambda>a. (a, [])) (Input_Char c a)
      | K_Other \<Rightarrow> Some (a, []))"

text \<open>\<open>row < y + height\<close> on 16 bits; the sum is only computed below the first row.\<close>

definition in_area :: "u16 \<Rightarrow> u16 \<times> u16 \<Rightarrow> bool option" where
  "in_area row ar =
     (case ar of (y, h) \<Rightarrow>
        if row < y then Some False
        else if unat y + unat h < 65536 then Some (unat row < unat y + unat h) else None)"

datatype mouse = M_Up | M_Down | M_Other

definition Handle_Mouse_Event :: "mouse \<Rightarrow> u16 \<Rightarrow> App \<Rightarrow> App option" where
  "Handle_Mouse_Event m row a =
     Option.bind (in_area row (ap_log_area a)) (\<lambda>in_log.
     Option.bind (in_area row (ap_command_area a)) (\<lambda>in_command.
     Some (case m of
        M_Up \<Rightarrow> if in_command then Scroll_Command_Up a else if in_log then Scroll_Up a else a
      | M_Down \<Rightarrow> if in_command then Scroll_Command_Down a else if in_log then Scroll_Down a else a
      | M_Other \<Rightarrow> a)))"

section \<open>The loop\<close>

text \<open>What drawing a frame keeps in the state: the rows of the two panels the mouse can scroll, and, when
  the command panel has room for text (its width and height), the scroll position within bounds.\<close>

record layout =
  ly_log_area :: "u16 \<times> u16"
  ly_command_area :: "u16 \<times> u16"
  ly_text :: "(nat \<times> nat) option"

definition clamp_scroll :: "layout \<Rightarrow> App \<Rightarrow> App" where
  "clamp_scroll ly a =
     (case ly_text ly of
        None \<Rightarrow> a
      | Some (w, h) \<Rightarrow>
          a\<lparr>ap_command_scroll := min (ap_command_scroll a) (Estimate_Visual_Line_Count (panel_text (ap_output a)) (w - 1) - h)\<rparr>)"

definition Render :: "tui_env \<Rightarrow> layout \<Rightarrow> App \<Rightarrow> App option" where
  "Render te ly a =
     (let a = a\<lparr>ap_log_area := ly_log_area ly, ap_command_area := ly_command_area ly\<rparr> in
      if network_lines (ap_peers a) = None \<or> job_text te (ap_device a) (ap_job a) = None then None
      else Some (clamp_scroll ly a))"

datatype bus_recv = Br_Event tui_event | Br_Lagged u64

fun drain_bus :: "tui_env \<Rightarrow> bus_recv list \<Rightarrow> App \<Rightarrow> App option" where
  "drain_bus te [] a = Some a"
| "drain_bus te (Br_Event e # rs) a = Option.bind (Handle_Bus_Event te e a) (drain_bus te rs)"
| "drain_bus te (Br_Lagged n # rs) a = drain_bus te rs (Add_Log te (tx_t_lost @ show_u64 n @ tx_t_events) a)"

datatype term_input = Ti_Key key bool | Ti_Mouse mouse u16 | Ti_None

text \<open>One turn: the layout drawn (none when drawing fails), what the bus has ready and whether it is closed
  after that, the input within the poll, and whether the core takes commands.\<close>

record turn =
  tn_draw :: "layout option"
  tn_bus :: "bus_recv list"
  tn_closed :: bool
  tn_input :: term_input
  tn_open :: bool

definition take_input :: "tui_env \<Rightarrow> bool \<Rightarrow> term_input \<Rightarrow> App \<Rightarrow> (App \<times> UserCommand list) option" where
  "take_input te open i a =
     (case i of
        Ti_Key k ctrl \<Rightarrow> Handle_Key_Event te open k ctrl a
      | Ti_Mouse m row \<Rightarrow> map_option (\<lambda>a. (a, [])) (Handle_Mouse_Event m row a)
      | Ti_None \<Rightarrow> Some (a, []))"

text \<open>The flag tells whether the loop has ended.\<close>

fun tui_turns :: "tui_env \<Rightarrow> App \<Rightarrow> turn list \<Rightarrow> (bool \<times> App \<times> UserCommand list) option" where
  "tui_turns te a [] = Some (False, a, [])"
| "tui_turns te a (t # ts) =
     (case tn_draw t of
        None \<Rightarrow> Some (True, a, [])
      | Some ly \<Rightarrow>
          Option.bind (Render te ly a) (\<lambda>a.
          Option.bind (drain_bus te (tn_bus t) a) (\<lambda>a.
          let a = (if tn_closed t then a\<lparr>ap_should_quit := True\<rparr> else a) in
          Option.bind (take_input te (tn_open t) (tn_input t) a) (\<lambda>(a, cmds).
          if ap_should_quit a then Some (True, a, cmds @ (if tn_open t then [Uc_Quit] else []))
          else map_option (\<lambda>(e, a, cs). (e, a, cmds @ cs)) (tui_turns te a ts)))))"

definition TUI_Loop :: "tui_env \<Rightarrow> turn list \<Rightarrow> (bool \<times> App \<times> UserCommand list) option" where
  "TUI_Loop te ts = tui_turns te (Add_Log te tx_t_started App_New) ts"

end
