(* ===== verification/Terminal_Session.thy ===== *)
theory Terminal_Session
  imports Terminal_Events
begin

text \<open>
  Correctness of the terminal interface: the input line is a line editor over characters, the interface
  never panics on what the program publishes, what it sends the core is what the parser makes of the lines
  typed, and the layer ranges it shows are those of the peers' bitmaps.
\<close>

section \<open>The line editor\<close>

definition utf8_char :: "string \<Rightarrow> bool" where
  "utf8_char c \<longleftrightarrow> c \<noteq> [] \<and> utf8_len (nats_of c) = length c"

lemma utf8_char_bytes:
  assumes "utf8_char c"
  obtains h r where "c = h # r" "\<not> cont_byte (of_char h)" "list_all (\<lambda>d. cont_byte (of_char d)) r"
proof -
  obtain h r where c: "c = h # r" using assms by (cases c) (auto simp: utf8_char_def)
  define w where "w = utf8_width (of_char h)"
  have l: "utf8_len (nats_of c) = Suc (length r)" using assms by (simp add: utf8_char_def c)
  then have "w \<noteq> 0" "w = Suc (length r)"
    by (auto simp: utf8_len_def nats_of_def c w_def [symmetric] Let_def split: if_splits)
  then have h: "\<not> cont_byte (of_char h)"
    by (auto simp: w_def utf8_width_def cont_byte_def split: if_splits)
  have "list_all (\<lambda>d. cont_byte (of_char d)) r"
  proof (cases "w = 1")
    case False
    then have s: "second_ok (of_char h) (map of_char r ! 0)" "list_all cont_byte (take (w - 2) (drop 1 (map of_char r)))"
      using l by (auto simp: utf8_len_def nats_of_def c w_def [symmetric] Let_def split: if_splits)
    obtain d r' where r: "r = d # r'" using False \<open>w = Suc (length r)\<close> by (cases r) auto
    have "cont_byte (of_char d)" using s(1) by (auto simp: r second_ok_def cont_byte_def split: if_splits)
    then show ?thesis using s(2) \<open>w = Suc (length r)\<close> by (simp add: r list_all_iff)
  qed (use \<open>w = Suc (length r)\<close> in simp)
  then show thesis using that c h by blast
qed

lemma ascii_char: "(of_char c :: nat) < 128 \<Longrightarrow> utf8_char [c]"
  by (simp add: utf8_char_def utf8_len_def nats_of_def utf8_width_def)

lemma boundary_concat: "list_all utf8_char cs \<Longrightarrow> char_boundary (concat cs) (length (concat cs))"
  by (simp add: char_boundary_def)

lemma boundary_zero: "list_all utf8_char cs \<Longrightarrow> char_boundary (concat cs) 0"
  by (cases cs) (auto simp: char_boundary_def elim!: utf8_char_bytes)

lemma last_char_start_snoc: "utf8_char c \<Longrightarrow> last_char_start (s @ c) = length s"
proof (erule utf8_char_bytes)
  fix h r assume c: "c = h # r" "\<not> cont_byte (of_char h)" "list_all (\<lambda>d. cont_byte (of_char d)) r"
  have "takeWhile (\<lambda>d. cont_byte (of_char d)) (rev r @ h # rev s) = rev r"
    using c by (subst takeWhile_append2) (auto simp: list_all_iff)
  then show "last_char_start (s @ c) = length s" by (simp add: last_char_start_def c)
qed

text \<open>The editor on characters: what the buffer and the cursor stand for.\<close>

definition editing :: "string list \<Rightarrow> App \<Rightarrow> bool" where
  "editing cs a \<longleftrightarrow> list_all utf8_char cs \<and> ap_input_buffer a = concat cs \<and> ap_cursor a = length (concat cs)"

lemma editing_char:
  assumes "editing cs a" "utf8_char c"
  shows "Input_Char c a = Some (a\<lparr>ap_input_buffer := concat (cs @ [c]), ap_cursor := length (concat (cs @ [c]))\<rparr>)"
    "editing (cs @ [c]) (a\<lparr>ap_input_buffer := concat (cs @ [c]), ap_cursor := length (concat (cs @ [c]))\<rparr>)"
  using assms boundary_concat [of cs] by (simp_all add: editing_def Input_Char_def Let_def)

lemma editing_clear: "editing [] (Clear_Input a)"
  by (simp add: editing_def Clear_Input_def)

lemma editing_delete:
  assumes "editing cs a"
  shows "Delete_Char a = Some (a\<lparr>ap_input_buffer := concat (butlast cs), ap_cursor := length (concat (butlast cs))\<rparr>)"
proof (cases cs rule: rev_cases)
  case Nil
  then show ?thesis using assms by (simp add: editing_def Delete_Char_def)
next
  case (snoc ds c)
  have c: "utf8_char c" "list_all utf8_char (ds @ [c])" using assms by (simp_all add: editing_def snoc)
  then have "c \<noteq> []" "utf8_len (nats_of c) = length c" by (simp_all add: utf8_char_def)
  then show ?thesis
    using assms last_char_start_snoc [OF c(1), of "concat ds"] boundary_zero [OF c(2)] boundary_concat [OF c(2)]
    by (simp add: editing_def Delete_Char_def snoc str_slice_def Let_def)
qed

section \<open>No panic on what the program publishes\<close>

text \<open>Identifiers of peers are ASCII, as base 58 texts are, and so are hexadecimal bitmaps.\<close>

definition job_safe :: "Job_State \<Rightarrow> bool" where
  "job_safe j = (case j of Js_File_Transfer _ _ p _ _ \<Rightarrow> ascii p | _ \<Rightarrow> True)"

definition ui_safe :: "App \<Rightarrow> bool" where
  "ui_safe a \<longleftrightarrow> list_all (\<lambda>p. ascii (pd_peer_id p)) (ap_peers a) \<and> job_safe (ap_job a)"

definition entry_safe :: "json \<Rightarrow> bool" where
  "entry_safe e = (case as_str (jat e ''layer_bitmap'') of Some h \<Rightarrow> ascii h | None \<Rightarrow> True)"

definition event_safe :: "tui_env \<Rightarrow> tui_event \<Rightarrow> bool" where
  "event_safe te e =
     (case e of
        Te_Notify _ _ \<Rightarrow> True
      | Te_State p \<Rightarrow> (case te_parse te p of Inr v \<Rightarrow> ascii (str_or ''?'' v ''peer_id'') | Inl _ \<Rightarrow> True)
      | Te_Stream p \<Rightarrow> (case te_parse te p of Inr v \<Rightarrow> ascii (str_or ''?'' v ''peer'') | Inl _ \<Rightarrow> True)
      | Te_Output p \<Rightarrow> (case te_parse te p of Inr v \<Rightarrow> list_all entry_safe (unwrap_or [] (as_array (jat v ''entries''))) | Inl _ \<Rightarrow> True))"

lemma ascii_boundary: "ascii s \<Longrightarrow> i \<le> length s \<Longrightarrow> char_boundary s i"
  unfolding char_boundary_def ascii_def cont_byte_def list_all_length using le_neq_implies_less leD order_less_le_trans by blast

lemma ascii_slice: "ascii s \<Longrightarrow> i \<le> j \<Longrightarrow> j \<le> length s \<Longrightarrow> str_slice s i j = Some (take (j - i) (drop i s))"
  by (simp add: str_slice_def ascii_boundary)

lemma cut_id_safe: "ascii s \<Longrightarrow> 8 \<le> length s \<Longrightarrow> cut_id s \<noteq> None"
  by (simp add: cut_id_def ascii_slice)

lemma job_text_safe: "job_safe j \<Longrightarrow> job_text te dev j \<noteq> None"
  using cut_id_safe by (auto simp: job_safe_def job_text_def peer_short_def split: Job_State.splits)

lemma peer_lines_safe: "ascii (pd_peer_id p) \<Longrightarrow> peer_lines p \<noteq> None"
  using cut_id_safe by (auto simp: peer_lines_def display_name_def Truncate_Peer_Id_def ascii_slice)

lemma those_safe: "list_all (\<lambda>x. x \<noteq> None) xs \<Longrightarrow> those xs \<noteq> None"
  by (induction xs) (auto split: option.splits)

lemma network_lines_safe: "list_all (\<lambda>p. ascii (pd_peer_id p)) ps \<Longrightarrow> network_lines ps \<noteq> None"
  using those_safe [of "map peer_lines ps"] peer_lines_safe
  by (auto simp: network_lines_def list_all_iff)

lemma hex_bytes_safe: "ascii hex \<Longrightarrow> (i + n) * 2 \<le> length hex \<Longrightarrow> hex_bytes hex i n \<noteq> None"
proof (induction n arbitrary: i)
  case (Suc n)
  then have "hex_bytes hex (Suc i) n \<noteq> None" by simp
  then show ?case using Suc.prems by (auto simp: ascii_slice split: sum.splits option.splits)
qed simp

lemma bitmap_range_safe: "ascii hex \<Longrightarrow> bitmap_hex_to_layer_range hex \<noteq> None"
  using hex_bytes_safe [of hex 0 32] by (simp add: bitmap_hex_to_layer_range_def)

lemma entry_ranges_safe: "list_all entry_safe es \<Longrightarrow> entry_ranges es s \<noteq> None"
proof (induction es arbitrary: s)
  case (Cons e es)
  show ?case
  proof (cases "as_str (jat e ''layer_bitmap'')")
    case (Some h)
    then have "bitmap_hex_to_layer_range h \<noteq> None" using Cons.prems bitmap_range_safe by (simp add: entry_safe_def)
    then show ?thesis using Cons Some by (auto split: option.splits)
  qed (use Cons in \<open>auto split: option.splits\<close>)
qed simp

text \<open>What the events of the bus leave alone.\<close>

definition frame :: "App \<Rightarrow> string \<times> nat \<times> bool \<times> (u16 \<times> u16) \<times> (u16 \<times> u16)" where
  "frame a = (ap_input_buffer a, ap_cursor a, ap_should_quit a, ap_log_area a, ap_command_area a)"

named_theorems ui_ops

lemma Add_Log_ops [ui_ops]:
  "frame (Add_Log te m a) = frame a" "ui_safe (Add_Log te m a) = ui_safe a"
  "ap_view_mode (Add_Log te m a) = ap_view_mode a" "ap_job (Add_Log te m a) = ap_job a" "ap_peers (Add_Log te m a) = ap_peers a"
  by (simp_all add: Add_Log_def frame_def ui_safe_def Let_def)

lemma Update_Peer_frame [ui_ops]: "frame (Update_Peer p n l c a) = frame a"
  by (simp add: Update_Peer_def frame_def Let_def)

lemma peer_position_found: "peer_position p ps < length ps \<Longrightarrow> pd_peer_id (ps ! peer_position p ps) = p"
  unfolding peer_position_def using nth_length_takeWhile by fastforce

lemma Update_Peer_safe [ui_ops]: "ascii p \<Longrightarrow> ui_safe a \<Longrightarrow> ui_safe (Update_Peer p n l c a)"
  using peer_position_found [of p "ap_peers a"]
  by (auto simp: Update_Peer_def ui_safe_def Let_def list_all_iff
      dest!: in_set_takeD in_set_dropD set_update_subset_insert [THEN subsetD])

lemma modify_peer_frame: "frame (modify_peer p f a) = frame a"
  by (simp add: modify_peer_def frame_def Let_def)

lemma modify_peer_safe:
  assumes "\<And>q. pd_peer_id (f q) = pd_peer_id q" "ui_safe a"
  shows "ui_safe (modify_peer p f a)"
  using assms by (auto simp: modify_peer_def ui_safe_def Let_def list_all_length nth_list_update)

lemma Update_Models_ops [ui_ops]:
  "frame (Update_Peer_Models p ms a) = frame a" "ui_safe a \<Longrightarrow> ui_safe (Update_Peer_Models p ms a)"
  by (simp_all add: Update_Peer_Models_def modify_peer_frame modify_peer_safe)

lemma Update_Sessions_ops [ui_ops]:
  "frame (Update_Peer_Sessions p ss a) = frame a" "ui_safe a \<Longrightarrow> ui_safe (Update_Peer_Sessions p ss a)"
  by (simp_all add: Update_Peer_Sessions_def modify_peer_frame modify_peer_safe)

lemma Remove_Peer_ops [ui_ops]: "frame (Remove_Peer p a) = frame a" "ui_safe a \<Longrightarrow> ui_safe (Remove_Peer p a)"
  by (auto simp: Remove_Peer_def frame_def ui_safe_def list_all_iff)

lemma job_update_ops [ui_ops]:
  "frame (ap_job_update f a) = frame a" "frame (ap_view_mode_update g a) = frame a" "frame (ap_output_update h a) = frame a"
  "frame (ap_command_scroll_update i a) = frame a" "frame (ap_device_update d a) = frame a"
  "ui_safe (ap_view_mode_update g a) = ui_safe a" "ui_safe (ap_output_update h a) = ui_safe a"
  "ui_safe (ap_command_scroll_update i a) = ui_safe a" "ui_safe (ap_device_update d a) = ui_safe a"
  "ui_safe (ap_job_update f a) \<longleftrightarrow> list_all (\<lambda>p. ascii (pd_peer_id p)) (ap_peers a) \<and> job_safe (f (ap_job a))"
  by (simp_all add: frame_def ui_safe_def)

lemma set_phase_safe: "job_safe (set_phase ph j) = job_safe j"
  by (cases j) (simp_all add: set_phase_def job_safe_def)

lemma ui_safe_parts: "ui_safe a \<Longrightarrow> list_all (\<lambda>p. ascii (pd_peer_id p)) (ap_peers a) \<and> job_safe (ap_job a)"
  by (simp add: ui_safe_def)

lemma jobs_safe: "job_safe Js_Idle" "job_safe (Js_Inference m d l ph)" "job_safe (Js_File_Transfer dir f p s t) = ascii p"
  by (simp_all add: job_safe_def)

lemma handle_state_ops:
  "frame (handle_state te v a) = frame a"
  "ascii (str_or ''?'' v ''peer_id'') \<Longrightarrow> ui_safe a \<Longrightarrow> ui_safe (handle_state te v a)"
proof -
  note defs = handle_state_def peer_info_updated_def job_completed_def inference_started_def inference_completed_def
  show "frame (handle_state te v a) = frame a" by (simp add: defs ui_ops Let_def)
  show "ui_safe (handle_state te v a)" if "ascii (str_or ''?'' v ''peer_id'')" "ui_safe a"
    using that ui_safe_parts [OF that(2)] by (simp add: defs ui_ops Let_def set_phase_safe jobs_safe)
qed

lemma handle_stream_ops:
  "frame (handle_stream v a) = frame a" "ascii (str_or ''?'' v ''peer'') \<Longrightarrow> ui_safe a \<Longrightarrow> ui_safe (handle_stream v a)"
  using ui_safe_parts [of a] by (auto simp: handle_stream_def ui_ops Let_def jobs_safe)

lemma handle_output_ops:
  assumes "list_all entry_safe (unwrap_or [] (as_array (jat v ''entries'')))"
  shows "\<exists>b. handle_output v a = Some b \<and> frame b = frame a \<and> ui_safe b = ui_safe a"
proof -
  obtain z where "entry_ranges (unwrap_or [] (as_array (jat v ''entries''))) (str_or [] v ''text'') = Some z"
    using entry_ranges_safe [OF assms] by blast
  then show ?thesis by (simp add: handle_output_def ui_ops Let_def)
qed

lemma bus_event_ops:
  assumes "event_safe te e" "ui_safe a"
  shows "\<exists>b. Handle_Bus_Event te e a = Some b \<and> frame b = frame a \<and> ui_safe b"
  using assms handle_output_ops [of _ a]
  by (auto simp: Handle_Bus_Event_def event_safe_def ui_ops handle_state_ops handle_stream_ops
      split: tui_event.splits sum.splits)

definition recv_safe :: "tui_env \<Rightarrow> bus_recv \<Rightarrow> bool" where
  "recv_safe te r = (case r of Br_Event e \<Rightarrow> event_safe te e | Br_Lagged _ \<Rightarrow> True)"

lemma drain_bus_ops:
  "list_all (recv_safe te) rs \<Longrightarrow> ui_safe a \<Longrightarrow> \<exists>b. drain_bus te rs a = Some b \<and> frame b = frame a \<and> ui_safe b"
proof (induction te rs a rule: drain_bus.induct)
  case (2 te e rs a)
  then obtain b where b: "Handle_Bus_Event te e a = Some b" "frame b = frame a" "ui_safe b"
    using bus_event_ops [of te e a] by (auto simp: recv_safe_def)
  with 2 show ?case by auto
qed (auto simp: ui_ops)

section \<open>Sessions at the terminal\<close>

text \<open>What the keys amount to, for a user who sees characters: a line editor, the parser, and a quit
  request at the end. The first component tells whether the interface has been left.\<close>

fun terminal_commands :: "(string \<Rightarrow> string) \<Rightarrow> string list \<Rightarrow> term_input list \<Rightarrow> bool \<times> UserCommand list" where
  "terminal_commands lower cs [] = (False, [])"
| "terminal_commands lower cs (Ti_Key k ctrl # is) =
     (if ctrl \<and> k = K_Char ''c'' then (True, [Uc_Quit])
      else case k of
        K_Enter \<Rightarrow>
          (let l = str_trim (concat cs) in
           if l = ''quit'' \<or> l = ''exit'' then (True, [Uc_Quit])
           else case terminal_commands lower [] is of (e, cmds) \<Rightarrow>
             (e, (case parse_user_command lower l of Inr (Some cmd) \<Rightarrow> [cmd] | _ \<Rightarrow> []) @ cmds))
      | K_Esc \<Rightarrow> terminal_commands lower [] is
      | K_Backspace \<Rightarrow> terminal_commands lower (butlast cs) is
      | K_Char c \<Rightarrow> terminal_commands lower (cs @ [c]) is
      | _ \<Rightarrow> terminal_commands lower cs is)"
| "terminal_commands lower cs (_ # is) = terminal_commands lower cs is"

definition area_ok :: "u16 \<times> u16 \<Rightarrow> bool" where
  "area_ok ar \<longleftrightarrow> unat (fst ar) + unat (snd ar) < 65536"

definition input_ok :: "term_input \<Rightarrow> bool" where
  "input_ok i = (case i of Ti_Key (K_Char c) _ \<Rightarrow> utf8_char c | _ \<Rightarrow> True)"

text \<open>A turn of a session: drawn on a screen of less than \<open>65536\<close> rows, with safe events, while the program
  runs.\<close>

definition turn_ok :: "tui_env \<Rightarrow> turn \<Rightarrow> bool" where
  "turn_ok te t \<longleftrightarrow>
     (case tn_draw t of Some ly \<Rightarrow> area_ok (ly_log_area ly) \<and> area_ok (ly_command_area ly) | None \<Rightarrow> False) \<and>
     list_all (recv_safe te) (tn_bus t) \<and> \<not> tn_closed t \<and> tn_open t \<and> input_ok (tn_input t)"

definition ready :: "string list \<Rightarrow> App \<Rightarrow> bool" where
  "ready cs a \<longleftrightarrow> editing cs a \<and> ui_safe a \<and> \<not> ap_should_quit a \<and> area_ok (ap_log_area a) \<and> area_ok (ap_command_area a)"

lemma ready_frame: "ready cs a \<Longrightarrow> frame b = frame a \<Longrightarrow> ui_safe b \<Longrightarrow> ready cs b"
  by (simp add: ready_def editing_def frame_def)

lemma Render_ready:
  assumes "ready cs a" "area_ok (ly_log_area ly)" "area_ok (ly_command_area ly)"
  shows "\<exists>b. Render te ly a = Some b \<and> ready cs b"
proof -
  have "list_all (\<lambda>p. ascii (pd_peer_id p)) (ap_peers a)" "job_safe (ap_job a)"
    using assms(1) by (simp_all add: ready_def ui_safe_def)
  then show ?thesis using assms network_lines_safe job_text_safe
    by (auto simp: Render_def Let_def clamp_scroll_def ready_def editing_def ui_safe_def split: option.splits)
qed

lemma scroll_ops [ui_ops]:
  "frame (Scroll_Up a) = frame a" "frame (Scroll_Down a) = frame a" "frame (Scroll_Command_Up a) = frame a"
  "frame (Scroll_Command_Down a) = frame a" "ui_safe (Scroll_Up a) = ui_safe a" "ui_safe (Scroll_Down a) = ui_safe a"
  "ui_safe (Scroll_Command_Up a) = ui_safe a" "ui_safe (Scroll_Command_Down a) = ui_safe a"
  by (simp_all add: Scroll_Up_def Scroll_Down_def Scroll_Command_Up_def Scroll_Command_Down_def frame_def ui_safe_def)

lemma pages_ops [ui_ops]:
  "frame ((Scroll_Command_Up ^^ n) a) = frame a" "frame ((Scroll_Command_Down ^^ n) a) = frame a"
  "ui_safe ((Scroll_Command_Up ^^ n) a) = ui_safe a" "ui_safe ((Scroll_Command_Down ^^ n) a) = ui_safe a"
  by (induction n) (simp_all add: ui_ops)

lemma in_area_ok: "area_ok ar \<Longrightarrow> \<exists>b. in_area row ar = Some b"
  by (cases ar) (auto simp: in_area_def area_ok_def)

lemma mouse_ready:
  assumes "ready cs a"
  shows "\<exists>b. Handle_Mouse_Event m row a = Some b \<and> ready cs b"
proof -
  obtain x y where "in_area row (ap_log_area a) = Some x" "in_area row (ap_command_area a) = Some y"
    using assms in_area_ok by (metis ready_def)
  moreover have "frame b = frame a \<and> ui_safe b = ui_safe a \<Longrightarrow> ready cs b" for b
    using ready_frame [OF assms, of b] assms by (simp add: ready_def)
  ultimately show ?thesis by (cases m) (auto simp: Handle_Mouse_Event_def ui_ops)
qed

lemma command_input_ready:
  fixes input :: string
  assumes "ready [] a"
  defines "l \<equiv> str_trim input"
  shows "Handle_Command_Input te True input a = (b, cmds) \<Longrightarrow>
    (if l = ''quit'' \<or> l = ''exit'' then ap_should_quit b \<and> cmds = []
     else ready [] b \<and> cmds = (case parse_user_command (te_lower te) l of Inr (Some cmd) \<Rightarrow> [cmd] | _ \<Rightarrow> []))"
proof -
  assume r: "Handle_Command_Input te True input a = (b, cmds)"
  have k: "frame c = frame a \<and> ui_safe c = ui_safe a \<Longrightarrow> ready [] c" for c
    using ready_frame [OF assms(1), of c] assms(1) by (simp add: ready_def)
  have logs: "frame (a\<lparr>ap_logs := [], ap_log_scroll := 0\<rparr>) = frame a \<and> ui_safe (a\<lparr>ap_logs := [], ap_log_scroll := 0\<rparr>) = ui_safe a"
    by (simp add: frame_def ui_safe_def)
  show ?thesis
  proof (cases "l = ''clear''")
    case True
    have "str_trim ''clear'' = ''clear''" by (rule str_trim_graphic) (simp add: graphic_def)
    then have "parse_user_command (te_lower te) l = Inr None" by (simp add: parse_user_command_def True)
    then show ?thesis using r k [OF logs] True by (auto simp: Handle_Command_Input_def Let_def l_def [symmetric])
  next
    case False
    then show ?thesis using r
      by (auto simp: Handle_Command_Input_def Let_def l_def [symmetric] ui_ops intro!: k
          split: if_splits sum.splits option.splits)
  qed
qed

lemma enter_ready:
  assumes "ready cs a"
  shows "ready [] (snd (Take_Input a))" "fst (Take_Input a) = concat cs"
  using assms by (simp_all add: ready_def editing_def Take_Input_def Clear_Input_def ui_safe_def)

text \<open>One input, step by step with the abstract session.\<close>

lemma input_step:
  assumes "ready cs a" "input_ok i"
  obtains (step) b cmds where "take_input te True i a = Some (b, cmds)"
    "(\<exists>cs'. ready cs' b \<and> (\<forall>is. terminal_commands (te_lower te) cs (i # is) =
        (case terminal_commands (te_lower te) cs' is of (e, cmds') \<Rightarrow> (e, cmds @ cmds')))) \<or>
     ap_should_quit b \<and> (\<forall>is. terminal_commands (te_lower te) cs (i # is) = (True, cmds @ [Uc_Quit]))"
proof -
  have k: "frame c = frame a \<and> ui_safe c = ui_safe a \<Longrightarrow> ready cs c" for c
    using ready_frame [OF assms(1), of c] assms(1) by (simp add: ready_def)
  have e: "editing cs a" using assms(1) by (simp add: ready_def)
  consider (quit) k where "i = Ti_Key k True" "k = K_Char ''c''"
    | (enter) ctrl where "i = Ti_Key K_Enter ctrl" | (del) ctrl where "i = Ti_Key K_Backspace ctrl"
    | (char) c ctrl where "i = Ti_Key (K_Char c) ctrl" "\<not> (ctrl \<and> c = ''c'')"
    | (esc) ctrl where "i = Ti_Key K_Esc ctrl" | (scroll) k ctrl where "i = Ti_Key k ctrl" "k \<in> {K_Up, K_Down, K_PageUp, K_PageDown, K_Other}"
    | (mouse) m row where "i = Ti_Mouse m row" | (none) "i = Ti_None"
  proof (cases i)
    case (Ti_Key k ctrl)
    show thesis
    proof (cases k)
      case K_Enter
      show thesis using enter Ti_Key K_Enter by blast
    next
      case K_Esc
      show thesis using esc Ti_Key K_Esc by blast
    next
      case K_Backspace
      show thesis using del Ti_Key K_Backspace by blast
    next
      case (K_Char c)
      show thesis
      proof (cases "ctrl \<and> c = ''c''")
        case True
        then have "i = Ti_Key k True" "k = K_Char ''c''" using Ti_Key K_Char by simp_all
        then show thesis by (rule quit)
      next
        case False
        have "i = Ti_Key (K_Char c) ctrl" using Ti_Key K_Char by simp
        then show thesis using False by (rule char)
      qed
    qed (rule scroll [OF Ti_Key], simp)+
  next
    case (Ti_Mouse m row)
    then show thesis by (rule mouse)
  next
    case Ti_None
    then show thesis by (rule none)
  qed
  then show thesis
  proof cases
    case quit
    then show ?thesis by (intro step [of "a\<lparr>ap_should_quit := True\<rparr>" "[]"]) (simp_all add: take_input_def Handle_Key_Event_def)
  next
    case (enter ctrl)
    define l where "l = str_trim (concat cs)"
    note t = enter_ready [OF assms(1)]
    show ?thesis
    proof (cases "concat cs = []")
      case True
      have "parse_user_command (te_lower te) [] = Inr None" by (simp add: parse_user_command_def)
      moreover have "take_input te True i a = Some (snd (Take_Input a), [])"
        using t True by (simp add: take_input_def Handle_Key_Event_def enter case_prod_unfold)
      ultimately show ?thesis using t(1) True
        by (intro step disjI1 exI [of _ "[]"]) (auto simp: enter Let_def simp del: concat_eq_Nil_conv)
    next
      case False
      obtain b cmds where r: "Handle_Command_Input te True (concat cs) (snd (Take_Input a)) = (b, cmds)" by (rule prod.exhaust)
      have "take_input te True i a = Some (b, cmds)"
        using r t False by (simp add: take_input_def Handle_Key_Event_def enter case_prod_unfold)
      moreover note c = command_input_ready [OF t(1) r, folded l_def]
      have "(\<exists>cs'. ready cs' b \<and> (\<forall>is. terminal_commands (te_lower te) cs (i # is) =
            (case terminal_commands (te_lower te) cs' is of (e, cmds') \<Rightarrow> (e, cmds @ cmds')))) \<or>
          ap_should_quit b \<and> (\<forall>is. terminal_commands (te_lower te) cs (i # is) = (True, cmds @ [Uc_Quit]))"
      proof (cases "l = ''quit'' \<or> l = ''exit''")
        case True
        then show ?thesis using c by (intro disjI2) (auto simp: enter l_def [symmetric])
      next
        case False
        then show ?thesis using c by (intro disjI1 exI [of _ "[]"]) (simp add: enter l_def [symmetric])
      qed
      ultimately show ?thesis by (rule step)
    qed
  next
    case (del ctrl)
    let ?b = "a\<lparr>ap_input_buffer := concat (butlast cs), ap_cursor := length (concat (butlast cs))\<rparr>"
    have "ready (butlast cs) ?b" using assms(1) by (auto simp: ready_def editing_def ui_safe_def list_all_iff dest: in_set_butlastD)
    then show ?thesis using editing_delete [OF e] del
      by (intro step [of ?b "[]"]) (auto simp: take_input_def Handle_Key_Event_def)
  next
    case (char c ctrl)
    let ?b = "a\<lparr>ap_input_buffer := concat (cs @ [c]), ap_cursor := length (concat (cs @ [c]))\<rparr>"
    have c: "utf8_char c" using assms(2) by (simp add: input_ok_def char)
    then have "ready (cs @ [c]) ?b" using editing_char(2) [OF e c] assms(1) by (simp add: ready_def ui_safe_def)
    then show ?thesis using editing_char(1) [OF e c] char
      by (intro step [of ?b "[]"]) (auto simp: take_input_def Handle_Key_Event_def)
  next
    case (esc ctrl)
    have "ready [] (Clear_Input a)" using assms(1) by (simp add: ready_def editing_def Clear_Input_def ui_safe_def)
    then show ?thesis using esc by (intro step [of "Clear_Input a" "[]"]) (auto simp: take_input_def Handle_Key_Event_def)
  next
    case (scroll k ctrl)
    obtain b where b: "take_input te True i a = Some (b, [])" "frame b = frame a \<and> ui_safe b = ui_safe a"
      using scroll by (auto simp: take_input_def Handle_Key_Event_def ui_ops)
    then show ?thesis using k [OF b(2)] scroll by (intro step [OF b(1)]) auto
  next
    case (mouse m row)
    obtain b where "Handle_Mouse_Event m row a = Some b" "ready cs b" using mouse_ready [OF assms(1)] by blast
    then show ?thesis using mouse by (intro step [of b "[]"]) (auto simp: take_input_def)
  next
    case none
    then show ?thesis using assms(1) by (intro step [of a "[]"]) (auto simp: take_input_def)
  qed
qed

lemma turns_refine:
  "list_all (turn_ok te) ts \<Longrightarrow> ready cs a \<Longrightarrow>
   \<exists>b. tui_turns te a ts = Some (fst (terminal_commands (te_lower te) cs (map tn_input ts)), b, snd (terminal_commands (te_lower te) cs (map tn_input ts)))"
proof (induction ts arbitrary: a cs)
  case (Cons t ts)
  obtain ly where ly: "tn_draw t = Some ly" "area_ok (ly_log_area ly)" "area_ok (ly_command_area ly)"
    using Cons.prems(1) by (auto simp: turn_ok_def split: option.splits)
  have t: "list_all (recv_safe te) (tn_bus t)" "\<not> tn_closed t" "tn_open t" "input_ok (tn_input t)"
    using Cons.prems(1) by (simp_all add: turn_ok_def)
  obtain a1 where a1: "Render te ly a = Some a1" "ready cs a1" using Render_ready [OF Cons.prems(2) ly(2,3)] by blast
  then obtain a2 where a2: "drain_bus te (tn_bus t) a1 = Some a2" "ready cs a2"
    using drain_bus_ops [OF t(1), of a1] ready_frame [OF a1(2)] by (auto simp: ready_def)
  have q: "\<not> ap_should_quit b" if "ready cs' b" for cs' b using that by (simp add: ready_def)
  show ?case
  proof (rule input_step [OF a2(2) t(4), where te = te])
    fix b cmds assume i: "take_input te True (tn_input t) a2 = Some (b, cmds)"
      "(\<exists>cs'. ready cs' b \<and> (\<forall>is. terminal_commands (te_lower te) cs (tn_input t # is) =
          (case terminal_commands (te_lower te) cs' is of (e, cmds') \<Rightarrow> (e, cmds @ cmds')))) \<or>
       ap_should_quit b \<and> (\<forall>is. terminal_commands (te_lower te) cs (tn_input t # is) = (True, cmds @ [Uc_Quit]))"
    then show ?thesis
    proof (elim disjE exE conjE)
      fix cs' assume c: "ready cs' b" "\<forall>is. terminal_commands (te_lower te) cs (tn_input t # is) =
          (case terminal_commands (te_lower te) cs' is of (e, cmds') \<Rightarrow> (e, cmds @ cmds'))"
      obtain d where "tui_turns te b ts = Some (fst (terminal_commands (te_lower te) cs' (map tn_input ts)), d,
          snd (terminal_commands (te_lower te) cs' (map tn_input ts)))"
        using Cons.IH [OF _ c(1)] Cons.prems(1) by auto
      then show ?thesis using ly(1) a1(1) a2(1) t i(1) c q [OF c(1)] by (simp add: case_prod_unfold)
    qed (use ly(1) a1(1) a2(1) t i(1) in simp)
  qed
qed simp

lemma terminal_started: "ready [] (Add_Log te tx_t_started App_New)"
proof -
  have "ready [] App_New" by (simp add: ready_def editing_def ui_safe_def App_New_def job_safe_def area_ok_def)
  then show ?thesis by (rule ready_frame) (simp_all add: ui_ops ui_safe_def App_New_def job_safe_def)
qed

text \<open>Typing a line of ASCII characters and the enter key.\<close>

definition type_line :: "string \<Rightarrow> term_input list" where
  "type_line l = map (\<lambda>c. Ti_Key (K_Char [c]) False) l @ [Ti_Key K_Enter False]"

lemma terminal_chars:
  "terminal_commands lower cs (map (\<lambda>c. Ti_Key (K_Char [c]) False) l @ is) = terminal_commands lower (cs @ map (\<lambda>c. [c]) l) is"
  by (induction l arbitrary: cs) auto

lemma terminal_typed:
  assumes "list_all (typeable lower) cmds"
  shows "terminal_commands lower [] (concat (map (type_line \<circ> cmd_text) cmds) @ type_line ''quit'' @ rest) = (True, cmds @ [Uc_Quit])"
  using assms
proof (induction cmds)
  case Nil
  have "str_trim ''quit'' = ''quit''" by (rule str_trim_graphic) (simp add: graphic_def)
  then show ?case by (simp add: type_line_def)
next
  case (Cons cmd cmds)
  then show ?case
    using cmd_text_trim [of lower cmd] cmd_text_no_local [of lower cmd] typed_parsed [of lower cmd]
    by (simp add: type_line_def terminal_chars Let_def)
qed

text \<open>C11: The terminal interface is a line editor in front of the command parser. Whatever events the program
  publishes meanwhile, it does not panic, neither on a cursor within a multi-byte character nor on a cut
  identifier, and it sends the core exactly the commands that the parser reads from the lines typed,
  corrections applied, in order, and a quit request once, at its end.
\<close>

theorem terminal_session:
  assumes "list_all (turn_ok te) ts"
  shows "\<exists>a. TUI_Loop te ts =
    Some (fst (terminal_commands (te_lower te) [] (map tn_input ts)), a, snd (terminal_commands (te_lower te) [] (map tn_input ts)))"
  unfolding TUI_Loop_def by (rule turns_refine [OF assms terminal_started])

text \<open>A user mistypes a character of three bytes, corrects it, lists the files and leaves, while a peer with a
  multi-byte name appears.\<close>

definition demo_env :: tui_env where
  "demo_env = \<lparr>te_time = ''12:00:00'',
     te_parse = (\<lambda>s. Inr (J_Obj [(''type'', J_Str ''peer_discovered''), (''peer_id'', J_Str ''12D3KooWabcd''),
       (''peer_name'', J_Str (utf8 [228, 189, 160]))])),
     te_f64 = (\<lambda>_. None), te_fixed1 = (\<lambda>_. ''0.0''), te_upper = id, te_lower = id\<rparr>"

definition demo_turn :: "term_input \<Rightarrow> turn" where
  "demo_turn i = \<lparr>tn_draw = Some \<lparr>ly_log_area = (0, 20), ly_command_area = (23, 8), ly_text = Some (78, 5)\<rparr>,
     tn_bus = [Br_Event (Te_State ''{..}''), Br_Lagged 3], tn_closed = False, tn_input = i, tn_open = True\<rparr>"

definition demo_keys :: "term_input list" where
  "demo_keys = [Ti_Key (K_Char ''l'') False, Ti_Key (K_Char (utf8 [228, 189, 160])) False, Ti_Mouse M_Up 24,
     Ti_Key K_Backspace False] @ type_line ''s'' @ type_line ''quit''"

theorem terminal_session_witness:
  "\<exists>a. TUI_Loop demo_env (map demo_turn demo_keys) = Some (True, a, [Uc_List, Uc_Quit])"
proof -
  have c: "utf8_char (utf8 [228, 189, 160])" by code_simp
  have q: "utf8_char [d]" if "graphic d" for d using that by (intro ascii_char) (simp add: graphic_def)
  have l: "list_all (\<lambda>i. turn_ok demo_env (demo_turn i) \<longleftrightarrow> input_ok i) demo_keys"
    by (simp add: turn_ok_def demo_turn_def area_ok_def recv_safe_def event_safe_def demo_env_def str_or_def jat_def jget_def
        as_str_def ascii_def list_all_iff unwrap_or_def)
  have "list_all input_ok demo_keys" using c by (simp add: demo_keys_def type_line_def input_ok_def q graphic_def)
  with l have ok: "list_all (turn_ok demo_env) (map demo_turn demo_keys)" by (auto simp: list_all_iff)
  have t: "str_trim ''ls'' = ''ls''" "str_trim ''quit'' = ''quit''" by (simp_all add: graphic_def str_trim_graphic)
  have p: "parse_user_command id ''ls'' = Inr (Some Uc_List)" by (rule plain_line) (simp add: plain_commands_def)
  have i: "map tn_input (map demo_turn demo_keys) = demo_keys" by (simp add: demo_turn_def comp_def)
  have "terminal_commands id [] demo_keys = (True, [Uc_List, Uc_Quit])"
    by (simp add: demo_keys_def type_line_def t p)
  then show ?thesis using terminal_session [OF ok] unfolding i by (simp add: demo_env_def)
qed

section \<open>Layer ranges\<close>

lemma hex_bytes_hex:
  "i + n \<le> length bm \<Longrightarrow> hex_bytes (concat (map hex_byte bm)) i n = Some (Some (take n (drop i bm)))"
  by (induction n arbitrary: i) (auto simp: take_Suc_conv_app_nth Cons_nth_drop_Suc [symmetric])

lemma hex_layers_layers: "length bm = 32 \<Longrightarrow> hex_layers bm = layers_of bm"
proof -
  assume l: "length bm = 32"
  have e: "map (\<lambda>b. i * 8 + b) (filter (\<lambda>b. (bm ! i) AND push_bit b 1 \<noteq> 0) [0..<8]) = filter (layer_bit bm) (map (\<lambda>b. i * 8 + b) [0..<8])" for i
    unfolding filter_map comp_def by (rule arg_cong [where f = "map _"], rule filter_cong) (auto simp: layer_bit_def)
  have "[0..<256] = concat (map (\<lambda>i. map (\<lambda>b. i * 8 + b) [0..<8]) [0..<32])" by code_simp
  then have "layers_of bm = concat (map (filter (layer_bit bm)) (map (\<lambda>i. map (\<lambda>b. i * 8 + b) [0..<8]) [0..<32]))"
    unfolding layers_of_def by (simp only: filter_concat)
  then show ?thesis unfolding hex_layers_def l e by (simp only: map_map comp_def)
qed

text \<open>The layer range shown below a command's result, which the interface computes again from the bitmap's
  text, is the one the storage shows for the bitmap, and none for a bitmap without layers.
\<close>

theorem shown_range:
  assumes "length bm = 32"
  shows "bitmap_hex_to_layer_range (serialize_bitmap_hex bm) = Some (if layers_of bm = [] then None else Some (layer_range bm))"
  using assms hex_bytes_hex [of 0 32 bm] hex_layers_layers [OF assms]
  by (simp add: bitmap_hex_to_layer_range_def serialize_bitmap_hex_def layer_range_def split: list.splits)

theorem shown_range_witness:
  "bitmap_hex_to_layer_range (serialize_bitmap_hex (15 # 2 # replicate 30 0)) = Some (Some ''0-3,9'')"
proof -
  have "layers_of (15 # 2 # replicate 30 0) = [0, 1, 2, 3, 9]" by code_simp
  moreover have "show_nat 0 = ''0''" "show_nat 3 = ''3''" "show_nat 9 = ''9''" by code_simp+
  ultimately show ?thesis using shown_range [of "15 # 2 # replicate 30 0"] by (simp add: layer_range_def show_run_def)
qed

end
