(* ===== verification/Api.thy ===== *)
theory Api
  imports Sessions Texts Chat_Template
begin

text \<open>
  The HTTP interface of a session (\<open>Src/API\<close>): the background task that holds a slot and serves the
  requests one after the other, the handlers of the routes, and the start of the server. Parsing requests
  and transport are the web framework's. The other end of the slot, the session's generation task, appears
  as what it puts into the slot's token channel for a request (\<open>Sessions.handle_request\<close>).
\<close>

section \<open>The slot handler\<close>

record ApiRequest =
  ar_messages :: "Message list"
  ar_max_tokens :: u32
  ar_stream :: bool

text \<open>The stream of a response is what its channel carries, and whether it is ever closed.\<close>

datatype ApiResponse = Ar_NonStreaming string | Ar_Stream "string list" bool | Ar_Error string

text \<open>A request whose reply channel is dropped, or that is never replied to.\<close>

datatype outcome = Answered ApiResponse | Dropped | Never

text \<open>
  What surrounds a request: whether the session takes it, the texts the session puts into the token channel
  for it, whether it drops the channel afterwards, and, for a streaming client that leaves, how many tokens
  it has taken by then.
\<close>

record exchange =
  ex_request :: ApiRequest
  ex_open :: bool
  ex_tokens :: "string list"
  ex_ended :: bool
  ex_leaves :: "nat option"

text \<open>Reading up to the sentinel: the answer and what stays in the channel, or waiting for ever.\<close>

fun read_answer :: "bool \<Rightarrow> string list \<Rightarrow> (string \<times> string list) option" where
  "read_answer ended [] = (if ended then Some ([], []) else None)"
| "read_answer ended (t # ts) =
     (if t = SENTINEL then Some ([], ts)
      else case read_answer ended ts of None \<Rightarrow> None | Some (content, r) \<Rightarrow> Some (t @ content, r))"

text \<open>Passing the tokens on; the loop also ends when the client is gone, after it has taken a token off.\<close>

fun relay_answer :: "bool \<Rightarrow> nat option \<Rightarrow> string list \<Rightarrow> string list \<times> string list option" where
  "relay_answer ended lv [] = ([], if ended then Some [] else None)"
| "relay_answer ended lv (t # ts) =
     (if t = SENTINEL then ([], Some ts)
      else if lv = Some 0 then ([], Some ts)
      else case relay_answer ended (map_option (\<lambda>n. n - 1) lv) ts of (out, r) \<Rightarrow> (t # out, r))"

fun slot_handler :: "string list \<Rightarrow> exchange list \<Rightarrow> outcome list" where
  "slot_handler q [] = []"
| "slot_handler q (x # xs) =
     (if \<not> ex_open x then Answered (Ar_Error ''session closed'') # map (\<lambda>_. Dropped) xs
      else
        (let q = q @ ex_tokens x in
         if ar_stream (ex_request x) then
           (case relay_answer (ex_ended x) (ex_leaves x) q of
              (out, Some r) \<Rightarrow> Answered (Ar_Stream out True) # slot_handler r xs
            | (out, None) \<Rightarrow> Answered (Ar_Stream out False) # map (\<lambda>_. Never) xs)
         else
           (case read_answer (ex_ended x) q of
              Some (content, r) \<Rightarrow> Answered (Ar_NonStreaming content) # slot_handler r xs
            | None \<Rightarrow> map (\<lambda>_. Never) (x # xs))))"

section \<open>The routes\<close>

text \<open>\<open>mid\<close> is the model's name, \<open>cid\<close> the completion's, \<open>now\<close> the time in seconds.\<close>

datatype sse_event = Sse_Json json | Sse_Done

datatype http =
    H_Status nat
  | H_Json nat json
  | H_Sse "sse_event list" bool

definition list_models :: "string \<Rightarrow> json" where
  "list_models mid =
     J_Obj [(''object'', J_Str ''list''),
       (''data'', J_Arr [J_Obj [(''id'', J_Str mid), (''object'', J_Str ''model''), (''created'', J_Num 0), (''owned_by'', J_Str ''pleiades'')]])]"

definition completion_id :: "u32 \<Rightarrow> string" where
  "completion_id nanos = ''chatcmpl-'' @ show_hex8 nanos"

definition completion :: "string \<Rightarrow> nat \<Rightarrow> string \<Rightarrow> string \<Rightarrow> json" where
  "completion cid now mid content =
     J_Obj [(''id'', J_Str cid), (''object'', J_Str ''chat.completion''), (''created'', J_Num now), (''model'', J_Str mid),
       (''choices'', J_Arr [J_Obj [(''index'', J_Num 0),
          (''message'', J_Obj [(''role'', J_Str ''assistant''), (''content'', J_Str content)]), (''finish_reason'', J_Str ''stop'')]])]"

definition chunk :: "string \<Rightarrow> nat \<Rightarrow> string \<Rightarrow> string option \<Rightarrow> string option \<Rightarrow> json" where
  "chunk cid now mid content finish =
     J_Obj [(''id'', J_Str cid), (''object'', J_Str ''chat.completion.chunk''), (''created'', J_Num now), (''model'', J_Str mid),
       (''choices'', J_Arr [J_Obj [(''index'', J_Num 0),
          (''delta'', J_Obj (case content of Some c \<Rightarrow> [(''content'', J_Str c)] | None \<Rightarrow> [])),
          (''finish_reason'', case finish of Some f \<Rightarrow> J_Str f | None \<Rightarrow> J_Null)]])]"

text \<open>The events of a response stream; it stays open when its channel does.\<close>

definition sse_token_stream :: "string list \<Rightarrow> bool \<Rightarrow> string \<Rightarrow> nat \<Rightarrow> string \<Rightarrow> sse_event list \<times> bool" where
  "sse_token_stream tokens closed cid now mid =
     (let ts = takeWhile (\<lambda>t. t \<noteq> SENTINEL) tokens;
          fin = closed \<or> length ts < length tokens;
          chunks = map (\<lambda>t. Sse_Json (chunk cid now mid (Some t) None)) ts
      in (chunks @ (if fin then [Sse_Json (chunk cid now mid None (Some ''stop'')), Sse_Done] else []), fin))"

definition chat_completions :: "string \<Rightarrow> nat \<Rightarrow> string \<Rightarrow> ApiRequest \<Rightarrow> outcome \<Rightarrow> http option" where
  "chat_completions cid now mid req reply =
     (if ar_messages req = [] then Some (H_Status 400)
      else case reply of
        Never \<Rightarrow> None
      | Dropped \<Rightarrow> Some (H_Status 500)
      | Answered (Ar_Error msg) \<Rightarrow> Some (H_Json 500 (J_Obj [(''error'', J_Str msg)]))
      | Answered (Ar_NonStreaming content) \<Rightarrow> Some (H_Json 200 (completion cid now mid content))
      | Answered (Ar_Stream tokens closed) \<Rightarrow>
          (case sse_token_stream tokens closed cid now mid of (evs, fin) \<Rightarrow> Some (H_Sse evs fin)))"

section \<open>The server\<close>

text \<open>\<open>is_free\<close>: a port of the host can be bound; \<open>bound\<close>: the outcome of binding the chosen one.\<close>

definition find_available_port :: "(u16 \<Rightarrow> bool) \<Rightarrow> u16 \<Rightarrow> string + u16" where
  "find_available_port is_free start =
     (case find is_free (map (\<lambda>i. start + of_nat i) [0..<100]) of
        Some p \<Rightarrow> Inr p
      | None \<Rightarrow> Inl (''no available port in range '' @ show_nat (unat start) @ ''-'' @ show_nat (unat (start + 99))))"

definition spawn_api_server ::
  "(Session_Error \<Rightarrow> string) \<Rightarrow> (u16 \<Rightarrow> bool) \<Rightarrow> (u16 \<Rightarrow> string + unit) \<Rightarrow> u64 \<Rightarrow> SessionManager \<Rightarrow>
   (string + u16 \<times> SlotHandle) \<times> SessionManager" where
  "spawn_api_server show_err is_free bound session_id mgr =
     (case allocate_slot session_id mgr of
        (Inl e, mgr) \<Rightarrow>
          (Inl (''allocate_slot: '' @ show_err e @ '' (session may not exist or slots exhausted)''), mgr)
      | (Inr h, mgr) \<Rightarrow>
          (rbind (find_available_port is_free 8080) (\<lambda>port.
           rbind (map_err (\<lambda>e. ''bind 127.0.0.1:'' @ show_nat (unat port) @ '': '' @ e) (bound port)) (\<lambda>_.
           Inr (port, h))), mgr))"

section \<open>Properties\<close>

definition answer_of :: "ApiRequest \<Rightarrow> string list \<Rightarrow> outcome" where
  "answer_of r ts = Answered (if ar_stream r then Ar_Stream ts True else Ar_NonStreaming (concat ts))"

definition whole :: "exchange \<Rightarrow> string list \<Rightarrow> bool" where
  "whole x ts \<longleftrightarrow> ex_open x \<and> ex_tokens x = ts @ [SENTINEL] \<and> SENTINEL \<notin> set ts"

lemma read_whole: "SENTINEL \<notin> set ts \<Longrightarrow> read_answer e (ts @ SENTINEL # q) = Some (concat ts, q)"
  by (induction ts) auto

lemma relay_stays: "SENTINEL \<notin> set ts \<Longrightarrow> relay_answer e None (ts @ SENTINEL # q) = (ts, Some q)"
  by (induction ts) auto

lemma relay_leaves:
  "SENTINEL \<notin> set ts \<Longrightarrow> k < length ts \<Longrightarrow> relay_answer e (Some k) (ts @ q) = (take k ts, Some (drop (Suc k) ts @ q))"
proof (induction ts arbitrary: k)
  case (Cons t ts)
  then show ?case by (cases k) auto
qed simp


definition demo_exchange :: "bool \<Rightarrow> string list \<Rightarrow> nat option \<Rightarrow> exchange" where
  "demo_exchange stream ts lv =
     \<lparr>ex_request = \<lparr>ar_messages = [\<lparr>ms_role = ''user'', ms_content = ''hi''\<rparr>], ar_max_tokens = 256, ar_stream = stream\<rparr>,
      ex_open = True, ex_tokens = ts @ [SENTINEL], ex_ended = False, ex_leaves = lv\<rparr>"


text \<open>C39: A streaming client that leaves early mixes up the answers of everyone after it: the rest of its own
  answer is what the next request gets, and from then on every request is answered with the tokens
  generated for the request before it.
\<close>

theorem leaving_client_shifts_answers:
  assumes "list_all2 whole (x # xs) (ts # tss)" "list_all (\<lambda>x. ex_leaves x = None) xs"
    and "ar_stream (ex_request x)" "ex_leaves x = Some k" "k < length ts"
  shows "slot_handler [] (x # xs) =
    Answered (Ar_Stream (take k ts) True) # map2 (\<lambda>x. answer_of (ex_request x)) xs (butlast (drop (Suc k) ts # tss))"
proof -
  have x: "ex_open x" "ex_tokens x = ts @ [SENTINEL]" "SENTINEL \<notin> set ts" using assms(1) by (auto simp: whole_def)
  have r: "relay_answer (ex_ended x) (Some k) (ts @ [SENTINEL]) = (take k ts, Some (drop (Suc k) ts @ [SENTINEL]))"
    by (rule relay_leaves [OF x(3) assms(5)])
  have "slot_handler (us @ [SENTINEL]) xs = map2 (\<lambda>x. answer_of (ex_request x)) xs (butlast (us # tss))"
    if "SENTINEL \<notin> set us" "list_all2 whole xs tss" "list_all (\<lambda>x. ex_leaves x = None) xs" for us
    using that(2,3,1)
  proof (induction xs tss arbitrary: us rule: list_all2_induct)
    case (Cons y ys vs vss)
    then have y: "ex_open y" "ex_tokens y = vs @ [SENTINEL]" "SENTINEL \<notin> set vs" "ex_leaves y = None" by (auto simp: whole_def)
    then show ?case using Cons read_whole [of us "ex_ended y"] relay_stays [of us "ex_ended y"]
      by (simp add: answer_of_def)
  qed simp
  moreover have "SENTINEL \<notin> set (drop (Suc k) ts)" using x(3) in_set_dropD by fast
  ultimately have "slot_handler (drop (Suc k) ts @ [SENTINEL]) xs =
      map2 (\<lambda>x. answer_of (ex_request x)) xs (butlast (drop (Suc k) ts # tss))" using assms by simp
  then show ?thesis using assms x r by simp
qed

theorem leaving_client_shifts_answers_witness:
  "slot_handler [] [demo_exchange True [''a'', ''b'', ''c''] (Some 1), demo_exchange False [''d''] None, demo_exchange False [''e''] None] =
     [Answered (Ar_Stream [''a''] True), Answered (Ar_NonStreaming ''c''), Answered (Ar_NonStreaming ''d'')]"
  by (subst leaving_client_shifts_answers [of _ _ "[''a'', ''b'', ''c'']" "[[''d''], [''e'']]" 1])
    (simp_all add: whole_def demo_exchange_def SENTINEL_def answer_of_def)

end
