(* ===== verification/Configuration.thy ===== *)
theory Configuration
  imports Network_Service Texts
begin

text \<open>
  Configuration and identity of a node (\<open>Src/Config\<close>) and what a start makes of them (\<open>Src/main.rs\<close>, the
  first phase and the network settings). The TOML reader, the document editor and the key pair are
  parameters; files are a map from paths to contents, directories a list.
\<close>

section \<open>Settings\<close>

record Log_Config =
  lc_level :: "string option"
  lc_log_file_path :: "string option"

record Network_Config =
  nc_LAN :: "bool option"
  nc_WAN :: "bool option"
  nc_Transport_Protocol :: "string option"
  nc_cleanup_interval :: "u64 option"
  nc_timeout_interval :: "u64 option"
  nc_heartbeat_interval :: "u64 option"
  nc_heartbeat_timeout :: "u64 option"
  nc_request_response_timeout :: "u64 option"

record Storage_Config =
  sc_workspace_dir :: "string option"
  sc_kvcache_dir :: "string option"

record Identity_Config =
  ic_peer_name :: "string option"

record Pleiades_Config =
  pc_Log :: "Log_Config option"
  pc_Network :: "Network_Config option"
  pc_Storage :: "Storage_Config option"
  pc_Identity :: "Identity_Config option"

definition Get_Peer_Name :: "Pleiades_Config \<Rightarrow> string" where
  "Get_Peer_Name c = unwrap_or ''new_peer'' (Option.bind (pc_Identity c) ic_peer_name)"

definition workspace_dir :: "Pleiades_Config \<Rightarrow> string" where
  "workspace_dir c = unwrap_or ''Pleiades_Workspace'' (Option.bind (pc_Storage c) sc_workspace_dir)"

text \<open>\<open>Path::join\<close> of a relative name.\<close>

definition log_dir :: "Pleiades_Config \<Rightarrow> string \<Rightarrow> string" where
  "log_dir c ws = (case Option.bind (pc_Log c) lc_log_file_path of Some p \<Rightarrow> p | None \<Rightarrow> ws @ ''/Log'')"

definition log_level :: "Pleiades_Config \<Rightarrow> string" where
  "log_level c = unwrap_or ''info'' (Option.bind (pc_Log c) lc_level)"

definition network_config :: "Pleiades_Config \<Rightarrow> NetworkConfig" where
  "network_config c =
     (let n = pc_Network c in
      \<lparr>lan_enabled = unwrap_or True (Option.bind n nc_LAN), wan_enabled = unwrap_or False (Option.bind n nc_WAN),
       transport_protocol = unwrap_or ''TCP'' (Option.bind n nc_Transport_Protocol), listen_port = 0, bootstrap_peers = [],
       cleanup_interval = unwrap_or 300 (Option.bind n nc_cleanup_interval),
       timeout_interval = unwrap_or 300 (Option.bind n nc_timeout_interval),
       heartbeat_interval = unwrap_or 60 (Option.bind n nc_heartbeat_interval),
       heartbeat_timeout = unwrap_or 10 (Option.bind n nc_heartbeat_timeout),
       request_response_timeout = unwrap_or 300 (Option.bind n nc_request_response_timeout)\<rparr>)"

section \<open>Files\<close>

definition CONFIG_DIR :: string where "CONFIG_DIR = ''.config''"

definition CONFIG_FILE :: string where "CONFIG_FILE = ''.config/config.toml''"

definition KEYPAIR_FILE :: string where "KEYPAIR_FILE = ''.config/keypair.bin''"

definition DEFAULT_CONFIG :: string where
  "DEFAULT_CONFIG = join_lines
     [''# Pleiades '' @ utf8 [233, 133, 141, 231, 189, 174, 230, 150, 135, 228, 187, 182],
      [],
      ''[Log]'',
      ''# '' @ utf8 [230, 151, 165, 229, 191, 151, 231, 186, 167, 229, 136, 171] @ '': trace, debug, info, warn, error'',
      ''level = '' @ utf8 [34] @ ''info'' @ utf8 [34],
      ''# '' @ utf8 [230, 151, 165, 229, 191, 151, 230, 150, 135, 228, 187, 182, 232, 183, 175, 229, 190, 132] @ '' ('' @ utf8 [231, 149, 153, 231, 169, 186, 229, 136, 153, 232, 190, 147, 229, 135, 186, 229, 136, 176, 230, 142, 167, 229, 136, 182, 229, 143, 176] @ '')'',
      ''log_file_path = '' @ utf8 [34] @ ''Log/'' @ utf8 [34],
      [],
      ''[Network]'',
      ''LAN = true'',
      ''WAN = false'',
      ''Transport_Protocol = '' @ utf8 [34] @ ''TCP'' @ utf8 [34] @ '' # TCP/QUIC'',
      ''# '' @ utf8 [232, 138, 130, 231, 130, 185, 231, 174, 161, 231, 144, 134, 231, 155, 184, 229, 133, 179, 233, 133, 141, 231, 189, 174],
      ''cleanup_interval = 300'',
      ''timeout_interval = 300'',
      ''heartbeat_interval = 60'',
      ''heartbeat_timeout = 10'',
      ''request_response_timeout = 300'',
      [],
      ''[Storage]'',
      ''workspace_dir = '' @ utf8 [34] @ ''Pleiades_Workspace'' @ utf8 [34],
      ''quota_gb = 0'',
      ''kvcache_dir = '' @ utf8 [34] @ ''.kvcache'' @ utf8 [34],
      [],
      ''[Identity]'',
      ''peer_name = '' @ utf8 [34] @ ''new_peer'' @ utf8 [34],
      []]"

record files =
  fl_dirs :: "string list"
  fl_disk :: "(string \<times> string) list"

text \<open>The environment: paths that cannot be read or written, the TOML reader (an error has its text), the
  editor that sets a key of a section in a document, and a key pair's encoding.\<close>

record 'k cfg_env =
  cv_bad_read :: "string \<Rightarrow> bool"
  cv_bad_write :: "string \<Rightarrow> bool"
  cv_toml :: "string \<Rightarrow> string + Pleiades_Config"
  cv_edit :: "string \<Rightarrow> string \<Rightarrow> string \<Rightarrow> string \<Rightarrow> string + string"
  cv_encode :: "'k \<Rightarrow> string + string"
  cv_decode :: "string \<Rightarrow> string + 'k"

datatype cfg_error = Cfg_Io string | Cfg_Text string

definition read_file :: "'k cfg_env \<Rightarrow> string \<Rightarrow> files \<Rightarrow> cfg_error + string" where
  "read_file E p d = (if cv_bad_read E p then Inl (Cfg_Io p) else ok_or (Cfg_Io p) (map_of (fl_disk d) p))"

definition write_file :: "'k cfg_env \<Rightarrow> string \<Rightarrow> string \<Rightarrow> files \<Rightarrow> cfg_error + files" where
  "write_file E p s d = (if cv_bad_write E p then Inl (Cfg_Io p) else Inr (d\<lparr>fl_disk := AList.update p s (fl_disk d)\<rparr>))"

definition create_dir_all :: "'k cfg_env \<Rightarrow> string \<Rightarrow> files \<Rightarrow> cfg_error + files" where
  "create_dir_all E p d =
     (if p \<in> set (fl_dirs d) then Inr d else if cv_bad_write E p then Inl (Cfg_Io p) else Inr (d\<lparr>fl_dirs := p # fl_dirs d\<rparr>))"

section \<open>Operations\<close>

text \<open>\<open>read_to_string\<close> also fails on bytes that are not UTF-8.\<close>

definition read_text :: "'k cfg_env \<Rightarrow> string \<Rightarrow> files \<Rightarrow> cfg_error + string" where
  "read_text E p d = rbind (read_file E p d) (\<lambda>s. if is_str s then Inr s else Inl (Cfg_Io p))"

definition Read_Config :: "'k cfg_env \<Rightarrow> string \<Rightarrow> files \<Rightarrow> cfg_error + Pleiades_Config" where
  "Read_Config E p d = rbind (read_text E p d) (\<lambda>s. map_err Cfg_Text (cv_toml E s))"

definition Ensure_Config :: "'k cfg_env \<Rightarrow> files \<Rightarrow> cfg_error + Pleiades_Config \<times> files" where
  "Ensure_Config E d =
     rbind (if map_of (fl_disk d) CONFIG_FILE = None
            then rbind (if CONFIG_DIR \<in> set (fl_dirs d) then Inr d else create_dir_all E CONFIG_DIR d)
                   (write_file E CONFIG_FILE DEFAULT_CONFIG)
            else Inr d) (\<lambda>d.
     rbind (Read_Config E CONFIG_FILE d) (\<lambda>c. Inr (c, d)))"

definition Update_Config :: "'k cfg_env \<Rightarrow> string \<Rightarrow> string \<Rightarrow> string \<Rightarrow> string \<Rightarrow> files \<Rightarrow> cfg_error + files" where
  "Update_Config E p sec key val d =
     rbind (read_text E p d) (\<lambda>s. rbind (map_err Cfg_Text (cv_edit E s sec key val)) (\<lambda>s. write_file E p s d))"

definition Set_Peer_Name :: "'k cfg_env \<Rightarrow> string \<Rightarrow> string \<Rightarrow> files \<Rightarrow> cfg_error + files" where
  "Set_Peer_Name E p name = Update_Config E p ''Identity'' ''peer_name'' name"

text \<open>The cache directory is read from the configuration once; \<open>cached\<close> is the cell it is kept in.\<close>

definition kvcache_dir :: "'k cfg_env \<Rightarrow> files \<Rightarrow> string option \<Rightarrow> string \<times> string option" where
  "kvcache_dir E d cached =
     (let dir = (case cached of
        Some k \<Rightarrow> k
      | None \<Rightarrow>
          (case Read_Config E CONFIG_FILE d of
             Inr c \<Rightarrow> unwrap_or ''.kvcache'' (Option.bind (pc_Storage c) sc_kvcache_dir)
           | Inl _ \<Rightarrow> ''.kvcache''))
      in (dir, Some dir))"

text \<open>\<open>fresh\<close> is the key pair that would be generated.\<close>

definition Ensure_Identity :: "'k cfg_env \<Rightarrow> 'k \<Rightarrow> files \<Rightarrow> cfg_error + 'k \<times> files" where
  "Ensure_Identity E fresh d =
     (if map_of (fl_disk d) KEYPAIR_FILE \<noteq> None then
        rbind (read_file E KEYPAIR_FILE d) (\<lambda>s. rbind (map_err Cfg_Text (cv_decode E s)) (\<lambda>k. Inr (k, d)))
      else
        rbind (create_dir_all E CONFIG_DIR d) (\<lambda>d.
        rbind (map_err Cfg_Text (cv_encode E fresh)) (\<lambda>s.
        rbind (write_file E KEYPAIR_FILE s d) (\<lambda>d. Inr (fresh, d)))))"

text \<open>The first phase of a start.\<close>

definition startup :: "'k cfg_env \<Rightarrow> 'k \<Rightarrow> files \<Rightarrow> cfg_error + Pleiades_Config \<times> 'k \<times> files" where
  "startup E fresh d =
     rbind (Ensure_Config E d) (\<lambda>(c, d).
     rbind (Ensure_Identity E fresh d) (\<lambda>(k, d).
     rbind (create_dir_all E (workspace_dir c) d) (\<lambda>d.
     rbind (create_dir_all E (fst (kvcache_dir E d None)) d) (\<lambda>d. Inr (c, k, d)))))"

section \<open>Properties\<close>

text \<open>What is relied on of the key encoding and of the TOML libraries: a stored key pair is read back, and
  the editor keeps the document a text in which exactly the edited setting has changed.\<close>

definition keys_ok :: "'k cfg_env \<Rightarrow> bool" where
  "keys_ok E \<longleftrightarrow> (\<forall>k s. cv_encode E k = Inr s \<longrightarrow> cv_decode E s = Inr k)"

definition with_peer_name :: "string \<Rightarrow> Pleiades_Config \<Rightarrow> Pleiades_Config" where
  "with_peer_name name c = c\<lparr>pc_Identity := Some \<lparr>ic_peer_name = Some name\<rparr>\<rparr>"

definition editor_ok :: "'k cfg_env \<Rightarrow> bool" where
  "editor_ok E \<longleftrightarrow> (\<forall>s c name s'. cv_toml E s = Inr c \<longrightarrow> cv_edit E s ''Identity'' ''peer_name'' name = Inr s' \<longrightarrow>
     is_str s' \<and> cv_toml E s' = Inr (with_peer_name name c))"

definition settled :: "'k cfg_env \<Rightarrow> Pleiades_Config \<Rightarrow> 'k \<Rightarrow> files \<Rightarrow> bool" where
  "settled E c k d \<longleftrightarrow> Read_Config E CONFIG_FILE d = Inr c \<and>
     rbind (read_file E KEYPAIR_FILE d) (\<lambda>s. map_err Cfg_Text (cv_decode E s)) = Inr k"

lemma paths_differ [simp]: "CONFIG_FILE \<noteq> KEYPAIR_FILE" "KEYPAIR_FILE \<noteq> CONFIG_FILE"
  by (simp_all add: CONFIG_FILE_def KEYPAIR_FILE_def)

lemma map_err_Inr: "map_err f x = Inr y \<longleftrightarrow> x = Inr y"
  by (cases x) auto

lemma create_dir_disk: "create_dir_all E p d = Inr d' \<Longrightarrow> fl_disk d' = fl_disk d"
  by (auto simp: create_dir_all_def split: if_splits)

lemma read_exists: "read_file E p d = Inr s \<Longrightarrow> map_of (fl_disk d) p \<noteq> None"
  by (auto simp: read_file_def ok_or_def split: if_splits option.splits)

lemma read_written:
  "write_file E p s d = Inr d' \<Longrightarrow> read_file E q d' = (if q = p then (if cv_bad_read E p then Inl (Cfg_Io p) else Inr s) else read_file E q d)"
  by (auto simp: write_file_def read_file_def ok_or_def update_conv split: if_splits)

lemma Read_Config_disk: "fl_disk d' = fl_disk d \<Longrightarrow> Read_Config E p d' = Read_Config E p d"
  unfolding Read_Config_def read_text_def read_file_def by (erule ssubst) (rule refl)

lemma settled_disk: "fl_disk d' = fl_disk d \<Longrightarrow> settled E c k d' = settled E c k d"
  unfolding settled_def Read_Config_def read_text_def read_file_def by (erule ssubst) (rule refl)

lemma create_dir_made: "create_dir_all E p d = Inr d' \<Longrightarrow> p \<in> set (fl_dirs d') \<and> set (fl_dirs d) \<subseteq> set (fl_dirs d')"
  by (auto simp: create_dir_all_def split: if_splits)

lemma create_dir_there: "p \<in> set (fl_dirs d) \<Longrightarrow> create_dir_all E p d = Inr d"
  by (simp add: create_dir_all_def)

lemma write_dirs: "write_file E p s d = Inr d' \<Longrightarrow> fl_dirs d' = fl_dirs d"
  by (auto simp: write_file_def split: if_splits)

lemma Read_Config_exists: "Read_Config E p d = Inr c \<Longrightarrow> map_of (fl_disk d) p \<noteq> None"
  by (cases "read_file E p d") (auto simp: Read_Config_def read_text_def dest: read_exists)

lemma Ensure_Config_read: "Ensure_Config E d = Inr (c, d') \<Longrightarrow> Read_Config E CONFIG_FILE d' = Inr c"
proof -
  assume "Ensure_Config E d = Inr (c, d')"
  then obtain d1 where "rbind (Read_Config E CONFIG_FILE d1) (\<lambda>c. Inr (c, d1)) = Inr (c, d')"
    unfolding Ensure_Config_def by (blast dest: rbind_eq_Inr [THEN iffD1])
  then show ?thesis by (cases "Read_Config E CONFIG_FILE d1") simp_all
qed

lemma Ensure_Config_there: "Read_Config E CONFIG_FILE d = Inr c \<Longrightarrow> Ensure_Config E d = Inr (c, d)"
  using Read_Config_exists [of E CONFIG_FILE d c] by (cases "map_of (fl_disk d) CONFIG_FILE") (simp_all add: Ensure_Config_def)

lemma write_other: "write_file E p s d = Inr d' \<Longrightarrow> q \<noteq> p \<Longrightarrow> Read_Config E q d' = Read_Config E q d"
  by (simp add: Read_Config_def read_text_def read_written)

text \<open>A started node is settled: both files are in place and both directories exist.\<close>

definition dirs_made :: "'k cfg_env \<Rightarrow> Pleiades_Config \<Rightarrow> files \<Rightarrow> bool" where
  "dirs_made E c d \<longleftrightarrow> workspace_dir c \<in> set (fl_dirs d) \<and> fst (kvcache_dir E d None) \<in> set (fl_dirs d)"

lemma identity_settles:
  assumes "keys_ok E" "\<not> cv_bad_read E KEYPAIR_FILE" "Read_Config E CONFIG_FILE d = Inr c" "Ensure_Identity E fresh d = Inr (k, d')"
  shows "settled E c k d'"
proof (cases "map_of (fl_disk d) KEYPAIR_FILE = None")
  case True
  then obtain d1 s where d1: "create_dir_all E CONFIG_DIR d = Inr d1" "cv_encode E fresh = Inr s" "write_file E KEYPAIR_FILE s d1 = Inr d'" "k = fresh"
    using assms(4) by (auto simp: Ensure_Identity_def rbind_eq_Inr map_err_Inr)
  have "Read_Config E CONFIG_FILE d' = Inr c"
    using write_other [OF d1(3), of CONFIG_FILE] Read_Config_disk [OF create_dir_disk [OF d1(1)], of E CONFIG_FILE] assms(3) by simp
  then show ?thesis using assms(1,2) d1 read_written [OF d1(3), of KEYPAIR_FILE] by (simp add: settled_def keys_ok_def)
next
  case False
  then show ?thesis using assms(3,4) by (auto simp: Ensure_Identity_def settled_def rbind_eq_Inr map_err_Inr)
qed

lemma startup_settles:
  assumes "keys_ok E" "\<not> cv_bad_read E KEYPAIR_FILE" "startup E fresh d = Inr (c, k, d')"
  shows "settled E c k d' \<and> dirs_made E c d'"
proof -
  obtain c1 d1 where 1: "Ensure_Config E d = Inr (c1, d1)"
    using assms(3) by (cases "Ensure_Config E d") (auto simp: startup_def)
  obtain k1 d2 where 2: "Ensure_Identity E fresh d1 = Inr (k1, d2)"
    using assms(3) 1 by (cases "Ensure_Identity E fresh d1") (auto simp: startup_def)
  obtain d3 where 3: "create_dir_all E (workspace_dir c1) d2 = Inr d3"
    using assms(3) 1 2 by (cases "create_dir_all E (workspace_dir c1) d2") (auto simp: startup_def)
  have 4: "create_dir_all E (fst (kvcache_dir E d3 None)) d3 = Inr d'" "c1 = c" "k1 = k"
    using assms(3) 1 2 3 by (cases "create_dir_all E (fst (kvcache_dir E d3 None)) d3"; simp add: startup_def)+
  note s = 1 [unfolded 4(2)] 2 [unfolded 4(3)] 3 [unfolded 4(2)] 4(1)
  have t: "settled E c k d2" by (rule identity_settles [OF assms(1,2) Ensure_Config_read [OF s(1)] s(2)])
  note disk = create_dir_disk [OF s(4)] create_dir_disk [OF s(3)]
  have "kvcache_dir E d' None = kvcache_dir E d3 None"
    unfolding kvcache_dir_def Read_Config_disk [OF disk(1), of E CONFIG_FILE] by (rule refl)
  moreover have "settled E c k d'" unfolding settled_disk [OF disk(1)] settled_disk [OF disk(2)] by (rule t)
  ultimately show ?thesis using create_dir_made [OF s(3)] create_dir_made [OF s(4)] by (auto simp: dirs_made_def)
qed

lemma settled_starts:
  assumes "settled E c k d" "dirs_made E c d"
  shows "startup E fresh d = Inr (c, k, d)"
proof -
  obtain s where s: "read_file E KEYPAIR_FILE d = Inr s" "cv_decode E s = Inr k"
    using assms(1) by (auto simp: settled_def rbind_eq_Inr map_err_Inr)
  then have "Ensure_Identity E fresh d = Inr (k, d)" using read_exists [OF s(1)] by (simp add: Ensure_Identity_def)
  then show ?thesis using assms Ensure_Config_there [of E d c]
    by (simp add: startup_def settled_def dirs_made_def create_dir_there)
qed

lemma renamed_settled:
  assumes "editor_ok E" "settled E c k d" "dirs_made E c d" "Set_Peer_Name E CONFIG_FILE name d = Inr d'"
  shows "settled E (with_peer_name name c) k d' \<and> dirs_made E (with_peer_name name c) d'"
proof -
  obtain s s' where s: "read_text E CONFIG_FILE d = Inr s" "cv_edit E s ''Identity'' ''peer_name'' name = Inr s'" "write_file E CONFIG_FILE s' d = Inr d'"
    using assms(4) by (auto simp: Set_Peer_Name_def Update_Config_def rbind_eq_Inr map_err_Inr)
  have "cv_toml E s = Inr c" using assms(2) s(1) by (simp add: settled_def Read_Config_def map_err_Inr)
  then have e: "is_str s'" "cv_toml E s' = Inr (with_peer_name name c)" using assms(1) s(2) by (auto simp: editor_ok_def)
  have "\<not> cv_bad_read E CONFIG_FILE" using s(1) by (auto simp: read_text_def rbind_eq_Inr read_file_def split: if_splits)
  then have r: "Read_Config E CONFIG_FILE d' = Inr (with_peer_name name c)"
    using read_written [OF s(3), of CONFIG_FILE] e by (simp add: Read_Config_def read_text_def)
  moreover have "kvcache_dir E d' None = kvcache_dir E d None"
    using r assms(2) by (simp add: kvcache_dir_def settled_def with_peer_name_def)
  ultimately show ?thesis using assms(2,3) read_written [OF s(3), of KEYPAIR_FILE] write_dirs [OF s(3)]
    by (simp add: settled_def dirs_made_def workspace_dir_def with_peer_name_def)
qed

text \<open>C40: A node keeps its identity and its name over restarts. After a first start, on whatever files it finds, and
  a change of name, every later start finds the key pair of the first one, not a new one, the new name, and
  every other setting as it was, and writes nothing.
\<close>

theorem identity_survives_restart:
  assumes "keys_ok E" "editor_ok E" "\<not> cv_bad_read E KEYPAIR_FILE"
    and "startup E k0 d = Inr (c, k, d1)" "Set_Peer_Name E CONFIG_FILE name d1 = Inr d2"
  shows "\<exists>c'. startup E k1 d2 = Inr (c', k, d2) \<and> Get_Peer_Name c' = name \<and> network_config c' = network_config c \<and>
    workspace_dir c' = workspace_dir c \<and> log_dir c' = log_dir c \<and> log_level c' = log_level c"
proof -
  have "settled E c k d1 \<and> dirs_made E c d1" by (rule startup_settles [OF assms(1,3,4)])
  then have "settled E (with_peer_name name c) k d2 \<and> dirs_made E (with_peer_name name c) d2"
    using renamed_settled [OF assms(2) _ _ assms(5)] by blast
  then have "startup E k1 d2 = Inr (with_peer_name name c, k, d2)" by (simp add: settled_starts)
  then show ?thesis
    by (simp add: with_peer_name_def Get_Peer_Name_def network_config_def workspace_dir_def log_dir_def log_level_def fun_eq_iff unwrap_or_def)
qed

text \<open>A first start beside an existing configuration, with a toy document whose text is the node's name.\<close>

definition demo_cfg :: "string cfg_env" where
  "demo_cfg = \<lparr>cv_bad_read = (\<lambda>_. False), cv_bad_write = (\<lambda>_. False),
     cv_toml = (\<lambda>s. Inr \<lparr>pc_Log = None, pc_Network = None, pc_Storage = None, pc_Identity = Some \<lparr>ic_peer_name = Some s\<rparr>\<rparr>),
     cv_edit = (\<lambda>s sec key val. if is_str val then Inr val else Inl ''bad text''),
     cv_encode = (\<lambda>k. Inr (''key '' @ k)), cv_decode = (\<lambda>s. Inr (drop 4 s))\<rparr>"

definition demo_files :: "string \<Rightarrow> files" where
  "demo_files t = \<lparr>fl_dirs = [''.kvcache'', ''Pleiades_Workspace'', ''.config''], fl_disk = [(CONFIG_FILE, t), (KEYPAIR_FILE, ''key abc'')]\<rparr>"

definition demo_config :: Pleiades_Config where
  "demo_config = \<lparr>pc_Log = None, pc_Network = None, pc_Storage = None, pc_Identity = Some \<lparr>ic_peer_name = Some ''n0''\<rparr>\<rparr>"

lemma demo_texts: "is_str ''n0''" "is_str ''n1''"
  by code_simp+

lemma demo_first_start:
  "startup demo_cfg ''abc'' \<lparr>fl_dirs = [''.config''], fl_disk = [(CONFIG_FILE, ''n0'')]\<rparr> = Inr (demo_config, ''abc'', demo_files ''n0'')"
  using demo_texts
  by (simp add: startup_def Ensure_Config_def Ensure_Identity_def Read_Config_def read_text_def read_file_def write_file_def
      create_dir_all_def kvcache_dir_def workspace_dir_def demo_cfg_def demo_files_def demo_config_def ok_or_def unwrap_or_def
      CONFIG_DIR_def Let_def)

theorem identity_survives_restart_witness:
  "\<exists>c'. startup demo_cfg ''other'' (demo_files ''n1'') = Inr (c', ''abc'', demo_files ''n1'') \<and> Get_Peer_Name c' = ''n1''"
proof -
  have "keys_ok demo_cfg" "editor_ok demo_cfg" "\<not> cv_bad_read demo_cfg KEYPAIR_FILE"
    by (auto simp: keys_ok_def editor_ok_def demo_cfg_def with_peer_name_def split: if_splits)
  moreover have "Set_Peer_Name demo_cfg CONFIG_FILE ''n1'' (demo_files ''n0'') = Inr (demo_files ''n1'')"
    using demo_texts
    by (simp add: Set_Peer_Name_def Update_Config_def read_text_def read_file_def write_file_def demo_cfg_def demo_files_def ok_or_def)
  ultimately show ?thesis using identity_survives_restart [OF _ _ _ demo_first_start] by blast
qed

end
