(* ===== verification/Spec2Isabelle.thy ===== *)
theory Spec2Isabelle
  imports Prelude Wire Codec Tensor_Protocol File_Protocol Bandwidth_Protocol Session_Protocol Rendezvous Bitmap Peers Node Network_Service Storage Commands Sessions Registry Texts Orchestrator Orchestrator_Tasks Tensor_Bytes GGUF PGGUF Model_Peers Transformer Model_Loading Chat_Template Kv_File Ml_Context Script_Streams User_Commands Terminal Panels Terminal_Events Terminal_Session Api Configuration
begin

text \<open>
  Verification development for Pleiades, a runtime for inference of language models distributed over the
  nodes of a local network (the sources are under \<open>src/Src\<close>).

  A node is a set of components around an orchestrator. The network component keeps a swarm of peers and
  moves requests, files, tensors and chat sessions between them; the storage keeps model files in a
  directory under per-file locks; the peer directory knows which node holds which layers; the model engine
  reads, splits and converts GGUF files and runs the layers it has loaded; sessions multiplex chat clients
  onto a model thread; scripts tie these together, and a user drives a node by a terminal interface, a
  command line or HTTP. The core of the orchestrator is one loop over user commands, requests of peers,
  incoming streams and the ends of jobs.

  Theories and sources, from the bottom up:

  \<^item> \<open>Prelude\<close>: bytes, integers, UTF-8, decimal and white space, results (\<open>rbind\<close>, \<open>map_err\<close>), readers and
    writers of streams, reachability (\<open>reach\<close>, an invariant rule), and the hints shared by all theories.
    \<open>Texts\<close> and \<open>Terminal_Texts\<close>: the message texts, as UTF-8 bytes, and JSON values.
  \<^item> Protocols (\<open>Network\<close>): \<open>Wire\<close>, \<open>Codec\<close> (\<open>Request_Response/codec.rs\<close>), \<open>Tensor_Protocol\<close>
    (\<open>Tensor_Stream/protocol.rs\<close>), \<open>File_Protocol\<close>, \<open>Bandwidth_Protocol\<close>, \<open>Session_Protocol\<close>. Frames are
    written to a stream of bytes and read from one; the lemmas are round trips, exact reading with what
    follows left in place, and the outcome for cut streams and bad headers.
  \<^item> \<open>Rendezvous\<close> (\<open>Tensor_Stream/rendezvous.rs\<close>, \<open>Orchestrator/local_tensor_stream\<close>): streams that wait
    for accepters and accepters that wait for streams, as a step relation; no stream is lost or given twice.
  \<^item> \<open>Node\<close> (\<open>command_handler.rs\<close>, \<open>swarm_events.rs\<close>, the request managers) and \<open>Network_Service\<close>
    (\<open>network_service.rs\<close>, \<open>node_handle.rs\<close>, \<open>capability.rs\<close>): request bookkeeping, the info exchange, the event
    loop and the owners of incoming streams. The loop refines the node that sees only commands and events.
  \<^item> \<open>Bitmap\<close>, \<open>Peers\<close> (\<open>PeerManagement\<close>): layer bitmaps with their texts, the peer directory.
  \<^item> \<open>Storage\<close> (\<open>Storage\<close>): index, locks, guards, acquire, remove, flush and checksum over a directory.
  \<^item> \<open>Commands\<close> (\<open>command.rs\<close>, \<open>inference_id.rs\<close>), \<open>Sessions\<close> (\<open>Session_Manager\<close>), \<open>Registry\<close>
    (\<open>VM/registry.rs\<close>), \<open>Orchestrator\<close> and \<open>Orchestrator_Tasks\<close> (\<open>core.rs\<close>, its branches and the bodies of
    the tasks they spawn).
  \<^item> Models (\<open>ML_Engine\<close>): \<open>Tensor_Bytes\<close> (\<open>gguf_tensor.rs\<close>, \<open>lua_tensor.rs\<close>), \<open>GGUF\<close> and \<open>PGGUF\<close>
    (\<open>gguf_model_manager.rs\<close>: analysis, splitting, conversion), \<open>Transformer\<close> and \<open>Model_Loading\<close>
    (\<open>gguf_model.rs\<close>, \<open>qwen3.rs\<close>, \<open>qwen3_moe.rs\<close>), \<open>Chat_Template\<close>, \<open>Kv_File\<close> and \<open>Ml_Context\<close>
    (\<open>context.rs\<close>), \<open>Model_Peers\<close> and \<open>Script_Streams\<close> (\<open>VM/capability_binding.rs\<close>, \<open>VM/local_stream.rs\<close>).
  \<^item> Users: \<open>User_Commands\<close> (the parser of \<open>TUI/mod.rs\<close>, \<open>CLI/mod.rs\<close>), \<open>Terminal\<close>, \<open>Panels\<close>,
    \<open>Terminal_Events\<close>, \<open>Terminal_Session\<close> (\<open>TUI\<close>), \<open>Api\<close> (\<open>API\<close>), \<open>Configuration\<close> (\<open>Config\<close>, the first
    phase of \<open>main.rs\<close>).

  Conventions. Structures are records and enumerations datatypes with the source's names; words have the
  source's width, lengths and indices are naturals bounded by \<open>USIZE_MAX\<close> where the code can exceed it. Strings
  are lists of bytes in UTF-8. Errors are the left side of a sum; a panic is a constructor of the error or
  \<open>None\<close>. State is passed explicitly; concurrent parts are step relations or lists of turns, so a statement
  holds for every order of steps. Loops are structural or have a termination proof; a loop over input ends with the
  input, and waiting for ever is a value of its own (\<open>Api.Never\<close>, \<open>None\<close>), never an assumption. There is no
  fuel. Interfaces are locales, each interpreted on the model's own definitions in the theory that provides them.

  Parameters stand for what the sources only call: libp2p's swarm and streams (what they accept and
  deliver), tokio's timers, the tensor library (\<open>tl_\<close> operations; what is relied on is named, for instance
  \<open>add_shape\<close>: adding keeps a tensor's shape), the tokenizer and the template engine, JSON and TOML, hash functions,
  the file system's time stamps, the Lua interpreter and the terminal library's layout.

  This theory holds the statement that spans components: a model split over nodes computes what it
  computes in one piece. It rests on the splitting and loading of \<open>GGUF\<close> and \<open>Model_Loading\<close>, the layers of
  \<open>Transformer\<close>, the tensor texts of \<open>Tensor_Bytes\<close> and the streams of \<open>Script_Streams\<close>. Other statements that span
  components stand where the last of them is defined: \<open>Orchestrator_Tasks.sent_file_is_stored\<close> (file protocol,
  storage, orchestrator), \<open>Orchestrator.remote_execution\<close> (commands, node, registry),
  \<open>Orchestrator_Tasks.bridged_conversation\<close> (sessions and their streams), \<open>Terminal_Session.terminal_session\<close>
  (keys, line editor, parser) and \<open>Api.api_answers\<close> (HTTP and sessions).

  Not modelled: drawing on the terminal; the construction of the swarm and the calls of the capabilities and
  of the script bindings that only pass a call on; the Lua scripts' interpreter; floating point
  arithmetic of tensors and the quantized formats (parameters); the set-up of logging and the wiring in
  \<open>main.rs\<close>; the event bus, a wrapper of a broadcast channel; tests. The llama and deepseek models stand behind
  features that \<open>Cargo.toml\<close> does not declare and are never compiled.
\<close>

section \<open>Distributed inference\<close>

text \<open>C1: A model split over nodes computes what it computes in one piece. Cut a model file into files for
  consecutive layer ranges, let every node load one of them, and chain the nodes by streams, as the
  worker scripts do: the coordinator's input goes to the first node, each node runs its layers on what
  it receives and sends the result on. In every series of passes (a prompt, then token by token, each
  node keeping its caches) the results and the errors of forward passes are those of the whole model, as
  long as the tensors between the nodes are ones a stream carries.
\<close>

theorem distributed_inference:
  assumes "add_shape L" "\<not> is_split (GGUF_Analyze_From_Content cd c)" "\<forall>w. cd_to_u32 cd (Gv_U32 w) = Some w"
    and "load_any cd L ctx c load dev 0 (block_count cd (metadata c) + 1) = Inr m"
    and "distinct (map fst (metadata c))" "block_count cd (metadata c) + 1 < 2 ^ 32"
    and "consecutive 0 (map fst pieces) (block_count cd (metadata c) + 1)"
    and "\<forall>f \<in> set pieces. case f of ((s, e), out, c') \<Rightarrow> GGUF_Split_Model cd c load stem s e kt = Inr out \<and> reads_back out c'"
    and "Parse_Device_Str has_cuda dev_str = Inr dev"
  shows "\<exists>ms. map (\<lambda>((s, e), out, c'). load_any cd L ctx c' (map_of (so_tensors out)) dev s e) pieces = map Inr ms \<and>
    (\<forall>steps. steps_sendable (carried from_vec dev view back) (AnyModel_Forward L) ms steps \<longrightarrow>
       run_steps (wire_pipeline (relay has_cuda from_vec dev_str view back) (AnyModel_Forward L)) ms steps =
       map (map_err Inl) (run_steps (AnyModel_Forward L) m steps))"
  using split_files_chain [OF assms(1-8)] wire_equals_pipeline [OF assms(9)] by metis

theorem distributed_inference_witness:
  "\<exists>m out1 out2 ms. load_any demo_candle toy_lib (\<lambda>_ e. e) tiny_content tiny_load Dev_Cpu 0 2 = Inr m \<and>
     GGUF_Split_Model demo_candle tiny_content tiny_load ''t'' 0 0 False = Inr out1 \<and>
     GGUF_Split_Model demo_candle tiny_content tiny_load ''t'' 1 2 False = Inr out2 \<and>
     [load_any demo_candle toy_lib (\<lambda>_ e. e) (content_of out1) (map_of (so_tensors out1)) Dev_Cpu 0 0,
      load_any demo_candle toy_lib (\<lambda>_ e. e) (content_of out2) (map_of (so_tensors out2)) Dev_Cpu 1 2] = map Inr ms \<and>
     run_steps (wire_pipeline (relay (\<lambda>_. False) plain_from_vec ''cpu'' toy_view toy_back) (AnyModel_Forward toy_lib)) ms
         [(([1, 3], 7), 0), (([1, 1], 8), 3)]
       = map (map_err Inl) (run_steps (AnyModel_Forward toy_lib) m [(([1, 3], 7), 0), (([1, 1], 8), 3)])"
proof -
  obtain m where m: "load_any demo_candle toy_lib (\<lambda>_ e. e) tiny_content tiny_load Dev_Cpu 0 2 = Inr m"
    using tiny_loads by blast
  have n: "block_count demo_candle (metadata tiny_content) + 1 = 2" by (simp add: tiny_info)
  have full: "\<forall>x \<in> set (tensor_keys tiny_content). tiny_load x \<noteq> None" by (simp add: tiny_keys tiny_load_def)
  obtain out1 where o1: "GGUF_Split_Model demo_candle tiny_content tiny_load ''t'' 0 0 False = Inr out1"
    using split_total [of 0 0 demo_candle tiny_content 0, OF _ _ _ _ full] tiny_layer_names by (auto simp: tiny_info)
  obtain out2 where o2: "GGUF_Split_Model demo_candle tiny_content tiny_load ''t'' 1 2 False = Inr out2"
    using split_total [of 1 2 demo_candle tiny_content 2, OF _ _ _ _ full] tiny_layer_names by (auto simp: tiny_info)
  let ?files = "[((0, 0), out1, content_of out1), ((1, 2), out2, content_of out2)]"
  let ?steps = "[(([1, 3], 7), 0), (([1, 1], 8), 3)] :: (toy_tensor \<times> nat) list"
  have u: "\<forall>w. cd_to_u32 demo_candle (Gv_U32 w) = Some w" by (simp add: demo_candle_def)
  have d: "distinct (map fst (metadata tiny_content))" by (simp add: tiny_content_def)
  have f: "\<forall>f \<in> set ?files. case f of ((s, e), out, c') \<Rightarrow>
      GGUF_Split_Model demo_candle tiny_content tiny_load ''t'' s e False = Inr out \<and> reads_back out c'"
    using o1 o2 by (simp add: reads_back_content_of)
  have r: "(2 :: nat) < 2 ^ 32" "consecutive 0 (map fst ?files) 2" by simp_all
  have cpu: "Parse_Device_Str (\<lambda>_. False) ''cpu'' = Inr Dev_Cpu" by code_simp
  from distributed_inference [OF toy_add_shape tiny_info(4) u, unfolded n, OF m d r f cpu]
  obtain ms where ms: "map (\<lambda>((s, e), out, c'). load_any demo_candle toy_lib (\<lambda>_ e. e) c' (map_of (so_tensors out)) Dev_Cpu s e) ?files = map Inr ms"
    "steps_sendable (carried plain_from_vec Dev_Cpu toy_view toy_back) (AnyModel_Forward toy_lib) ms ?steps \<Longrightarrow>
      run_steps (wire_pipeline (relay (\<lambda>_. False) plain_from_vec ''cpu'' toy_view toy_back) (AnyModel_Forward toy_lib)) ms ?steps
       = map (map_err Inl) (run_steps (AnyModel_Forward toy_lib) m ?steps)" by blast
  obtain k1 t k2 where "ms = [Qwen3 k1, Qwen3 k2]" "mw_embed_tokens k1 = Some (t, 2)" "mw_embed_tokens k2 = None"
    using tiny_split_parts [OF m o1 o2 ms(1) [unfolded list.map prod.case]] by blast
  then have "steps_sendable (carried plain_from_vec Dev_Cpu toy_view toy_back) (AnyModel_Forward toy_lib) ms ?steps"
    using toy_steps_sendable [of k1 t k2 ?steps] by simp
  then show ?thesis
    by (intro exI conjI) (rule m, rule o1, rule o2, rule ms(1) [unfolded list.map prod.case], rule ms(2))
qed

end
